(* ===== verification/Prelude.thy ===== *)
theory Prelude
  imports "HOL-Library.Word"
begin

section \<open>Shared types, standard-library operations and automation\<close>

text \<open>
  Names for the machine integers of the Rust code, the operations of the Rust standard
  library that several components use (the \<open>?\<close> operator, saturating and checked
  arithmetic, big- and little-endian byte arrays, decimal digits are in their own theory)
  and the lemmas the components share. A \<open>usize\<close> is a natural number here, because every
  \<open>usize\<close> of the program is a length or an index of a slice; the other integers keep
  their width as words, so \<open>+\<close> and \<open>*\<close> wrap as in the release build that the
  Makefile produces.
\<close>

unbundle bit_operations_syntax

type_synonym u8 = "8 word"
type_synonym u16 = "16 word"
type_synonym u32 = "32 word"
type_synonym u64 = "64 word"
type_synonym i64 = "64 word"
type_synonym bytes = "8 word list"

named_theorems sat_simps \<open>saturating and checked arithmetic, read through unat\<close>
named_theorems byte_simps \<open>byte arrays of machine integers\<close>

subsection \<open>Results\<close>

text \<open>The \<open>?\<close> operator: an error leaves the function, a value goes on.\<close>

definition rbind :: "'e + 'a \<Rightarrow> ('a \<Rightarrow> 'e + 'b) \<Rightarrow> 'e + 'b" where
  "rbind r k = (case r of Inl e \<Rightarrow> Inl e | Inr a \<Rightarrow> k a)"

definition ok_or :: "'e \<Rightarrow> 'a option \<Rightarrow> 'e + 'a" where
  "ok_or e x = (case x of None \<Rightarrow> Inl e | Some a \<Rightarrow> Inr a)"

lemma rbind_simps [simp]:
  "rbind (Inl e) k = Inl e"
  "rbind (Inr a) k = k a"
  by (simp_all add: rbind_def)

lemma rbind_eq_Inr [simp]:
  "rbind r k = Inr b \<longleftrightarrow> (\<exists>a. r = Inr a \<and> k a = Inr b)"
  by (cases r) auto

lemma rbind_eq_Inl:
  "rbind r k = Inl e \<longleftrightarrow> r = Inl e \<or> (\<exists>a. r = Inr a \<and> k a = Inl e)"
  by (cases r) auto

lemma ok_or_simps [simp]:
  "ok_or e None = Inl e"
  "ok_or e (Some a) = Inr a"
  by (simp_all add: ok_or_def)

lemma ok_or_eq_Inr [simp]: "ok_or e x = Inr a \<longleftrightarrow> x = Some a"
  by (cases x) auto

lemma ok_or_eq_Inl [simp]: "ok_or e x = Inl e' \<longleftrightarrow> x = None \<and> e' = e"
  by (cases x) auto

subsection \<open>Saturating and checked arithmetic\<close>

definition sat_add :: "'a::len word \<Rightarrow> 'a word \<Rightarrow> 'a word" where
  "sat_add a b = (if unat a + unat b < 2 ^ LENGTH('a) then a + b else - 1)"

definition sat_sub :: "'a::len word \<Rightarrow> 'a word \<Rightarrow> 'a word" where
  "sat_sub a b = (if b \<le> a then a - b else 0)"

definition sat_mul :: "'a::len word \<Rightarrow> 'a word \<Rightarrow> 'a word" where
  "sat_mul a b = (if unat a * unat b < 2 ^ LENGTH('a) then a * b else - 1)"

definition checked_sub :: "'a::len word \<Rightarrow> 'a word \<Rightarrow> 'a word option" where
  "checked_sub a b = (if b \<le> a then Some (a - b) else None)"

lemma unat_max_word: "unat (- 1 :: 'a::len word) = 2 ^ LENGTH('a) - 1"
  by (simp add: unsigned_minus_1_eq_mask mask_eq_exp_minus_1)

lemma unat_sat_add [sat_simps]:
  "unat (sat_add a b) = min (unat a + unat b) (2 ^ LENGTH('a) - 1)"
  for a b :: "'a::len word"
  by (auto simp: sat_add_def unat_max_word unat_word_ariths)

lemma unat_sat_sub [sat_simps]: "unat (sat_sub a b) = unat a - unat b"
  by (auto simp: sat_sub_def word_le_nat_alt unat_sub)

lemma unat_sat_mul [sat_simps]:
  "unat (sat_mul a b) = min (unat a * unat b) (2 ^ LENGTH('a) - 1)"
  for a b :: "'a::len word"
  by (auto simp: sat_mul_def unat_max_word unat_word_ariths)

lemma checked_sub_Some_iff:
  "checked_sub a b = Some c \<longleftrightarrow> unat b \<le> unat a \<and> unat c = unat a - unat b"
  by (auto simp: checked_sub_def word_le_nat_alt unat_sub word_unat_eq_iff)

lemma checked_sub_None_iff: "checked_sub a b = None \<longleftrightarrow> unat a < unat b"
  by (auto simp: checked_sub_def word_le_nat_alt)

text \<open>Code equations on integers, so that evaluation does not count in unary.\<close>

lemma sat_code [code]:
  "sat_add a b = (if uint a + uint b < 2 ^ LENGTH('a) then a + b else - 1)"
  "sat_mul a b = (if uint a * uint b < 2 ^ LENGTH('a) then a * b else - 1)"
  for a b :: "'a::len word"
proof -
  have "unat a + unat b < 2 ^ LENGTH('a) \<longleftrightarrow> int (unat a + unat b) < int (2 ^ LENGTH('a))"
    "unat a * unat b < 2 ^ LENGTH('a) \<longleftrightarrow> int (unat a * unat b) < int (2 ^ LENGTH('a))"
    by (simp_all only: of_nat_less_iff)
  then show "sat_add a b = (if uint a + uint b < 2 ^ LENGTH('a) then a + b else - 1)"
    "sat_mul a b = (if uint a * uint b < 2 ^ LENGTH('a) then a * b else - 1)"
    by (simp_all add: sat_add_def sat_mul_def)
qed

lemma u64_bound: "unat (x :: u64) < 18446744073709551616"
  using unsigned_less [of x] by simp

lemma u32_bound: "unat (x :: u32) < 4294967296"
  using unsigned_less [of x] by simp

lemma u16_bound: "unat (x :: u16) < 65536"
  using unsigned_less [of x] by simp

lemma u8_bound: "unat (x :: u8) < 256"
  using unsigned_less [of x] by simp

text \<open>Widening casts (\<open>u64::from\<close> and the like) keep the value.\<close>

lemma unat_ucast_fits:
  "unat w < 2 ^ LENGTH('b) \<Longrightarrow> unat (ucast w :: 'b::len word) = unat w"
  by (simp only: unsigned_ucast_eq take_bit_nat_eq_self)

lemma unat_ucast_widen [simp]:
  "unat (ucast (a :: u8) :: u16) = unat a"
  "unat (ucast (a :: u8) :: u32) = unat a"
  "unat (ucast (a :: u8) :: u64) = unat a"
  "unat (ucast (b :: u16) :: u32) = unat b"
  "unat (ucast (b :: u16) :: u64) = unat b"
  "unat (ucast (c :: u32) :: u64) = unat c"
  using u8_bound [of a] u16_bound [of b] u32_bound [of c] by (simp_all add: unat_ucast_fits)

lemma uint_ucast_widen [simp]:
  "uint (ucast (b :: u16) :: u64) = uint b"
  "uint (ucast (c :: u32) :: u64) = uint c"
  by (simp_all only: uint_nat unat_ucast_widen)

lemma uint_word_add: "uint a + uint b < 2 ^ 64 \<Longrightarrow> uint (a + b) = uint a + uint b" for a b :: u64
  by (simp add: uint_word_ariths)

lemma uint_sat_mul: "uint a * uint b < 2 ^ 64 \<Longrightarrow> uint (sat_mul a b) = uint a * uint b" for a b :: u64
  by (simp add: sat_code uint_word_ariths)

lemma ucast_widen_narrow [simp]:
  "ucast (ucast (a :: u8) :: u64) = a"
  "ucast (ucast (b :: u16) :: u64) = b"
  "ucast (ucast (ucast (a :: u8) :: u64) :: u16) = a"
  using u8_bound [of a] u16_bound [of b] by (simp_all add: word_unat_eq_iff unat_ucast_fits)

lemma unat_le_max [simp]: "unat (a :: u8) \<le> 255" "unat (a :: u8) \<le> 65535" "unat (b :: u16) \<le> 65535"
  using u8_bound [of a] u16_bound [of b] by simp_all

subsection \<open>Runs of stateful operations\<close>

text \<open>The results of an operation on a list of arguments, and the last state.\<close>

primrec run_steps :: "('s \<Rightarrow> 'a \<Rightarrow> 'r \<times> 's) \<Rightarrow> 's \<Rightarrow> 'a list \<Rightarrow> 'r list \<times> 's" where
  "run_steps f s [] = ([], s)"
| "run_steps f s (x # xs) =
     (case f s x of (r, s') \<Rightarrow> case run_steps f s' xs of (rs, s'') \<Rightarrow> (r # rs, s''))"

lemma run_steps_Cons [simp]:
  "fst (run_steps f s (x # xs)) = fst (f s x) # fst (run_steps f (snd (f s x)) xs)"
  "snd (run_steps f s (x # xs)) = snd (run_steps f (snd (f s x)) xs)"
  by (simp_all add: case_prod_unfold)

declare run_steps.simps(2) [simp del]

lemma length_run_steps [simp]: "length (fst (run_steps f s xs)) = length xs"
  by (induction xs arbitrary: s) auto

lemma run_steps_append:
  "run_steps f s (xs @ ys) =
     (case run_steps f s xs of (rs, s') \<Rightarrow> case run_steps f s' ys of (rs', s'') \<Rightarrow> (rs @ rs', s''))"
  by (induction xs arbitrary: s) (auto simp: run_steps.simps case_prod_unfold)

text \<open>An operation on a world that carries a log it does not touch.\<close>

definition keep_log :: "('w \<Rightarrow> 'r \<times> 'w) \<Rightarrow> 'w \<times> 'l list \<Rightarrow> 'r \<times> 'w \<times> 'l list" where
  "keep_log f wl = (case wl of (w, l) \<Rightarrow> case f w of (r, w) \<Rightarrow> (r, w, l))"

lemma keep_log_simp [simp]: "keep_log f (w, l) = (case f w of (r, w) \<Rightarrow> (r, w, l))"
  by (simp add: keep_log_def)

subsection \<open>Byte arrays\<close>

text \<open>
  \<open>be_bytes n w\<close> is the big-endian array of the \<open>n\<close> low bytes of \<open>w\<close>
  (\<open>to_be_bytes\<close> when \<open>n\<close> is the width), \<open>be_val\<close> reads one.
\<close>

primrec be_bytes :: "nat \<Rightarrow> 'a::len word \<Rightarrow> bytes" where
  "be_bytes 0 w = []"
| "be_bytes (Suc n) w = ucast (drop_bit (8 * n) w) # be_bytes n w"

definition be_val :: "bytes \<Rightarrow> nat" where
  "be_val bs = foldl (\<lambda>a b. 256 * a + unat b) 0 bs"

lemma length_be_bytes [simp]: "length (be_bytes n w) = n"
  by (induction n) auto

lemma be_bytes_eq_Nil [simp]: "be_bytes n w = [] \<longleftrightarrow> n = 0"
  by (cases n) auto

lemma be_val_foldl:
  "foldl (\<lambda>a b. 256 * a + unat (b :: u8)) x bs = x * 256 ^ length bs + be_val bs"
proof (induction bs arbitrary: x)
  case Nil
  then show ?case by (simp add: be_val_def)
next
  case (Cons b bs)
  have "be_val (b # bs) = unat b * 256 ^ length bs + be_val bs"
    using Cons.IH [of "unat b"] by (simp add: be_val_def)
  then show ?case
    using Cons.IH [of "256 * x + unat b"] by (simp add: algebra_simps)
qed

lemma be_val_Nil [simp]: "be_val [] = 0"
  by (simp add: be_val_def)

lemma be_val_Cons [simp]: "be_val (b # bs) = unat b * 256 ^ length bs + be_val bs"
  using be_val_foldl [of "unat b" bs] by (simp add: be_val_def)

lemma be_val_append: "be_val (xs @ ys) = be_val xs * 256 ^ length ys + be_val ys"
  by (induction xs) (auto simp: algebra_simps power_add)

lemma be_val_less: "be_val bs < 256 ^ length bs"
proof (induction bs)
  case Nil
  then show ?case by simp
next
  case (Cons b bs)
  have "unat b * 256 ^ length bs + be_val bs < (unat b + 1) * 256 ^ length bs"
    using Cons.IH by simp
  also have "\<dots> \<le> 256 * 256 ^ length bs"
    using u8_bound [of b] by (intro mult_right_mono) auto
  finally show ?case by simp
qed

lemma unat_ucast_drop8:
  "unat (ucast (drop_bit (8 * n) w) :: u8) = unat w div 256 ^ n mod 256"
  for w :: "'a::len word"
proof -
  have "unat (ucast (drop_bit (8 * n) w) :: u8) = take_bit LENGTH(8) (drop_bit (8 * n) (unat w))"
    by (simp only: unsigned_ucast_eq unat_drop_bit_eq)
  then show ?thesis
    by (simp add: drop_bit_eq_div take_bit_eq_mod power_mult)
qed

lemma be_val_be_bytes [byte_simps]: "be_val (be_bytes n w) = unat w mod 256 ^ n"
proof (induction n)
  case 0
  then show ?case by simp
next
  case (Suc n)
  have "unat w mod 256 ^ Suc n = 256 ^ n * (unat w div 256 ^ n mod 256) + unat w mod 256 ^ n"
    using mod_mult2_eq [of "unat w" "256 ^ n" 256] by (simp add: mult.commute)
  then show ?case
    by (simp add: Suc.IH unat_ucast_drop8)
qed

lemma be_val_inj: "length xs = length ys \<Longrightarrow> be_val xs = be_val ys \<Longrightarrow> xs = ys"
proof (induction xs ys rule: list_induct2)
  case Nil
  then show ?case by simp
next
  case (Cons x xs y ys)
  have less: "be_val xs < 256 ^ length ys" "be_val ys < 256 ^ length ys"
    using be_val_less [of xs] be_val_less [of ys] Cons.hyps by auto
  have eq: "unat x * 256 ^ length ys + be_val xs = unat y * 256 ^ length ys + be_val ys"
    using Cons.prems Cons.hyps by simp
  have "(unat x * 256 ^ length ys + be_val xs) div 256 ^ length ys = unat x"
    "(unat y * 256 ^ length ys + be_val ys) div 256 ^ length ys = unat y"
    using less by simp_all
  then have "unat x = unat y" using eq by metis
  moreover from this eq have "be_val xs = be_val ys" by simp
  ultimately show ?case using Cons.IH by (auto intro: unsigned_word_eqI)
qed

lemma be_bytes_inj:
  "be_bytes n v = be_bytes n w \<Longrightarrow> unat v mod 256 ^ n = unat w mod 256 ^ n"
  by (metis be_val_be_bytes)

subsection \<open>Lists\<close>

text \<open>\<open>iter().position\<close> and \<open>iter().rposition\<close>.\<close>

fun position :: "('a \<Rightarrow> bool) \<Rightarrow> 'a list \<Rightarrow> nat option" where
  "position P [] = None"
| "position P (x # xs) = (if P x then Some 0 else map_option Suc (position P xs))"

fun rposition :: "('a \<Rightarrow> bool) \<Rightarrow> 'a list \<Rightarrow> nat option" where
  "rposition P [] = None"
| "rposition P (x # xs) =
     (case rposition P xs of
        Some i \<Rightarrow> Some (Suc i)
      | None \<Rightarrow> if P x then Some 0 else None)"

lemma rposition_None_iff: "rposition P xs = None \<longleftrightarrow> (\<forall>x \<in> set xs. \<not> P x)"
  by (induction xs) (auto split: option.splits)

lemma rposition_SomeD:
  "rposition P xs = Some i \<Longrightarrow> i < length xs \<and> P (xs ! i) \<and> (\<forall>x \<in> set (drop (Suc i) xs). \<not> P x)"
proof (induction xs arbitrary: i)
  case Nil
  then show ?case by simp
next
  case (Cons x xs)
  then show ?case
    by (cases "rposition P xs") (auto simp: rposition_None_iff split: if_splits)
qed

lemma position_None_iff: "position P xs = None \<longleftrightarrow> (\<forall>x \<in> set xs. \<not> P x)"
  by (induction xs) auto

lemma position_SomeD:
  "position P xs = Some i \<Longrightarrow> i < length xs \<and> P (xs ! i) \<and> (\<forall>x \<in> set (take i xs). \<not> P x)"
proof (induction xs arbitrary: i)
  case Nil
  then show ?case by simp
next
  case (Cons x xs)
  then show ?case
    by (cases "P x"; cases "position P xs") auto
qed

lemma take_eq_replicate_iff:
  "length xs = n \<Longrightarrow> (\<forall>x \<in> set xs. x = a) \<longleftrightarrow> xs = replicate n a"
  by (metis in_set_replicate replicate_eqI)

lemma list4_cases:
  assumes "length xs = 4"
  obtains a b c d where "xs = [a, b, c, d]"
  using assms by (auto simp: length_Suc_conv numeral_eq_Suc)

end
