(* ===== verification/Text_Format.thy ===== *)
theory Text_Format
  imports Prelude "HOL-Library.Char_ord"
begin

section \<open>Text: lines, fields and numbers\<close>

text \<open>
  The operations of the Rust standard library on text that the program uses: \<open>str::lines\<close>,
  \<open>str::split\<close>, \<open>strip_prefix\<close>, the integer parsers \<open>from_str_radix\<close> and
  \<open>FromStr\<close>, and the decimal \<open>Display\<close> of integers. A \<open>str\<close> is the list of its
  UTF-8 bytes, each a \<open>char\<close>.
\<close>

subsection \<open>Splitting\<close>

fun split_on :: "char \<Rightarrow> string \<Rightarrow> string list" where
  "split_on c [] = [[]]"
| "split_on c (x # xs) =
     (if x = c then [] # split_on c xs
      else case split_on c xs of [] \<Rightarrow> [[x]] | f # fs \<Rightarrow> (x # f) # fs)"

definition newline :: char where
  "newline = CHR 0x0A"

definition carriage_return :: char where
  "carriage_return = CHR 0x0D"

definition tab :: char where
  "tab = CHR 0x09"

lemma separators_neq [simp]:
  "newline \<noteq> tab" "tab \<noteq> newline" "carriage_return \<noteq> tab" "tab \<noteq> carriage_return"
  "newline \<noteq> CHR ''-''" "carriage_return \<noteq> CHR ''-''" "tab \<noteq> CHR ''-''"
  by (simp_all add: newline_def carriage_return_def tab_def)

definition strip_cr :: "string \<Rightarrow> string" where
  "strip_cr l = (if l \<noteq> [] \<and> last l = carriage_return then butlast l else l)"

text \<open>
  \<open>str::lines\<close>: every piece that ends in a newline is a line without it (and without one
  carriage return before it); a non-empty last piece is a line as it is.
\<close>

primrec terminated_lines :: "string list \<Rightarrow> string list" where
  "terminated_lines [] = []"
| "terminated_lines (l # ls) =
     (if ls = [] then (if l = [] then [] else [l]) else strip_cr l # terminated_lines ls)"

definition str_lines :: "string \<Rightarrow> string list" where
  "str_lines s = terminated_lines (split_on newline s)"

definition strip_prefix :: "string \<Rightarrow> string \<Rightarrow> string option" where
  "strip_prefix p s = (if take (length p) s = p then Some (drop (length p) s) else None)"

text \<open>\<open>str::split_once\<close> at one character.\<close>

fun split_once :: "char \<Rightarrow> string \<Rightarrow> (string \<times> string) option" where
  "split_once c [] = None"
| "split_once c (x # xs) =
     (if x = c then Some ([], xs) else map_option (\<lambda>(a, b). (x # a, b)) (split_once c xs))"

definition unlines :: "string list \<Rightarrow> string" where
  "unlines ls = concat (map (\<lambda>l. l @ [newline]) ls)"

primrec join_with :: "char \<Rightarrow> string list \<Rightarrow> string" where
  "join_with c [] = []"
| "join_with c (f # fs) = (if fs = [] then f else f @ c # join_with c fs)"

lemma split_on_not_Nil [simp]: "split_on c s \<noteq> []"
  by (cases s) (auto split: list.splits)

lemma split_on_append:
  "c \<notin> set a \<Longrightarrow> split_on c (a @ c # b) = a # split_on c b"
  by (induction a) auto

lemma split_on_single: "c \<notin> set a \<Longrightarrow> split_on c a = [a]"
  by (induction a) auto

lemma split_on_join:
  "fs \<noteq> [] \<Longrightarrow> \<forall>f \<in> set fs. c \<notin> set f \<Longrightarrow> split_on c (join_with c fs) = fs"
  by (induction fs) (auto simp: split_on_append split_on_single)

lemma split_on_unlines:
  "\<forall>l \<in> set ls. newline \<notin> set l \<Longrightarrow> split_on newline (unlines ls) = ls @ [[]]"
  by (induction ls) (auto simp: unlines_def split_on_append)

lemma terminated_lines_snoc: "terminated_lines (ls @ [[]]) = map strip_cr ls"
  by (induction ls) auto

lemma str_lines_unlines:
  "\<forall>l \<in> set ls. newline \<notin> set l \<and> carriage_return \<notin> set l \<Longrightarrow> str_lines (unlines ls) = ls"
proof -
  assume ls: "\<forall>l \<in> set ls. newline \<notin> set l \<and> carriage_return \<notin> set l"
  have "strip_cr l = l" if "carriage_return \<notin> set l" for l
    using that last_in_set [of l] by (metis strip_cr_def)
  with ls show ?thesis
    by (simp add: str_lines_def split_on_unlines terminated_lines_snoc map_idI)
qed

lemma split_once_append: "c \<notin> set a \<Longrightarrow> split_once c (a @ c # b) = Some (a, b)"
  by (induction a) auto

lemma split_once_Some:
  "split_once c s = Some (a, b) \<Longrightarrow> s = a @ c # b \<and> c \<notin> set a"
  by (induction s arbitrary: a) (auto split: if_splits)

lemma split_once_None_iff: "split_once c s = None \<longleftrightarrow> c \<notin> set s"
  by (induction s) auto

subsection \<open>Integers\<close>

definition digit_value :: "char \<Rightarrow> nat option" where
  "digit_value c =
     (let n = of_char c :: nat
      in if 48 \<le> n \<and> n < 58 then Some (n - 48)
         else if 97 \<le> n \<and> n < 123 then Some (n - 87)
         else if 65 \<le> n \<and> n < 91 then Some (n - 55)
         else None)"

definition to_digit :: "nat \<Rightarrow> char \<Rightarrow> nat option" where
  "to_digit radix c =
     (case digit_value c of None \<Rightarrow> None | Some d \<Rightarrow> if d < radix then Some d else None)"

text \<open>The accumulation loop with its overflow checks; \<open>limit\<close> is \<open>MAX + 1\<close> of the type.\<close>

fun accumulate :: "nat \<Rightarrow> nat \<Rightarrow> nat \<Rightarrow> string \<Rightarrow> nat option" where
  "accumulate limit radix acc [] = Some acc"
| "accumulate limit radix acc (c # cs) =
     (case to_digit radix c of
        None \<Rightarrow> None
      | Some d \<Rightarrow>
          if acc * radix + d < limit then accumulate limit radix (acc * radix + d) cs else None)"

text \<open>\<open>from_str_radix\<close> of an unsigned type: one leading plus sign is accepted.\<close>

definition from_str_radix :: "nat \<Rightarrow> nat \<Rightarrow> string \<Rightarrow> nat option" where
  "from_str_radix limit radix s =
     (if s = [] \<or> s = ''+'' then None
      else if hd s = CHR ''+'' then accumulate limit radix 0 (tl s)
      else accumulate limit radix 0 s)"

definition digit_char :: "nat \<Rightarrow> char" where
  "digit_char d = char_of (if d < 10 then 48 + d else 87 + d)"

text \<open>\<open>Display\<close> of an unsigned integer, and the same in other radixes.\<close>

fun show_radix :: "nat \<Rightarrow> nat \<Rightarrow> string" where
  "show_radix radix n =
     (if n < radix \<or> radix < 2 then [digit_char n]
      else show_radix radix (n div radix) @ [digit_char (n mod radix)])"

declare show_radix.simps [simp del]

definition decimal :: "nat \<Rightarrow> string" where
  "decimal n = show_radix 10 n"

lemma to_digit_char: "d < radix \<Longrightarrow> radix \<le> 36 \<Longrightarrow> to_digit radix (digit_char d) = Some d"
  by (auto simp: to_digit_def digit_value_def digit_char_def Let_def of_char_of)

lemma accumulate_append:
  "accumulate limit radix acc (a @ b) =
     (case accumulate limit radix acc a of None \<Rightarrow> None | Some x \<Rightarrow> accumulate limit radix x b)"
  by (induction a arbitrary: acc) (auto split: option.splits)

lemma accumulate_zeros:
  "1 < radix \<Longrightarrow> 0 < limit \<Longrightarrow>
     accumulate limit radix 0 (replicate k (CHR ''0'') @ s) = accumulate limit radix 0 s"
  by (induction k) (simp_all add: to_digit_def digit_value_def Let_def)

lemma accumulate_show_radix:
  assumes "2 \<le> radix" and "radix \<le> 36" and "n < limit"
  shows "accumulate limit radix 0 (show_radix radix n) = Some n"
  using assms
proof (induction radix n rule: show_radix.induct)
  case (1 radix n)
  show ?case
  proof (cases "n < radix")
    case True
    with 1 show ?thesis by (simp add: show_radix.simps [of radix n] to_digit_char)
  next
    case False
    then have "n div radix < limit"
      using 1 by (meson div_le_dividend le_less_trans)
    with False 1 show ?thesis
      by (simp add: show_radix.simps [of radix n] accumulate_append to_digit_char)
  qed
qed

lemma show_radix_not_Nil [simp]: "show_radix radix n \<noteq> []"
  by (simp add: show_radix.simps [of radix n])

lemma digit_char_code: "d < 36 \<Longrightarrow> of_char (digit_char d) = (if d < 10 then 48 + d else 87 + d)"
  by (simp add: digit_char_def of_char_of)

text \<open>Rendered numbers contain digits only, so no separator occurs in them.\<close>

lemma show_radix_chars:
  "2 \<le> radix \<Longrightarrow> radix \<le> 36 \<Longrightarrow> c \<in> set (show_radix radix n) \<Longrightarrow> \<exists>d < radix. c = digit_char d"
proof (induction radix n rule: show_radix.induct)
  case (1 radix n)
  show ?case
  proof (cases "n < radix")
    case True
    with 1 show ?thesis by (auto simp: show_radix.simps [of radix n])
  next
    case False
    with 1 have "c \<in> set (show_radix radix (n div radix)) \<or> c = digit_char (n mod radix)"
      by (auto simp: show_radix.simps [of radix n])
    moreover have "n mod radix < radix" using 1 by (intro mod_less_divisor) simp
    then have "\<exists>d < radix. digit_char (n mod radix) = digit_char d" by blast
    ultimately show ?thesis using 1 False by auto
  qed
qed

lemma show_radix_no_separator:
  assumes "2 \<le> radix" and "radix \<le> 36" and "of_char c < (48 :: nat) \<or> (57 < (of_char c :: nat) \<and> of_char c < (97 :: nat))"
  shows "c \<notin> set (show_radix radix n)"
proof
  assume "c \<in> set (show_radix radix n)"
  then obtain d where "d < radix" "c = digit_char d"
    using show_radix_chars [OF assms(1,2)] by blast
  then show False using assms(2,3) by (auto simp: digit_char_code split: if_splits)
qed

lemma decimal_chars [simp]:
  "tab \<notin> set (decimal n)" "newline \<notin> set (decimal n)" "carriage_return \<notin> set (decimal n)"
  "CHR '':'' \<notin> set (decimal n)" "CHR ''+'' \<notin> set (decimal n)" "CHR ''#'' \<notin> set (decimal n)"
  "decimal n \<noteq> []"
  by (auto simp: decimal_def tab_def newline_def carriage_return_def dest: show_radix_no_separator [THEN notE, rotated 3])

lemma from_str_radix_decimal [simp]:
  assumes "n < limit"
  shows "from_str_radix limit 10 (decimal n) = Some n"
proof -
  have "hd (decimal n) \<in> set (decimal n)" by simp
  then have "hd (decimal n) \<noteq> CHR ''+''" by (metis decimal_chars(5))
  moreover have "decimal n \<noteq> ''+''" using decimal_chars(5) [of n] by (metis list.set_intros(1))
  ultimately show ?thesis
    using accumulate_show_radix [of 10 n limit] assms by (simp add: from_str_radix_def decimal_def)
qed

lemma accumulate_bound: "accumulate limit radix acc s = Some n \<Longrightarrow> acc < limit \<Longrightarrow> n < limit"
  by (induction s arbitrary: acc) (auto split: option.splits if_splits)

lemma from_str_radix_bound: "from_str_radix limit radix s = Some n \<Longrightarrow> 0 < limit \<Longrightarrow> n < limit"
  by (auto simp: from_str_radix_def split: if_splits dest: accumulate_bound)

end
