(* ===== verification/Control.thy ===== *)
theory Control
  imports Prelude
begin

section \<open>Camera control: mailbox commands, registers, scale factor\<close>

text \<open>
  Model of \<open>crates/handycam-core/src/control.rs\<close>: the register tables, the command
  mailbox, the tape-transport command encoder with its four-bit sequence, the recognition
  of startup scan commands and the validated JPEG scale factor.
\<close>

subsection \<open>Constants and register writes\<close>

definition COMMAND_BLOCK_INDEX :: u16 where
  "COMMAND_BLOCK_INDEX = 0x0300"

definition COMMAND_BLOCK_SIZE :: nat where
  "COMMAND_BLOCK_SIZE = 64"

definition COMMAND_WORD_OFFSET :: nat where
  "COMMAND_WORD_OFFSET = 60"

definition SCALE_FACTOR_INDEX :: u16 where
  "SCALE_FACTOR_INDEX = 0x007c"

record register_value =
  rv_index :: u16
  rv_value :: u8

record register_write =
  rw_index :: u16
  rw_data :: bytes

definition register_write_from :: "register_value \<Rightarrow> register_write" where
  "register_write_from r = \<lparr>rw_index = rv_index r, rw_data = [rv_value r]\<rparr>"

definition POWER_OFF_REGISTERS :: "register_value list" where
  "POWER_OFF_REGISTERS = [
    \<lparr>rv_index = 0x35, rv_value = 0x06\<rparr>,
    \<lparr>rv_index = 0x35, rv_value = 0x00\<rparr>]"

definition AUDIO_ON_REGISTERS :: "register_value list" where
  "AUDIO_ON_REGISTERS = [
    \<lparr>rv_index = 0x23, rv_value = 0x00\<rparr>,
    \<lparr>rv_index = 0x24, rv_value = 0x68\<rparr>,
    \<lparr>rv_index = 0x22, rv_value = 0x0c\<rparr>,
    \<lparr>rv_index = 0x35, rv_value = 0x0f\<rparr>]"

definition POWER_ON_REGISTERS :: "register_value list" where
  "POWER_ON_REGISTERS = [
    \<lparr>rv_index = 0x35, rv_value = 0x06\<rparr>,
    \<lparr>rv_index = 0x36, rv_value = 0x01\<rparr>,
    \<lparr>rv_index = 0x36, rv_value = 0x03\<rparr>,
    \<lparr>rv_index = 0x35, rv_value = 0x0f\<rparr>]"

definition POWER_ON_STAGE_DELAY_US :: u64 where
  "POWER_ON_STAGE_DELAY_US = 10000"

definition DEVICE_INIT_TEMPLATE :: "register_value list" where
  "DEVICE_INIT_TEMPLATE = [
    \<lparr>rv_index = 0x00, rv_value = 0x00\<rparr>,
    \<lparr>rv_index = 0x50, rv_value = 0xc0\<rparr>,
    \<lparr>rv_index = 0x55, rv_value = 0x80\<rparr>,
    \<lparr>rv_index = 0x61, rv_value = 0x20\<rparr>,
    \<lparr>rv_index = 0x7a, rv_value = 0x0f\<rparr>,
    \<lparr>rv_index = 0x06, rv_value = 0x80\<rparr>,
    \<lparr>rv_index = 0x07, rv_value = 0x02\<rparr>,
    \<lparr>rv_index = 0x0a, rv_value = 0xdf\<rparr>,
    \<lparr>rv_index = 0x0f, rv_value = 0x00\<rparr>,
    \<lparr>rv_index = 0x20, rv_value = 0x41\<rparr>,
    \<lparr>rv_index = 0x21, rv_value = 0x60\<rparr>,
    \<lparr>rv_index = 0x53, rv_value = 0x80\<rparr>,
    \<lparr>rv_index = 0x54, rv_value = 0x02\<rparr>,
    \<lparr>rv_index = 0x5e, rv_value = 0x03\<rparr>,
    \<lparr>rv_index = 0x78, rv_value = 0x60\<rparr>,
    \<lparr>rv_index = 0x79, rv_value = 0x09\<rparr>,
    \<lparr>rv_index = 0x7c, rv_value = 0x10\<rparr>,
    \<lparr>rv_index = 0x37, rv_value = 0x00\<rparr>,
    \<lparr>rv_index = 0x51, rv_value = 0x00\<rparr>,
    \<lparr>rv_index = 0x76, rv_value = 0x00\<rparr>,
    \<lparr>rv_index = 0x23, rv_value = 0x00\<rparr>]"

text \<open>
  The two list updates are in range: the template has 21 entries.
\<close>

definition device_init_registers :: "u8 \<Rightarrow> u8 \<Rightarrow> register_value list" where
  "device_init_registers mode_61 init_complete =
     (let registers = DEVICE_INIT_TEMPLATE;
          registers = registers[3 := (registers ! 3)\<lparr>rv_value := mode_61\<rparr>]
      in registers[18 := (registers ! 18)\<lparr>rv_value := init_complete\<rparr>])"

subsection \<open>The command mailbox\<close>

definition command_block :: "u32 \<Rightarrow> bytes" where
  "command_block command = replicate COMMAND_WORD_OFFSET 0 @ be_bytes 4 command"

definition command_write :: "u32 \<Rightarrow> register_write" where
  "command_write command =
     \<lparr>rw_index = COMMAND_BLOCK_INDEX, rw_data = command_block command\<rparr>"

datatype transport_command = Play | Pause | Stop | FastForward | Rewind

primrec command_byte :: "transport_command \<Rightarrow> u8" where
  "command_byte Play = 0x1a"
| "command_byte Pause = 0x19"
| "command_byte Stop = 0x18"
| "command_byte FastForward = 0x1c"
| "command_byte Rewind = 0x1b"

record transport_command_encoder =
  enc_sequence :: u8

definition default_encoder :: transport_command_encoder where
  "default_encoder = \<lparr>enc_sequence = 0\<rparr>"

definition with_sequence :: "u8 \<Rightarrow> transport_command_encoder" where
  "with_sequence sequence = \<lparr>enc_sequence = sequence AND 0x0f\<rparr>"

definition encode ::
  "transport_command_encoder \<Rightarrow> transport_command \<Rightarrow> u32 \<times> transport_command_encoder" where
  "encode enc command =
     (let enc = enc\<lparr>enc_sequence := (enc_sequence enc + 1) AND 0x0f\<rparr>;
          sequence = (ucast (enc_sequence enc) :: u32)
      in (push_bit 20 sequence OR push_bit 16 1
          OR push_bit 8 (ucast (command_byte command)) OR push_bit 4 sequence, enc))"

definition encoder_command_write ::
  "transport_command_encoder \<Rightarrow> transport_command \<Rightarrow> register_write \<times> transport_command_encoder"
  where
  "encoder_command_write enc command =
     (case encode enc command of (word, enc) \<Rightarrow> (command_write word, enc))"

definition scan_ack_token :: "bytes \<Rightarrow> u8 option" where
  "scan_ack_token block =
     (if length block \<noteq> COMMAND_BLOCK_SIZE
         \<or> list_ex (\<lambda>byte. byte \<noteq> 0) (take COMMAND_WORD_OFFSET block)
      then None
      else let command = drop COMMAND_WORD_OFFSET block
           in if command ! 0 = 0
                 \<and> command ! 1 AND 0x0f = 0x09
                 \<and> command ! 2 = 0x10
                 \<and> command ! 3 = (command ! 1 AND 0xf0) OR 0x01
              then Some (command ! 3)
              else None)"

subsection \<open>Scale factor\<close>

datatype scale_factor = ScaleFactor (scale_get: u8)

datatype scale_factor_error = ScaleFactorError u8

definition scale_MIN :: u8 where
  "scale_MIN = 4"

definition scale_MAX :: u8 where
  "scale_MAX = 128"

definition DRIVER_DEFAULT :: scale_factor where
  "DRIVER_DEFAULT = ScaleFactor 36"

definition scale_factor_new :: "u8 \<Rightarrow> scale_factor_error + scale_factor" where
  "scale_factor_new value =
     (if \<not> (scale_MIN \<le> value \<and> value \<le> scale_MAX) then Inl (ScaleFactorError value)
      else Inr (ScaleFactor value))"

definition scale_register_write :: "scale_factor \<Rightarrow> register_write" where
  "scale_register_write s = \<lparr>rw_index = SCALE_FACTOR_INDEX, rw_data = [scale_get s]\<rparr>"

subsection \<open>Helper lemmas\<close>

lemma and_low_nibble: "(x :: u8) AND 0x0f = take_bit 4 x"
  by (simp add: take_bit_eq_mask mask_numeral)

lemma and_high_nibble: "(x :: u8) AND 0xf0 = push_bit 4 (drop_bit 4 x)"
proof -
  have eq: "(0xf0 :: u8) = push_bit 4 (mask 4)"
    by (simp add: mask_numeral)
  show ?thesis
    unfolding eq by (rule bit_word_eqI) (auto simp: bit_simps)
qed

lemma be_bytes_4:
  "be_bytes 4 w = [ucast (drop_bit 24 w), ucast (drop_bit 16 w), ucast (drop_bit 8 w), ucast w]"
  by (simp add: numeral_eq_Suc)

text \<open>The word \<open>00 n1 cc n0\<close> of the mailbox protocol.\<close>

definition wire_word :: "u8 \<Rightarrow> u8 \<Rightarrow> u32" where
  "wire_word n cc =
     push_bit 20 (ucast n) OR push_bit 16 1 OR push_bit 8 (ucast cc) OR push_bit 4 (ucast n)"

lemma be_bytes_wire_word:
  "be_bytes 4 (wire_word (take_bit 4 n) cc)
     = [0, push_bit 4 (take_bit 4 n) OR 1, cc, push_bit 4 (take_bit 4 n)]"
  unfolding be_bytes_4 wire_word_def
  by (intro arg_cong2 [where f = Cons] refl; rule bit_word_eqI)
     (auto simp: bit_simps simp del: push_bit_of_1 push_bit_numeral dest: bit_imp_le_length)

lemma encode_eq:
  "encode enc c = (let n = take_bit 4 (enc_sequence enc + 1)
                   in (wire_word n (command_byte c), enc\<lparr>enc_sequence := n\<rparr>))"
  by (simp add: encode_def wire_word_def and_low_nibble Let_def)

lemma inj_command_byte: "command_byte c = command_byte d \<longleftrightarrow> c = d"
  by (cases c; cases d) simp_all

lemma wire_word_inject:
  "wire_word (take_bit 4 m) a = wire_word (take_bit 4 n) b \<longleftrightarrow> take_bit 4 m = take_bit 4 n \<and> a = b"
proof
  assume "wire_word (take_bit 4 m) a = wire_word (take_bit 4 n) b"
  then have "be_bytes 4 (wire_word (take_bit 4 m) a) = be_bytes 4 (wire_word (take_bit 4 n) b)"
    by simp
  then have "push_bit 4 (take_bit 4 m) = push_bit 4 (take_bit 4 n)" and "a = b"
    by (simp_all add: be_bytes_wire_word)
  moreover have "drop_bit 4 (push_bit 4 (take_bit 4 x)) = take_bit 4 x" for x :: u8
    by (rule bit_word_eqI) (auto simp: bit_simps)
  ultimately show "take_bit 4 m = take_bit 4 n \<and> a = b" by metis
qed simp

lemma list_ex_nonzero_take:
  "length xs = n + m \<Longrightarrow> \<not> list_ex (\<lambda>b. b \<noteq> 0) (take n xs) \<longleftrightarrow> take n xs = replicate n (0 :: u8)"
  by (auto simp: list_ex_iff simp flip: take_eq_replicate_iff)

lemma nibble_split: "(x :: u8) = push_bit 4 (drop_bit 4 x) OR take_bit 4 x"
  by (rule bit_word_eqI) (auto simp: bit_simps)

lemma scan_ack_token_eq:
  "scan_ack_token block = Some t \<longleftrightarrow>
     (\<exists>n. block = replicate 60 0 @ [0, push_bit 4 n OR 9, 0x10, t] \<and> t = push_bit 4 n OR 1)"
  (is "?l \<longleftrightarrow> (\<exists>n. ?r n)")
proof
  assume l: ?l
  then have "length (drop 60 block) = 4"
    by (auto simp: scan_ack_token_def COMMAND_BLOCK_SIZE_def split: if_splits)
  then obtain a b c d where cmd: "drop 60 block = [a, b, c, d]"
    by (rule list4_cases)
  with l have pre: "take 60 block = replicate 60 0"
    and eqs: "a = 0" "take_bit 4 b = 9" "c = 0x10" "d = t" "t = push_bit 4 (drop_bit 4 b) OR 1"
    using list_ex_nonzero_take [of block 60 4]
    by (auto simp: scan_ack_token_def COMMAND_BLOCK_SIZE_def COMMAND_WORD_OFFSET_def Let_def
        and_low_nibble and_high_nibble split: if_splits)
  have "b = push_bit 4 (drop_bit 4 b) OR 9"
    using nibble_split [of b] eqs(2) by simp
  then have "?r (drop_bit 4 b)"
    using pre cmd eqs append_take_drop_id [of 60 block] by metis
  then show "\<exists>n. ?r n" ..
next
  assume "\<exists>n. ?r n"
  then obtain n where n: "?r n" ..
  have "take_bit 4 (push_bit 4 n OR 9) = 9" "push_bit 4 (drop_bit 4 (push_bit 4 n OR (9::u8))) = push_bit 4 n"
    for n :: u8
    by (rule bit_word_eqI, auto simp: bit_simps)+
  with n show ?l
    by (auto simp: scan_ack_token_def COMMAND_BLOCK_SIZE_def COMMAND_WORD_OFFSET_def Let_def
        and_low_nibble and_high_nibble list_ex_iff)
qed

text \<open>A run of the encoder over a list of commands, as a client drives it.\<close>

fun encode_run ::
  "transport_command_encoder \<Rightarrow> transport_command list \<Rightarrow> u32 list \<times> transport_command_encoder"
  where
  "encode_run enc [] = ([], enc)"
| "encode_run enc (c # cs) =
     (case encode enc c of (w, enc) \<Rightarrow> case encode_run enc cs of (ws, enc) \<Rightarrow> (w # ws, enc))"

lemma unat_low_nibble: "unat (take_bit 4 (x :: u8)) = unat x mod 16"
proof -
  have "unat (take_bit 4 x) = take_bit 4 (unat x)"
    by (rule unsigned_take_bit_eq)
  then show ?thesis by (simp add: take_bit_eq_mod)
qed

lemma mod_16_shift: "(a mod 16 + 1 + i) mod 16 = (a + 1 + i) mod (16 :: nat)"
  using mod_add_left_eq [of a 16 "1 + i"] by (simp only: add.assoc)

lemma unat_sequence_mod: "unat (word_of_nat (n mod 16) :: u8) = n mod 16"
  by (simp add: unat_of_nat take_bit_eq_mod mod_mod_cancel)

lemma next_sequence: "take_bit 4 (x + 1 :: u8) = word_of_nat ((unat x + 1) mod 16)"
proof (rule unsigned_word_eqI)
  show "unat (take_bit 4 (x + 1)) = unat (word_of_nat ((unat x + 1) mod 16) :: u8)"
    unfolding unat_low_nibble unat_sequence_mod by (simp add: unat_word_ariths mod_mod_cancel)
qed

lemma encode_eq_nat:
  "encode enc c = (let n = (unat (enc_sequence enc) + 1) mod 16
     in (wire_word (word_of_nat n) (command_byte c), enc\<lparr>enc_sequence := word_of_nat n\<rparr>))"
  unfolding encode_eq next_sequence Let_def by (rule refl)

lemma encode_run_words:
  "fst (encode_run enc cs) =
     map (\<lambda>i. wire_word (word_of_nat ((unat (enc_sequence enc) + 1 + i) mod 16))
                (command_byte (cs ! i))) [0..<length cs]"
proof (induction cs arbitrary: enc)
  case Nil
  then show ?case by simp
next
  case (Cons c cs)
  let ?enc = "snd (encode enc c)" and ?s = "unat (enc_sequence enc)"
  have seq: "unat (enc_sequence ?enc) = (?s + 1) mod 16"
    by (simp add: encode_eq_nat Let_def unat_sequence_mod)
  have head: "fst (encode enc c) = wire_word (word_of_nat ((?s + 1) mod 16)) (command_byte c)"
    by (simp add: encode_eq_nat Let_def)
  have "fst (encode_run enc (c # cs)) = fst (encode enc c) # fst (encode_run ?enc cs)"
    by (simp split: prod.splits)
  also have "\<dots> = wire_word (word_of_nat ((?s + 1) mod 16)) (command_byte c)
      # map (\<lambda>i. wire_word (word_of_nat ((?s + 1 + 1 + i) mod 16)) (command_byte (cs ! i))) [0..<length cs]"
    unfolding head Cons.IH seq mod_16_shift ..
  finally show ?case
    by (simp add: map_upt_Suc del: upt_Suc)
qed

lemma encode_run_final_sequence:
  "unat (enc_sequence (snd (encode_run enc cs))) =
     (if cs = [] then unat (enc_sequence enc) else (unat (enc_sequence enc) + length cs) mod 16)"
proof (induction cs arbitrary: enc)
  case Nil
  then show ?case by simp
next
  case (Cons c cs)
  let ?enc = "snd (encode enc c)"
  have "unat (enc_sequence ?enc) = (unat (enc_sequence enc) + 1) mod 16"
    by (simp add: encode_eq_nat Let_def unat_sequence_mod)
  moreover have "snd (encode_run enc (c # cs)) = snd (encode_run ?enc cs)"
    by (simp split: prod.splits)
  ultimately show ?case
    using Cons.IH [of ?enc] by (simp add: mod_add_left_eq)
qed

text \<open>
  Every tape command leaves as the 64-byte mailbox \<open>00 ... 00 n1 cc n0\<close>: sixty
  zero bytes, then the new sequence nibble, the property selector 1, the command's byte and
  the nibble again, in big-endian order.
\<close>
theorem encode_mailbox_layout:
  "command_block (fst (encode enc c)) =
     replicate 60 0 @
     (let n = enc_sequence (snd (encode enc c))
      in [0, push_bit 4 n OR 1, command_byte c, push_bit 4 n])"
  by (simp add: command_block_def COMMAND_WORD_OFFSET_def encode_eq be_bytes_wire_word Let_def)

text \<open>
  A run of commands uses consecutive sequence numbers modulo 16: the \<open>i\<close>-th
  word carries the nibble \<open>(s + 1 + i) mod 16\<close> and the \<open>i\<close>-th command's byte, and the
  encoder ends at \<open>(s + k) mod 16\<close> after \<open>k\<close> commands.
\<close>
theorem encode_run_sequence:
  "fst (encode_run (with_sequence s) cs) =
     map (\<lambda>i. wire_word (word_of_nat ((unat s + 1 + i) mod 16)) (command_byte (cs ! i)))
       [0..<length cs]
   \<and> unat (enc_sequence (snd (encode_run (with_sequence s) cs))) = (unat s + length cs) mod 16"
proof
  have s: "unat (enc_sequence (with_sequence s)) = unat s mod 16" for s
    by (simp only: with_sequence_def and_low_nibble transport_command_encoder.simps unat_low_nibble)
  show "fst (encode_run (with_sequence s) cs) =
     map (\<lambda>i. wire_word (word_of_nat ((unat s + 1 + i) mod 16)) (command_byte (cs ! i)))
       [0..<length cs]"
    unfolding encode_run_words s mod_16_shift ..
  show "unat (enc_sequence (snd (encode_run (with_sequence s) cs))) = (unat s + length cs) mod 16"
    unfolding encode_run_final_sequence s by (simp add: mod_add_left_eq)
qed

text \<open>
  Two encoded words are equal exactly when they carry the same command and the
  same sequence nibble, so the camera can tell a repeated command from a retransmission.
\<close>
theorem encode_word_inject:
  "fst (encode e c) = fst (encode f d) \<longleftrightarrow>
     c = d \<and> enc_sequence (snd (encode e c)) = enc_sequence (snd (encode f d))"
  by (auto simp: encode_eq Let_def wire_word_inject inj_command_byte)

text \<open>
  \<open>scan_ack_token\<close> recognises exactly the mailboxes \<open>00 n9 10 n1\<close> behind
  sixty zero bytes, and its token is the final byte \<open>n1\<close>.
\<close>
theorem scan_ack_token_iff:
  "scan_ack_token block = Some t \<longleftrightarrow>
     (\<exists>n. block = replicate 60 0 @ [0, push_bit 4 n OR 9, 0x10, t] \<and> t = push_bit 4 n OR 1)"
  by (rule scan_ack_token_eq)

text \<open>
  No tape command is ever taken for a startup scan command, so sending one never
  asks for acknowledgement polling.
\<close>
theorem transport_command_is_no_scan:
  "scan_ack_token (rw_data (fst (encoder_command_write enc c))) = None"
proof -
  have "push_bit 4 n OR 1 \<noteq> push_bit 4 m OR (9 :: u8)" for n m
    by (rule notI, drule arg_cong [where f = "\<lambda>x. bit x 3"]) (simp add: bit_simps)
  then have "scan_ack_token (command_block (fst (encode enc c))) \<noteq> Some t" for t
    by (simp add: scan_ack_token_eq command_block_def COMMAND_WORD_OFFSET_def
        encode_eq be_bytes_wire_word Let_def)
  then show ?thesis
    by (simp add: encoder_command_write_def command_write_def split: prod.split)
      (metis fst_conv not_None_eq)
qed

text \<open>
  A scale factor is accepted exactly in the range 4 to 128, and then the register
  write that sets it carries the value unchanged to index \<open>0x007c\<close>.
\<close>
theorem scale_factor_new_iff:
  "scale_factor_new v = Inr s \<longleftrightarrow>
     4 \<le> unat v \<and> unat v \<le> 128
     \<and> scale_register_write s = \<lparr>rw_index = 0x007c, rw_data = [v]\<rparr>"
  by (cases s) (auto simp: scale_factor_new_def scale_MIN_def scale_MAX_def
      scale_register_write_def SCALE_FACTOR_INDEX_def word_le_nat_alt)

end
