(* ===== verification/Init_Plan.thy ===== *)
theory Init_Plan
  imports Text_Format Control
begin

section \<open>Initialization plans\<close>

text \<open>
  Model of \<open>crates/handycam-core/src/init.rs\<close>: the parser of tab-separated
  initialization plans and the scale-factor override. \<open>hex::decode\<close> is a parameter.
\<close>

subsection \<open>Model\<close>

text \<open>Fields in source order; \<open>op_delay_us\<close> is the accessor \<open>delay_us\<close>.\<close>

datatype init_op =
    ControlIn (op_delay_us: u64) u8 u8 u16 u16 u16
  | ControlOut (op_delay_us: u64) u8 u8 u16 u16 bytes
  | SetInterface (op_delay_us: u64) u8 u8

datatype 'h init_plan_error =
    FieldCount nat nat
  | InvalidNumber nat string string
  | InvalidHex nat 'h
  | PayloadLength nat nat nat
  | Unsupported nat u8 u8

type_synonym 'h hex_decoder = "string \<Rightarrow> 'h + bytes"

definition parse_u64 :: "nat \<Rightarrow> string \<Rightarrow> string \<Rightarrow> 'h init_plan_error + u64" where
  "parse_u64 line field value =
     (let parsed =
        (case strip_prefix ''0x'' value of
           Some rest \<Rightarrow> from_str_radix (2 ^ 64) 16 rest
         | None \<Rightarrow> from_str_radix (2 ^ 64) 10 value)
      in case parsed of
           None \<Rightarrow> Inl (InvalidNumber line field value)
         | Some n \<Rightarrow> Inr (of_nat n))"

definition parse_bounded ::
  "nat \<Rightarrow> string \<Rightarrow> string \<Rightarrow> u64 \<Rightarrow> 'h init_plan_error + u64" where
  "parse_bounded line field value maximum =
     rbind (parse_u64 line field value) (\<lambda>parsed.
     if parsed > maximum then Inl (InvalidNumber line field value) else Inr parsed)"

text \<open>The body of the loop: one row of the plan, \<open>None\<close> where the code continues.\<close>

definition parse_row ::
  "'h hex_decoder \<Rightarrow> nat \<Rightarrow> string \<Rightarrow> 'h init_plan_error + init_op option" where
  "parse_row hex_decode line row =
     (if row = [] \<or> hd row = CHR ''#'' then Inr None
      else
        let fields = split_on tab row
        in if length fields \<noteq> 8 then Inl (FieldCount line (length fields))
           else
             rbind (parse_bounded line ''delay_us'' (fields ! 0) 10000000) (\<lambda>delay_us.
             rbind (parse_bounded line ''bmRequestType'' (fields ! 1) 255) (\<lambda>request_type64.
             rbind (parse_bounded line ''bRequest'' (fields ! 2) 255) (\<lambda>request64.
             rbind (parse_bounded line ''wValue'' (fields ! 3) 65535) (\<lambda>value64.
             rbind (parse_bounded line ''wIndex'' (fields ! 4) 65535) (\<lambda>index64.
             rbind (parse_bounded line ''wLength'' (fields ! 5) 64) (\<lambda>length64.
             let request_type = ucast request_type64 :: u8; request = ucast request64 :: u8;
                 value = ucast value64 :: u16; index = ucast index64 :: u16; len = unat length64
             in if request_type = 0x01 \<and> request = 0x0b \<and> index = 0 \<and> len = 0 then
                  Inr (Some (SetInterface delay_us (ucast index) (ucast value)))
                else if request_type = 0xc0 \<and> request = 0x88 then
                  Inr (Some (ControlIn delay_us request_type request value index (of_nat len)))
                else if request_type = 0x40 \<and> request = 0x88 then
                  (case hex_decode (fields ! 6) of
                     Inl source \<Rightarrow> Inl (InvalidHex line source)
                   | Inr data \<Rightarrow>
                       if length data \<noteq> len then Inl (PayloadLength line len (length data))
                       else Inr (Some (ControlOut delay_us request_type request value index data)))
                else Inl (Unsupported line request_type request))))))))"

fun parse_rows ::
  "'h hex_decoder \<Rightarrow> nat \<Rightarrow> string list \<Rightarrow> 'h init_plan_error + init_op list" where
  "parse_rows hex_decode offset [] = Inr []"
| "parse_rows hex_decode offset (row # rows) =
     rbind (parse_row hex_decode (offset + 1) row) (\<lambda>operation.
     rbind (parse_rows hex_decode (offset + 1) rows) (\<lambda>operations.
     Inr (case operation of None \<Rightarrow> operations | Some op \<Rightarrow> op # operations)))"

definition parse_init_plan :: "'h hex_decoder \<Rightarrow> string \<Rightarrow> 'h init_plan_error + init_op list" where
  "parse_init_plan hex_decode text = parse_rows hex_decode 0 (str_lines text)"

text \<open>
  \<open>override_record_mode_scale_factor\<close>: the loop over the reversed operations, returning
  the result and the updated operations.
\<close>

definition is_scale_write :: "init_op \<Rightarrow> bool" where
  "is_scale_write op =
     (case op of
        ControlOut _ _ _ _ index data \<Rightarrow> index = SCALE_FACTOR_INDEX \<and> length data = 1
      | _ \<Rightarrow> False)"

primrec set_scale_data :: "u8 \<Rightarrow> init_op \<Rightarrow> init_op" where
  "set_scale_data b (ControlIn d t r v i n) = ControlIn d t r v i n"
| "set_scale_data b (ControlOut d t r v i data) = ControlOut d t r v i (data[0 := b])"
| "set_scale_data b (SetInterface d i a) = SetInterface d i a"

fun override_reversed :: "u8 \<Rightarrow> init_op list \<Rightarrow> bool \<times> init_op list" where
  "override_reversed b [] = (False, [])"
| "override_reversed b (op # ops) =
     (if is_scale_write op then (True, set_scale_data b op # ops)
      else case override_reversed b ops of (found, ops') \<Rightarrow> (found, op # ops'))"

definition override_record_mode_scale_factor ::
  "init_op list \<Rightarrow> scale_factor \<Rightarrow> bool \<times> init_op list" where
  "override_record_mode_scale_factor operations factor =
     (case override_reversed (scale_get factor) (rev operations) of
        (found, ops) \<Rightarrow> (found, rev ops))"

subsection \<open>Well-formed operations\<close>

text \<open>
  The operations that the device may be sent: vendor reads and writes with request
  \<open>0x88\<close> of at most 64 bytes, and alternate settings of interface 0, each after at most
  ten seconds.
\<close>

fun op_ok :: "init_op \<Rightarrow> bool" where
  "op_ok (ControlIn d t r v i n) \<longleftrightarrow> d \<le> 10000000 \<and> t = 0xc0 \<and> r = 0x88 \<and> n \<le> 64"
| "op_ok (ControlOut d t r v i data) \<longleftrightarrow> d \<le> 10000000 \<and> t = 0x40 \<and> r = 0x88 \<and> length data \<le> 64"
| "op_ok (SetInterface d i a) \<longleftrightarrow> d \<le> 10000000 \<and> i = 0"

definition is_comment :: "string \<Rightarrow> bool" where
  "is_comment row \<longleftrightarrow> row = [] \<or> hd row = CHR ''#''"

lemma parse_bounded_Inr:
  "parse_bounded line field value maximum = Inr n \<Longrightarrow> n \<le> maximum"
  by (auto simp: parse_bounded_def split: if_splits)

lemma parse_row_ok:
  assumes "parse_row hex_decode line row = Inr x"
  shows "(x = None \<longleftrightarrow> is_comment row) \<and> (\<forall>op. x = Some op \<longrightarrow> op_ok op)"
proof (cases "is_comment row")
  case True
  with assms show ?thesis by (auto simp: parse_row_def is_comment_def)
next
  case False
  from assms False obtain d len where
    d: "d \<le> 10000000" and len: "len \<le> (64 :: u64)" and
    x: "\<exists>op t r v i. x = Some op \<and>
      (op = SetInterface d 0 v \<or> op = ControlIn d 0xc0 0x88 t i (of_nat (unat len))
       \<or> (\<exists>data. op = ControlOut d 0x40 0x88 t i data \<and> length data = unat len))"
    unfolding parse_row_def is_comment_def
    by (fastforce simp: Let_def split: if_splits sum.splits dest: parse_bounded_Inr)
  have "(ucast len :: u16) \<le> 64" using len by (simp add: word_le_nat_alt unat_ucast_fits)
  then show ?thesis using d len x False by (auto simp: word_le_nat_alt)
qed

lemma parse_rows_Inr:
  "parse_rows hex_decode n rows = Inr ops \<Longrightarrow>
   list_all op_ok ops \<and> length ops = length (filter (Not \<circ> is_comment) rows)"
proof (induction rows arbitrary: n ops)
  case (Cons row rows)
  then obtain x ops' where row: "parse_row hex_decode (n + 1) row = Inr x"
    and rest: "parse_rows hex_decode (n + 1) rows = Inr ops'"
    and ops: "ops = (case x of None \<Rightarrow> ops' | Some op \<Rightarrow> op # ops')"
    by auto
  show ?case
    using Cons.IH [OF rest] parse_row_ok [OF row] ops by (cases x) auto
qed simp

text \<open>
  Property C33. Every operation of a parsed plan may be sent to the device, whatever the text
  and the hexadecimal decoder: its request type, request, interface and delay are among the
  supported ones, and no transfer is longer than 64 bytes; each row that is neither empty nor
  a comment gives exactly one operation.
\<close>
theorem parsed_plan_ok:
  assumes "parse_init_plan hex_decode text = Inr ops"
  shows "list_all op_ok ops \<and> length ops = length (filter (Not \<circ> is_comment) (str_lines text))"
  using parse_rows_Inr assms by (simp add: parse_init_plan_def)

subsection \<open>Error reporting\<close>

primrec error_line :: "'h init_plan_error \<Rightarrow> nat" where
  "error_line (FieldCount l n) = l"
| "error_line (InvalidNumber l f v) = l"
| "error_line (InvalidHex l s) = l"
| "error_line (PayloadLength l e a) = l"
| "error_line (Unsupported l t r) = l"

definition reports :: "nat \<Rightarrow> 'h init_plan_error + 'a \<Rightarrow> bool" where
  "reports line r \<longleftrightarrow> (\<forall>e. r = Inl e \<longrightarrow> error_line e = line)"

lemma reports_intros [intro!]:
  "reports line (Inr a)"
  "reports line r \<Longrightarrow> (\<And>a. reports line (k a)) \<Longrightarrow> reports line (rbind r k)"
  by (auto simp: reports_def rbind_eq_Inl)

lemma reports_Inl [simp]: "reports line (Inl e) \<longleftrightarrow> error_line e = line"
  by (simp add: reports_def)

lemma reports_parse_bounded [intro!]: "reports line (parse_bounded line field value maximum)"
  by (auto simp: parse_bounded_def parse_u64_def Let_def split: option.splits)

lemma parse_row_reports: "reports line (parse_row hex_decode line row)"
  by (auto simp: parse_row_def Let_def split: sum.splits)

lemma parse_row_error: "parse_row hex_decode line row = Inl e \<Longrightarrow> error_line e = line"
  using parse_row_reports [of line hex_decode row] by (simp add: reports_def)

lemma parse_rows_Inl:
  "parse_rows hex_decode n rows = Inl e \<Longrightarrow>
   \<exists>i < length rows. error_line e = n + i + 1 \<and> parse_row hex_decode (n + i + 1) (rows ! i) = Inl e
     \<and> (\<forall>j < i. \<not> isl (parse_row hex_decode (n + j + 1) (rows ! j)))"
proof (induction rows arbitrary: n)
  case (Cons row rows)
  show ?case
  proof (cases "parse_row hex_decode (n + 1) row")
    case (Inl e')
    with Cons.prems show ?thesis by (intro exI [of _ 0]) (auto dest: parse_row_error)
  next
    case (Inr x)
    with Cons.prems have "parse_rows hex_decode (n + 1) rows = Inl e"
      by (auto simp: rbind_eq_Inl)
    from Cons.IH [OF this] obtain i where "i < length rows" "error_line e = n + 1 + i + 1"
      "parse_row hex_decode (n + 1 + i + 1) (rows ! i) = Inl e"
      "\<forall>j < i. \<not> isl (parse_row hex_decode (n + 1 + j + 1) (rows ! j))" by blast
    with Inr show ?thesis
      by (intro exI [of _ "Suc i"]) (auto simp: less_Suc_eq_0_disj)
  qed
qed simp

text \<open>
  A rejected plan is reported at its first bad line: the error names the
  (one-based) number of a line that does not parse, and every line before it does.
\<close>
theorem plan_error_names_first_bad_line:
  assumes "parse_init_plan hex_decode text = Inl e"
  shows "\<exists>i < length (str_lines text). error_line e = i + 1
    \<and> parse_row hex_decode (i + 1) (str_lines text ! i) = Inl e
    \<and> (\<forall>j < i. \<not> isl (parse_row hex_decode (j + 1) (str_lines text ! j)))"
  using parse_rows_Inl [of hex_decode 0] assms by (simp add: parse_init_plan_def)

subsection \<open>Round trip\<close>

text \<open>A renderer of plans in the documented format, with decimal numbers.\<close>

fun render_op :: "(bytes \<Rightarrow> string) \<Rightarrow> init_op \<Rightarrow> string" where
  "render_op hex_encode op =
     (let row = (\<lambda>d t r v i n data.
        join_with tab (map decimal [unat d, t, r, v, i, n] @ [data, ''-'']))
      in case op of
           ControlIn d t r v i n \<Rightarrow> row d (unat t) (unat r) (unat v) (unat i) (unat n) ''-''
         | ControlOut d t r v i data \<Rightarrow>
             row d (unat t) (unat r) (unat v) (unat i) (length data) (hex_encode data)
         | SetInterface d i a \<Rightarrow> row d 1 11 (unat a) 0 0 ''-'')"

definition render_plan :: "(bytes \<Rightarrow> string) \<Rightarrow> init_op list \<Rightarrow> string" where
  "render_plan hex_encode ops = unlines (map (render_op hex_encode) ops)"

text \<open>What the parser relies on: the decoder inverts the encoder, whose text has no separators.\<close>

definition hex_codec :: "(bytes \<Rightarrow> string) \<Rightarrow> 'h hex_decoder \<Rightarrow> bool" where
  "hex_codec hex_encode hex_decode \<longleftrightarrow>
     (\<forall>data. hex_decode (hex_encode data) = Inr data
        \<and> tab \<notin> set (hex_encode data) \<and> newline \<notin> set (hex_encode data)
        \<and> carriage_return \<notin> set (hex_encode data))"

lemma decimal_no_prefix: "strip_prefix ''0x'' (decimal n) = None"
proof -
  have "CHR ''x'' \<notin> set (decimal n)"
  proof
    assume "CHR ''x'' \<in> set (decimal n)"
    then obtain d where "d < 10" "CHR ''x'' = digit_char d"
      using show_radix_chars [of 10 "CHR ''x''" n] by (auto simp: decimal_def)
    then have "of_char (CHR ''x'') = (48 + d :: nat)" by (simp add: digit_char_code)
    with \<open>d < 10\<close> show False by simp
  qed
  moreover have "CHR ''x'' \<in> set (decimal n)" if "take (length ''0x'') (decimal n) = ''0x''"
  proof (rule in_set_takeD)
    show "CHR ''x'' \<in> set (take (length ''0x'') (decimal n))" unfolding that by simp
  qed
  ultimately show ?thesis by (auto simp: strip_prefix_def)
qed

lemma parse_bounded_decimal [simp]:
  assumes "n \<le> unat maximum"
  shows "parse_bounded line field (decimal n) maximum = Inr (of_nat n)"
proof -
  have "n < 2 ^ 64" using assms u64_bound [of maximum] by simp
  then show ?thesis using assms
    by (simp add: parse_bounded_def parse_u64_def decimal_no_prefix word_less_nat_alt unat_of_nat)
qed

declare render_op.simps [simp del]

lemma dash_chars: "tab \<notin> set ''-''" "newline \<notin> set ''-''" "carriage_return \<notin> set ''-''"
  by (simp_all add: tab_def newline_def carriage_return_def)

lemma render_row_fields:
  fixes d t r v i n :: nat
  assumes "tab \<notin> set data" and "newline \<notin> set data" and "carriage_return \<notin> set data"
  defines "row \<equiv> join_with tab [decimal d, decimal t, decimal r, decimal v, decimal i, decimal n, data, ''-'']"
  shows "split_on tab row = [decimal d, decimal t, decimal r, decimal v, decimal i, decimal n, data, ''-'']"
    and "row \<noteq> []" and "hd row \<noteq> CHR ''#''" and "newline \<notin> set row" and "carriage_return \<notin> set row"
proof -
  show "split_on tab row = [decimal d, decimal t, decimal r, decimal v, decimal i, decimal n, data, ''-'']"
    unfolding row_def by (rule split_on_join) (use assms(1) dash_chars in auto)
  have "hd (decimal d) \<in> set (decimal d)" by simp
  then have "hd (decimal d) \<noteq> CHR ''#''" by (metis decimal_chars(6))
  then show "row \<noteq> []" "hd row \<noteq> CHR ''#''" by (simp_all add: row_def)
  show "newline \<notin> set row" "carriage_return \<notin> set row"
    using assms(2,3) by (auto simp: row_def)
qed

lemma render_op_row:
  assumes codec: "hex_codec hex_encode hex_decode" and ok: "op_ok op"
  shows "parse_row hex_decode line (render_op hex_encode op) = Inr (Some op)
    \<and> newline \<notin> set (render_op hex_encode op) \<and> carriage_return \<notin> set (render_op hex_encode op)"
proof (cases op)
  case (ControlIn d t r v i n)
  then show ?thesis
    using ok render_row_fields [OF dash_chars, of "unat d" "unat t" "unat r" "unat v" "unat i" "unat n"]
    by (simp add: render_op.simps parse_row_def word_le_nat_alt Let_def)
next
  case (ControlOut d t r v i data)
  then show ?thesis
    using ok codec render_row_fields [of "hex_encode data" "unat d" "unat t" "unat r" "unat v" "unat i" "length data"]
    by (simp add: render_op.simps parse_row_def word_le_nat_alt Let_def hex_codec_def unat_of_nat)
next
  case (SetInterface d i a)
  then show ?thesis
    using ok render_row_fields [OF dash_chars, of "unat d" 1 11 "unat a" 0 0]
    by (simp add: render_op.simps parse_row_def word_le_nat_alt Let_def)
qed

lemma parse_rows_render:
  assumes "hex_codec hex_encode hex_decode" and "list_all op_ok ops"
  shows "parse_rows hex_decode n (map (render_op hex_encode) ops) = Inr ops"
  using assms(2) by (induction ops arbitrary: n) (auto simp: render_op_row [OF assms(1)])

text \<open>
  Property C34. Round trip: rendering supported operations in the documented format and
  parsing the text gives the operations back, for every hexadecimal codec whose text contains
  no separators.
\<close>
theorem init_plan_roundtrip:
  assumes "hex_codec hex_encode hex_decode" and "list_all op_ok ops"
  shows "parse_init_plan hex_decode (render_plan hex_encode ops) = Inr ops"
proof -
  have "str_lines (render_plan hex_encode ops) = map (render_op hex_encode) ops"
    unfolding render_plan_def
    by (rule str_lines_unlines) (use assms in \<open>auto simp: list_all_iff render_op_row [OF assms(1)]\<close>)
  then show ?thesis
    using parse_rows_render [OF assms] by (simp add: parse_init_plan_def)
qed

subsection \<open>The scale-factor override\<close>

lemma override_reversed_eq:
  "override_reversed b ops =
     (case position is_scale_write ops of
        None \<Rightarrow> (False, ops)
      | Some i \<Rightarrow> (True, ops[i := set_scale_data b (ops ! i)]))"
  by (induction ops) (auto split: option.splits)

lemma set_scale_data_ok: "op_ok op \<Longrightarrow> op_ok (set_scale_data b op)"
  by (cases op) auto

text \<open>
  Property C35. The override changes exactly the last scale-factor write of a plan and nothing
  else: it fails exactly when the plan has none, and otherwise the last operation that writes
  one byte to the scale-factor register writes the chosen factor, all other operations being
  unchanged; supported plans stay supported.
\<close>
theorem override_changes_last_scale_write:
  assumes "override_record_mode_scale_factor ops factor = (found, ops')"
  shows "(found \<longleftrightarrow> (\<exists>op \<in> set ops. is_scale_write op))
    \<and> (\<not> found \<longrightarrow> ops' = ops)
    \<and> (found \<longrightarrow> (\<exists>i d t r v w. i < length ops \<and> ops ! i = ControlOut d t r v SCALE_FACTOR_INDEX [w]
          \<and> (\<forall>op \<in> set (drop (Suc i) ops). \<not> is_scale_write op)
          \<and> ops' = ops[i := ControlOut d t r v SCALE_FACTOR_INDEX [scale_get factor]]))
    \<and> (list_all op_ok ops \<longrightarrow> list_all op_ok ops')"
proof (cases "position is_scale_write (rev ops)")
  case None
  with assms have "\<not> found" "ops' = ops"
    by (simp_all add: override_record_mode_scale_factor_def override_reversed_eq)
  then show ?thesis using None by (auto simp: position_None_iff)
next
  case (Some k)
  let ?i = "length ops - Suc k"
  have k: "k < length ops" "is_scale_write (rev ops ! k)" "\<forall>op \<in> set (take k (rev ops)). \<not> is_scale_write op"
    using position_SomeD [OF Some] by auto
  have ith: "ops ! ?i = rev ops ! k" using k(1) by (simp add: rev_nth)
  have ops': "found" "ops' = ops[?i := set_scale_data (scale_get factor) (ops ! ?i)]"
    using assms Some k(1) by (auto simp: override_record_mode_scale_factor_def override_reversed_eq ith rev_update)
  obtain d t r v w where op: "ops ! ?i = ControlOut d t r v SCALE_FACTOR_INDEX [w]"
    using k(2) by (auto simp: ith is_scale_write_def length_Suc_conv split: init_op.splits)
  have "set (drop (Suc ?i) ops) = set (take k (rev ops))"
    using k(1) by (simp add: take_rev Suc_diff_Suc)
  moreover have "list_all op_ok ops'" if "list_all op_ok ops"
    using that k(1) set_scale_data_ok unfolding ops'
    by (auto simp: list_all_length nth_list_update)
  moreover have "?i < length ops" using k(1) by simp
  moreover from this have "ops ! ?i \<in> set ops" by (rule nth_mem)
  moreover have "is_scale_write (ops ! ?i)" using k(2) by (simp only: ith)
  ultimately show ?thesis
    using ops' op k(3) by auto
qed

subsection \<open>A concrete codec and witnesses\<close>

fun hex_text :: "bytes \<Rightarrow> string" where
  "hex_text [] = []"
| "hex_text (b # bs) = digit_char (unat b div 16) # digit_char (unat b mod 16) # hex_text bs"

fun hex_pairs :: "string \<Rightarrow> string + bytes" where
  "hex_pairs [] = Inr []"
| "hex_pairs [c] = Inl ''odd''"
| "hex_pairs (c # d # cs) =
     (case (to_digit 16 c, to_digit 16 d) of
        (Some h, Some l) \<Rightarrow> rbind (hex_pairs cs) (\<lambda>bs. Inr (of_nat (16 * h + l) # bs))
      | _ \<Rightarrow> Inl ''digit'')"

lemma digit_char_no_separator:
  assumes "d < 16"
  shows "digit_char d \<noteq> tab" "digit_char d \<noteq> newline" "digit_char d \<noteq> carriage_return"
proof -
  have "of_char (digit_char d) \<ge> (48 :: nat)" using assms by (simp add: digit_char_code)
  then show "digit_char d \<noteq> tab" "digit_char d \<noteq> newline" "digit_char d \<noteq> carriage_return"
    by (auto simp: tab_def newline_def carriage_return_def)
qed

lemma hex_pairs_text: "hex_pairs (hex_text data) = Inr data"
proof (induction data)
  case (Cons b data)
  have "unat b div 16 < 16" using u8_bound [of b] by simp
  then have "to_digit 16 (digit_char (unat b div 16)) = Some (unat b div 16)"
    "to_digit 16 (digit_char (unat b mod 16)) = Some (unat b mod 16)"
    by (simp_all add: to_digit_char)
  with Cons show ?case by simp
qed simp

lemma hex_text_chars:
  "tab \<notin> set (hex_text data)" "newline \<notin> set (hex_text data)" "carriage_return \<notin> set (hex_text data)"
proof -
  have "unat b div 16 < 16" "unat b mod 16 < 16" for b :: u8 using u8_bound [of b] by simp_all
  then have digits: "digit_char (unat b div 16) \<notin> {tab, newline, carriage_return}"
    "digit_char (unat b mod 16) \<notin> {tab, newline, carriage_return}" for b :: u8
    by (simp_all add: digit_char_no_separator)
  show "tab \<notin> set (hex_text data)" "newline \<notin> set (hex_text data)" "carriage_return \<notin> set (hex_text data)"
    using digits by (induction data) (auto, metis+)
qed

lemma hex_codec_text: "hex_codec hex_text hex_pairs"
  by (simp add: hex_codec_def hex_pairs_text hex_text_chars)

definition sample_ops :: "init_op list" where
  "sample_ops =
     [ControlOut 0 0x40 0x88 0 0x7c [0x10], SetInterface 1250 0 5, ControlIn 739 0xc0 0x88 0 0x300 64,
      ControlOut 20 0x40 0x88 0 0x7c [0x24], ControlOut 5 0x40 0x88 1 0x35 [0xff, 1]]"

lemma sample_ops_ok: "list_all op_ok sample_ops"
  by (simp add: sample_ops_def)

theorem init_plan_roundtrip_witness:
  "parse_init_plan hex_pairs (render_plan hex_text sample_ops) = Inr sample_ops"
  by (rule init_plan_roundtrip [OF hex_codec_text sample_ops_ok])

lemma sample_plan_parses: "parse_init_plan hex_pairs (render_plan hex_text sample_ops) = Inr sample_ops"
  using parse_rows_render [OF hex_codec_text sample_ops_ok] render_op_row [OF hex_codec_text] sample_ops_ok
  by (simp add: parse_init_plan_def render_plan_def str_lines_unlines list_all_iff)

theorem parsed_plan_ok_witness:
  "list_all op_ok sample_ops
   \<and> length sample_ops = length (filter (Not \<circ> is_comment) (str_lines (render_plan hex_text sample_ops)))"
  by (rule parsed_plan_ok [OF sample_plan_parses])

theorem plan_error_names_first_bad_line_witness:
  "\<exists>i < length (str_lines (''# plan'' @ [newline] @ ''1 2'')).
     error_line (FieldCount 2 1 :: string init_plan_error) = i + 1
     \<and> parse_row hex_pairs (i + 1) (str_lines (''# plan'' @ [newline] @ ''1 2'') ! i) = Inl (FieldCount 2 1)
     \<and> (\<forall>j < i. \<not> isl (parse_row hex_pairs (j + 1) (str_lines (''# plan'' @ [newline] @ ''1 2'') ! j)))"
proof (rule plan_error_names_first_bad_line)
  show "parse_init_plan hex_pairs (''# plan'' @ [newline] @ ''1 2'') = Inl (FieldCount 2 1)"
    by code_simp
qed

theorem override_changes_last_scale_write_witness:
  "\<exists>found ops'. override_record_mode_scale_factor sample_ops (ScaleFactor 80) = (found, ops') \<and> found
     \<and> ops' \<noteq> sample_ops \<and> list_all op_ok ops'"
proof -
  obtain found ops' where run: "override_record_mode_scale_factor sample_ops (ScaleFactor 80) = (found, ops')"
    by fastforce
  have "override_record_mode_scale_factor sample_ops (ScaleFactor 80) \<noteq> (True, sample_ops)" by code_simp
  moreover have "\<exists>op \<in> set sample_ops. is_scale_write op"
    by (simp add: sample_ops_def is_scale_write_def SCALE_FACTOR_INDEX_def)
  ultimately show ?thesis
    using override_changes_last_scale_write [OF run] run sample_ops_ok by auto
qed

end
