(* ===== verification/Usb_Transport.thy ===== *)
theory Usb_Transport
  imports Init_Plan
begin

section \<open>USB control transfers\<close>

text \<open>
  Model of the control half of \<open>crates/handycam-libusb/src/transport.rs\<close>: camera
  selection, descriptor validation, replay of an initialization plan with its
  acknowledgement polling, and the transport-command exchange. The isochronous session is in
  \<open>Usb_Session\<close>. The rusb handle and the clock are a record of functions on an abstract
  device state; a \<open>rusb::Error\<close> is named by its libusb code.
\<close>

subsection \<open>Constants, selectors and errors\<close>

type_synonym usb_error = int

definition NOT_SUPPORTED :: usb_error where
  "NOT_SUPPORTED = -12"

definition VENDOR_ID :: u16 where
  "VENDOR_ID = 0x054c"

definition PRODUCT_ID :: u16 where
  "PRODUCT_ID = 0x00c0"

definition VIDEO_INTERFACE :: u8 where
  "VIDEO_INTERFACE = 0"

definition VIDEO_ALT :: u8 where
  "VIDEO_ALT = 5"

definition EP_BOUNDARY :: u8 where
  "EP_BOUNDARY = 0x81"

definition EP_VIDEO :: u8 where
  "EP_VIDEO = 0x82"

definition STATUS_INDEX :: u16 where
  "STATUS_INDEX = 0x0340"

definition STATUS_SIZE :: nat where
  "STATUS_SIZE = 64"

text \<open>Durations are in microseconds.\<close>

definition STATUS_POLL_INTERVAL :: nat where
  "STATUS_POLL_INTERVAL = 10000"

definition STATUS_POLL_TIMEOUT :: nat where
  "STATUS_POLL_TIMEOUT = 500000"

definition STARTUP_SCAN_TOKENS :: "u8 list" where
  "STARTUP_SCAN_TOKENS = [0x71, 0x81, 0x91, 0xa1]"

datatype init_strategy = LiteralReplay | ConditionPolling | PlaybackConditionPolling

definition acknowledgement_token :: "init_strategy \<Rightarrow> u8 \<Rightarrow> u8 option" where
  "acknowledgement_token strategy command_token =
     (case strategy of
        LiteralReplay \<Rightarrow> None
      | ConditionPolling \<Rightarrow> Some command_token
      | PlaybackConditionPolling \<Rightarrow> Some (command_token OR 0x08))"

record camera_selector =
  sel_bus :: "u8 option"
  sel_ports :: "u8 list"

datatype usb_transport_error =
    InvalidUsbPath string
  | NoCamera
  | AmbiguousCamera string
  | Usb usb_error
  | KernelDriverActive
  | UnexpectedDescriptors
  | ShortControlRead u16 nat nat
  | ShortControlWrite u16 nat nat
  | TransferAllocation
  | TransferSubmission int
  | EventHandling usb_error
  | StatusPollTimeout u8 u8

text \<open>The \<open>From\<close> conversion that \<open>?\<close> applies to a \<open>rusb::Error\<close>.\<close>

definition usb_result :: "usb_error + 'a \<Rightarrow> usb_transport_error + 'a" where
  "usb_result r = (case r of Inl e \<Rightarrow> Inl (Usb e) | Inr a \<Rightarrow> Inr a)"

text \<open>\<open>{bus:03}\<close>: decimal, padded with zeros to three digits.\<close>

definition decimal03 :: "nat \<Rightarrow> string" where
  "decimal03 n = (let s = decimal n in replicate (3 - length s) (CHR ''0'') @ s)"

definition dotted :: "u8 list \<Rightarrow> string" where
  "dotted ports = join_with (CHR ''.'') (map (\<lambda>p. decimal (unat p)) ports)"

definition selector_display :: "camera_selector \<Rightarrow> string" where
  "selector_display s =
     (case sel_bus s of
        None \<Rightarrow> ''any 054c:00c0 camera''
      | Some bus \<Rightarrow> decimal03 (unat bus) @ ''-'' @ dotted (sel_ports s))"

definition parse_u8 :: "string \<Rightarrow> u8 option" where
  "parse_u8 s = map_option of_nat (from_str_radix 256 10 s)"

text \<open>\<open>collect::<Result<Vec<_>, _>>\<close>.\<close>

fun collect_results :: "('e + 'a) list \<Rightarrow> 'e + 'a list" where
  "collect_results [] = Inr []"
| "collect_results (r # rs) =
     rbind r (\<lambda>a. rbind (collect_results rs) (\<lambda>as. Inr (a # as)))"

definition selector_from_str :: "string \<Rightarrow> usb_transport_error + camera_selector" where
  "selector_from_str v =
     rbind (ok_or (InvalidUsbPath v) (split_once (CHR ''-'') v)) (\<lambda>(bus, ports).
     rbind (ok_or (InvalidUsbPath v) (parse_u8 bus)) (\<lambda>bus.
     rbind (collect_results (map (\<lambda>part. ok_or (InvalidUsbPath v) (parse_u8 part))
        (split_on (CHR ''.'') ports))) (\<lambda>ports.
     if bus = 0 \<or> ports = [] \<or> 0 \<in> set ports then Inl (InvalidUsbPath v)
     else Inr \<lparr>sel_bus = Some bus, sel_ports = ports\<rparr>)))"

subsection \<open>Device selection and descriptors\<close>

datatype transfer_type = Control | Isochronous | Bulk | Interrupt

record endpoint_descriptor =
  epd_in :: bool
  epd_type :: transfer_type
  epd_address :: u8
  epd_max_packet :: u16

record interface_descriptor =
  ifd_setting :: u8
  ifd_endpoints :: "endpoint_descriptor list"

record usb_interface =
  if_number :: u8
  if_descriptors :: "interface_descriptor list"

text \<open>What rusb reports of a connected device.\<close>

record usb_device =
  dev_ids :: "usb_error + u16 \<times> u16"
  dev_bus :: u8
  dev_address :: u8
  dev_ports :: "usb_error + u8 list"
  dev_config :: "usb_error + usb_interface list"

text \<open>The loop over the devices; \<open>None\<close> is \<open>continue\<close>.\<close>

definition match_device ::
  "camera_selector \<Rightarrow> usb_device \<Rightarrow> usb_transport_error + usb_device option" where
  "match_device selector device =
     (case dev_ids device of
        Inl _ \<Rightarrow> Inr None
      | Inr (vendor, product) \<Rightarrow>
          if vendor \<noteq> VENDOR_ID \<or> product \<noteq> PRODUCT_ID then Inr None
          else
            case sel_bus selector of
              None \<Rightarrow> Inr (Some device)
            | Some bus \<Rightarrow>
                if dev_bus device \<noteq> bus then Inr None
                else rbind (usb_result (dev_ports device)) (\<lambda>ports.
                  if ports \<noteq> sel_ports selector then Inr None else Inr (Some device)))"

fun matching_devices ::
  "camera_selector \<Rightarrow> usb_device list \<Rightarrow> usb_transport_error + usb_device list" where
  "matching_devices selector [] = Inr []"
| "matching_devices selector (d # ds) =
     rbind (match_device selector d) (\<lambda>m.
     rbind (matching_devices selector ds) (\<lambda>ms.
     Inr (case m of None \<Rightarrow> ms | Some d \<Rightarrow> d # ms)))"

definition device_path :: "usb_device \<Rightarrow> string" where
  "device_path device =
     decimal03 (unat (dev_bus device)) @ ''-''
     @ dotted (case dev_ports device of Inl _ \<Rightarrow> [] | Inr ports \<Rightarrow> ports)"

primrec comma_separated :: "string list \<Rightarrow> string" where
  "comma_separated [] = []"
| "comma_separated (s # ss) = (if ss = [] then s else s @ '', '' @ comma_separated ss)"

definition select_device ::
  "usb_error + usb_device list \<Rightarrow> camera_selector \<Rightarrow> usb_transport_error + usb_device" where
  "select_device devices selector =
     rbind (usb_result devices) (\<lambda>ds.
     rbind (matching_devices selector ds) (\<lambda>matches.
     case matches of
       [] \<Rightarrow> Inl NoCamera
     | [d] \<Rightarrow> Inr d
     | _ \<Rightarrow> Inl (AmbiguousCamera (comma_separated (map device_path matches)))))"

text \<open>The endpoint loop: the flags \<open>boundary\<close> and \<open>video\<close>.\<close>

fun scan_endpoints :: "bool \<Rightarrow> bool \<Rightarrow> endpoint_descriptor list \<Rightarrow> bool \<times> bool" where
  "scan_endpoints boundary video [] = (boundary, video)"
| "scan_endpoints boundary video (e # es) =
     (if \<not> epd_in e \<or> epd_type e \<noteq> Isochronous then scan_endpoints boundary video es
      else if epd_address e = EP_BOUNDARY \<and> epd_max_packet e \<ge> 8 then scan_endpoints True video es
      else if epd_address e = EP_VIDEO \<and> epd_max_packet e \<ge> 768 then scan_endpoints boundary True es
      else scan_endpoints boundary video es)"

fun scan_settings :: "interface_descriptor list \<Rightarrow> bool" where
  "scan_settings [] = False"
| "scan_settings (d # ds) =
     (if ifd_setting d \<noteq> VIDEO_ALT then scan_settings ds
      else if scan_endpoints False False (ifd_endpoints d) = (True, True) then True
      else scan_settings ds)"

fun scan_interfaces :: "usb_interface list \<Rightarrow> bool" where
  "scan_interfaces [] = False"
| "scan_interfaces (i # is) =
     (if if_number i \<noteq> VIDEO_INTERFACE then scan_interfaces is
      else if scan_settings (if_descriptors i) then True
      else scan_interfaces is)"

definition validate_descriptors :: "usb_device \<Rightarrow> usb_transport_error + unit" where
  "validate_descriptors device =
     rbind (usb_result (dev_config device)) (\<lambda>interfaces.
     if scan_interfaces interfaces then Inr () else Inl UnexpectedDescriptors)"

subsection \<open>Selectors and devices: lemmas and properties\<close>

lemma join_with_chars:
  "c \<in> set (join_with d fs) \<Longrightarrow> c = d \<or> (\<exists>f \<in> set fs. c \<in> set f)"
  by (induction fs) (auto split: if_splits)

lemma decimal_no_separators [simp]:
  "CHR ''-'' \<notin> set (decimal n)" "CHR ''.'' \<notin> set (decimal n)"
  by (auto simp: decimal_def dest: show_radix_no_separator [THEN notE, rotated 3])

lemma parse_u8_decimal [simp]: "parse_u8 (decimal (unat b)) = Some b"
  using u8_bound [of b] by (simp add: parse_u8_def)

lemma parse_u8_decimal03 [simp]: "parse_u8 (decimal03 (unat b)) = Some b"
proof -
  let ?s = "decimal (unat b)" and ?z = "replicate (3 - length (decimal (unat b))) (CHR ''0'')"
  have plus: "CHR ''+'' \<notin> set (?z @ ?s)" by auto
  moreover have "?z @ ?s \<noteq> []" by simp
  ultimately have "hd (?z @ ?s) \<noteq> CHR ''+''" "?z @ ?s \<noteq> ''+''"
    by (metis hd_in_set, metis list.set_intros(1))
  then have "from_str_radix 256 10 (?z @ ?s) = accumulate 256 10 0 (?z @ ?s)"
    by (simp add: from_str_radix_def)
  also have "\<dots> = Some (unat b)"
    using accumulate_zeros [of 10 256] accumulate_show_radix [of 10 "unat b" 256] u8_bound [of b]
    by (simp add: decimal_def)
  finally show ?thesis by (simp add: parse_u8_def decimal03_def Let_def)
qed

lemma collect_results_Inr: "collect_results (map (\<lambda>x. Inr (f x)) xs) = Inr (map f xs)"
  by (induction xs) auto

lemma collect_results_all: "collect_results (map Inr xs) = Inr xs"
  by (induction xs) auto

text \<open>
  Property C40. Physical camera paths round-trip: a path that the parser accepts names a bus
  and at least one port, none of them zero, and the display of the parsed selector parses to
  the same selector (so \<open>1-2\<close>, \<open>001-2\<close> and \<open>+1-+2\<close> are one camera).
\<close>
theorem selector_roundtrip:
  assumes "selector_from_str v = Inr s"
  shows "(\<exists>bus. sel_bus s = Some bus \<and> bus \<noteq> 0) \<and> sel_ports s \<noteq> [] \<and> 0 \<notin> set (sel_ports s)
    \<and> selector_from_str (selector_display s) = Inr s"
proof -
  from assms obtain bus ports where s: "s = \<lparr>sel_bus = Some bus, sel_ports = ports\<rparr>"
    and ok: "bus \<noteq> 0" "ports \<noteq> []" "0 \<notin> set ports"
    by (auto simp: selector_from_str_def split: if_splits)
  let ?v = "selector_display s"
  have v: "?v = decimal03 (unat bus) @ CHR ''-'' # dotted ports"
    by (simp add: s selector_display_def)
  have "CHR ''-'' \<notin> set (decimal03 (unat bus))"
    by (auto simp: decimal03_def Let_def)
  then have once: "split_once (CHR ''-'') ?v = Some (decimal03 (unat bus), dotted ports)"
    unfolding v by (rule split_once_append)
  have parts: "split_on (CHR ''.'') (dotted ports) = map (\<lambda>p. decimal (unat p)) ports"
    unfolding dotted_def by (rule split_on_join) (use ok in auto)
  show ?thesis
    using ok unfolding selector_from_str_def once
    by (simp add: s parts comp_def collect_results_all [of ports, simplified])
qed

theorem selector_roundtrip_witness:
  "selector_display \<lparr>sel_bus = Some 1, sel_ports = [2, 13]\<rparr> = ''001-2.13''
   \<and> selector_from_str (selector_display \<lparr>sel_bus = Some 1, sel_ports = [2, 13]\<rparr>)
       = Inr \<lparr>sel_bus = Some 1, sel_ports = [2, 13]\<rparr>"
proof -
  have "selector_from_str ''1-+2.13'' = Inr \<lparr>sel_bus = Some 1, sel_ports = [2, 13]\<rparr>" by code_simp
  from selector_roundtrip [OF this] show ?thesis by (intro conjI) (code_simp, blast)
qed

definition is_camera :: "camera_selector \<Rightarrow> usb_device \<Rightarrow> bool" where
  "is_camera selector d \<longleftrightarrow>
     dev_ids d = Inr (VENDOR_ID, PRODUCT_ID)
     \<and> (case sel_bus selector of
          None \<Rightarrow> True
        | Some bus \<Rightarrow> dev_bus d = bus \<and> dev_ports d = Inr (sel_ports selector))"

definition ports_unreadable :: "camera_selector \<Rightarrow> usb_device \<Rightarrow> bool" where
  "ports_unreadable selector d \<longleftrightarrow>
     dev_ids d = Inr (VENDOR_ID, PRODUCT_ID) \<and> sel_bus selector = Some (dev_bus d) \<and> isl (dev_ports d)"

lemma match_device_eq:
  "\<not> ports_unreadable selector d \<Longrightarrow>
   match_device selector d = Inr (if is_camera selector d then Some d else None)"
  by (auto simp: match_device_def is_camera_def ports_unreadable_def usb_result_def
      split: sum.splits option.splits)

lemma matching_devices_eq:
  "\<forall>d \<in> set ds. \<not> ports_unreadable selector d \<Longrightarrow>
   matching_devices selector ds = Inr (filter (is_camera selector) ds)"
  by (induction ds) (auto simp: match_device_eq)

text \<open>
  Camera selection: as long as the port path of every candidate on the selected
  bus can be read, the selection returns the only connected camera that the selector names;
  with none it reports that none is connected, and with several it lists their paths.
\<close>
theorem select_device_unique:
  assumes "\<forall>d \<in> set ds. \<not> ports_unreadable selector d"
  shows "select_device (Inr ds) selector =
    (case filter (is_camera selector) ds of
       [] \<Rightarrow> Inl NoCamera
     | [d] \<Rightarrow> Inr d
     | ms \<Rightarrow> Inl (AmbiguousCamera (comma_separated (map device_path ms))))"
  using matching_devices_eq [OF assms]
  by (auto simp: select_device_def usb_result_def split: list.splits)

definition sample_device :: "u8 \<Rightarrow> u8 \<Rightarrow> usb_device" where
  "sample_device bus port =
     \<lparr>dev_ids = Inr (0x054c, 0x00c0), dev_bus = bus, dev_address = 4, dev_ports = Inr [port],
      dev_config = Inr []\<rparr>"

theorem select_device_unique_witness:
  "select_device (Inr [sample_device 1 2, sample_device 2 3]) \<lparr>sel_bus = Some 2, sel_ports = [3]\<rparr>
     = Inr (sample_device 2 3)"
  using select_device_unique [of "[sample_device 1 2, sample_device 2 3]" "\<lparr>sel_bus = Some 2, sel_ports = [3]\<rparr>"]
  by (simp add: ports_unreadable_def is_camera_def sample_device_def VENDOR_ID_def PRODUCT_ID_def)

definition provides :: "interface_descriptor \<Rightarrow> u8 \<Rightarrow> u16 \<Rightarrow> bool" where
  "provides d address least \<longleftrightarrow>
     (\<exists>e \<in> set (ifd_endpoints d). epd_in e \<and> epd_type e = Isochronous \<and> epd_address e = address
        \<and> least \<le> epd_max_packet e)"

lemma scan_endpoints_eq:
  "scan_endpoints b v es =
     (b \<or> (\<exists>e \<in> set es. epd_in e \<and> epd_type e = Isochronous \<and> epd_address e = EP_BOUNDARY \<and> 8 \<le> epd_max_packet e),
      v \<or> (\<exists>e \<in> set es. epd_in e \<and> epd_type e = Isochronous \<and> epd_address e = EP_VIDEO \<and> 768 \<le> epd_max_packet e))"
  by (induction b v es rule: scan_endpoints.induct) (auto simp: EP_BOUNDARY_def EP_VIDEO_def)

lemma scan_settings_iff:
  "scan_settings ds \<longleftrightarrow>
     (\<exists>d \<in> set ds. ifd_setting d = VIDEO_ALT \<and> provides d EP_BOUNDARY 8 \<and> provides d EP_VIDEO 768)"
  by (induction ds) (auto simp: scan_endpoints_eq provides_def)

lemma scan_interfaces_iff:
  "scan_interfaces is \<longleftrightarrow> (\<exists>i \<in> set is. if_number i = VIDEO_INTERFACE \<and> scan_settings (if_descriptors i))"
  by (induction "is") auto

text \<open>
  A device passes the descriptor check exactly when interface 0 has an alternate
  setting 5 that provides both isochronous input endpoints, with packets large enough for
  the transfers.
\<close>
theorem validate_descriptors_iff:
  "validate_descriptors device = Inr () \<longleftrightarrow>
     (\<exists>interfaces i d. dev_config device = Inr interfaces \<and> i \<in> set interfaces \<and> if_number i = 0
        \<and> d \<in> set (if_descriptors i) \<and> ifd_setting d = 5 \<and> provides d 0x81 8 \<and> provides d 0x82 768)"
  by (cases "dev_config device")
    (auto simp: validate_descriptors_def usb_result_def scan_interfaces_iff scan_settings_iff
      VIDEO_INTERFACE_def VIDEO_ALT_def EP_BOUNDARY_def EP_VIDEO_def)

end
