(* ===== verification/Usb_Control.thy ===== *)
theory Usb_Control
  imports Usb_Transport
begin

section \<open>Initialization replay and command exchange\<close>

text \<open>
  The operations of \<open>crates/handycam-libusb/src/transport.rs\<close> on an open device handle.
  The handle and the clock are the record \<open>usb_ops\<close>: \<open>op_read\<close> is
  \<open>read_control\<close> and returns the bytes received, \<open>op_write\<close> is \<open>write_control\<close>
  and returns the count written, \<open>op_sleep\<close> and \<open>op_now\<close> are the thread's sleep and
  \<open>Instant::now\<close> in microseconds.
\<close>

subsection \<open>The handle\<close>

record 'd usb_ops =
  op_read :: "u8 \<Rightarrow> u8 \<Rightarrow> u16 \<Rightarrow> u16 \<Rightarrow> nat \<Rightarrow> 'd \<Rightarrow> (usb_error + bytes) \<times> 'd"
  op_write :: "u8 \<Rightarrow> u8 \<Rightarrow> u16 \<Rightarrow> u16 \<Rightarrow> bytes \<Rightarrow> 'd \<Rightarrow> (usb_error + nat) \<times> 'd"
  op_alternate :: "u8 \<Rightarrow> u8 \<Rightarrow> 'd \<Rightarrow> (usb_error + unit) \<times> 'd"
  op_kernel_driver :: "u8 \<Rightarrow> 'd \<Rightarrow> (usb_error + bool) \<times> 'd"
  op_claim :: "u8 \<Rightarrow> 'd \<Rightarrow> (usb_error + unit) \<times> 'd"
  op_release :: "u8 \<Rightarrow> 'd \<Rightarrow> (usb_error + unit) \<times> 'd"
  op_sleep :: "nat \<Rightarrow> 'd \<Rightarrow> 'd"
  op_now :: "'d \<Rightarrow> nat"

text \<open>Sequencing of fallible operations on the handle.\<close>

definition hbind ::
  "('e + 'a) \<times> 'd \<Rightarrow> ('a \<Rightarrow> 'd \<Rightarrow> ('e + 'b) \<times> 'd) \<Rightarrow> ('e + 'b) \<times> 'd" where
  "hbind r k = (case r of (Inl e, d) \<Rightarrow> (Inl e, d) | (Inr a, d) \<Rightarrow> k a d)"

definition usb_step :: "(usb_error + 'a) \<times> 'd \<Rightarrow> (usb_transport_error + 'a) \<times> 'd" where
  "usb_step r = (case r of (x, d) \<Rightarrow> (usb_result x, d))"

definition read_status_block :: "'d usb_ops \<Rightarrow> 'd \<Rightarrow> (usb_transport_error + bytes) \<times> 'd" where
  "read_status_block ops d =
     hbind (usb_step (op_read ops 0xc0 0x88 0 STATUS_INDEX STATUS_SIZE d)) (\<lambda>status d.
     (if length status \<noteq> STATUS_SIZE
      then Inl (ShortControlRead STATUS_INDEX STATUS_SIZE (length status))
      else Inr status, d))"

subsection \<open>Acknowledgement polling\<close>

text \<open>
  The loop of \<open>poll_status_acknowledgement\<close>: it has no bound of its own but the deadline,
  so not returning is \<open>None\<close>.
\<close>

partial_function (option) poll_loop ::
  "'d usb_ops \<Rightarrow> u8 \<Rightarrow> nat \<Rightarrow> nat \<Rightarrow> 'd \<Rightarrow> ((usb_transport_error + nat) \<times> 'd) option" where
  "poll_loop ops token deadline attempts d =
     (let d = op_sleep ops STATUS_POLL_INTERVAL d
      in case read_status_block ops d of
           (Inl e, d) \<Rightarrow> Some (Inl e, d)
         | (Inr status, d) \<Rightarrow>
             let attempts = attempts + 1; last_status = status ! 0
             in if last_status = token then Some (Inr attempts, d)
                else if op_now ops d \<ge> deadline then
                  Some (Inl (StatusPollTimeout token last_status), d)
                else poll_loop ops token deadline attempts d)"

declare poll_loop.simps [code]

definition poll_status_acknowledgement ::
  "'d usb_ops \<Rightarrow> u8 \<Rightarrow> 'd \<Rightarrow> ((usb_transport_error + nat) \<times> 'd) option" where
  "poll_status_acknowledgement ops token d =
     poll_loop ops token (op_now ops d + STATUS_POLL_TIMEOUT) 0 d"

subsection \<open>Replay\<close>

definition startup_scan_token :: "init_op \<Rightarrow> u8 option" where
  "startup_scan_token operation =
     (case operation of
        ControlOut _ _ _ _ index data \<Rightarrow>
          if index \<noteq> COMMAND_BLOCK_INDEX then None
          else
            (case scan_ack_token data of
               None \<Rightarrow> None
             | Some token \<Rightarrow> if token \<in> set STARTUP_SCAN_TOKENS then Some token else None)
      | _ \<Rightarrow> None)"

definition is_status_poll :: "init_op \<Rightarrow> bool" where
  "is_status_poll operation =
     (case operation of
        ControlIn _ request_type request v index len \<Rightarrow>
          request_type = 0xc0 \<and> request = 0x88 \<and> v = 0 \<and> index = STATUS_INDEX \<and> len = 64
      | _ \<Rightarrow> False)"

function end_of_status_poll_run :: "init_op list \<Rightarrow> nat \<Rightarrow> nat" where
  "end_of_status_poll_run plan pos =
     (if pos < length plan \<and> is_status_poll (plan ! pos)
      then end_of_status_poll_run plan (pos + 1) else pos)"
  by auto
termination
  by (relation "measure (\<lambda>(plan, pos). length plan - pos)") auto

declare end_of_status_poll_run.simps [simp del]

text \<open>One operation without the acknowledgement branch.\<close>

definition perform_op :: "'d usb_ops \<Rightarrow> init_op \<Rightarrow> 'd \<Rightarrow> (usb_transport_error + unit) \<times> 'd" where
  "perform_op ops operation d =
     (let d = op_sleep ops (unat (op_delay_us operation)) d
      in case operation of
           ControlIn _ request_type request v index len \<Rightarrow>
             hbind (usb_step (op_read ops request_type request v index (unat len) d)) (\<lambda>data d.
             (if length data \<noteq> unat len
              then Inl (ShortControlRead index (unat len) (length data)) else Inr (), d))
         | ControlOut _ request_type request v index data \<Rightarrow>
             hbind (usb_step (op_write ops request_type request v index data d)) (\<lambda>actual d.
             (if actual \<noteq> length data
              then Inl (ShortControlWrite index (length data) actual) else Inr (), d))
         | SetInterface _ interface alternate \<Rightarrow>
             usb_step (op_alternate ops interface alternate d))"

text \<open>The token to poll for after an operation has been performed, and where to go on.\<close>

definition polled_token :: "init_strategy \<Rightarrow> init_op \<Rightarrow> u8 option" where
  "polled_token strategy operation =
     (case startup_scan_token operation of
        None \<Rightarrow> None
      | Some command_token \<Rightarrow> acknowledgement_token strategy command_token)"

lemma end_of_status_poll_run_ge: "pos \<le> end_of_status_poll_run plan pos"
proof (induction plan pos rule: end_of_status_poll_run.induct)
  case (1 plan pos)
  then show ?case by (subst end_of_status_poll_run.simps) auto
qed

function replay_from ::
  "'d usb_ops \<Rightarrow> init_op list \<Rightarrow> init_strategy \<Rightarrow> nat \<Rightarrow> 'd
   \<Rightarrow> ((usb_transport_error + unit) \<times> 'd) option" where
  "replay_from ops plan strategy pos d =
     (if pos < length plan then
        let operation = plan ! pos
        in case perform_op ops operation d of
             (Inl e, d) \<Rightarrow> Some (Inl e, d)
           | (Inr _, d) \<Rightarrow>
               (case polled_token strategy operation of
                  Some token \<Rightarrow>
                    let following = end_of_status_poll_run plan (pos + 1)
                    in if following > pos + 1 then
                         (case poll_status_acknowledgement ops token d of
                            None \<Rightarrow> None
                          | Some (Inl e, d) \<Rightarrow> Some (Inl e, d)
                          | Some (Inr _, d) \<Rightarrow> replay_from ops plan strategy following d)
                       else replay_from ops plan strategy (pos + 1) d
                | None \<Rightarrow> replay_from ops plan strategy (pos + 1) d)
      else Some (Inr (), d))"
  by auto
termination
  by (relation "measure (\<lambda>(ops, plan, strategy, pos, d). length plan - pos)") auto

declare replay_from.simps [simp del]

definition replay_initialization ::
  "'d usb_ops \<Rightarrow> init_op list \<Rightarrow> init_strategy \<Rightarrow> 'd
   \<Rightarrow> ((usb_transport_error + unit) \<times> 'd) option" where
  "replay_initialization ops plan strategy d = replay_from ops plan strategy 0 d"

subsection \<open>Transport commands\<close>

record transport_observation =
  ob_bus :: u8
  ob_address :: u8
  ob_port_path :: "u8 list"
  command_word :: u32
  ob_sequence :: u8
  status_before :: bytes
  status_after :: bytes

definition read_camera_status ::
  "usb_error + usb_device list \<Rightarrow> (usb_device \<Rightarrow> usb_error + unit) \<Rightarrow> 'd usb_ops
   \<Rightarrow> camera_selector \<Rightarrow> 'd \<Rightarrow> (usb_transport_error + bytes) \<times> 'd" where
  "read_camera_status devices open_device ops selector d =
     hbind (select_device devices selector, d) (\<lambda>device d.
     hbind (usb_result (open_device device), d) (\<lambda>_ d.
     read_status_block ops d))"

definition send_transport_command ::
  "usb_error + usb_device list \<Rightarrow> (usb_device \<Rightarrow> usb_error + unit) \<Rightarrow> 'd usb_ops
   \<Rightarrow> camera_selector \<Rightarrow> transport_command \<Rightarrow> u8 option \<Rightarrow> nat \<Rightarrow> 'd
   \<Rightarrow> (usb_transport_error + transport_observation) \<times> 'd" where
  "send_transport_command devices open_device ops selector command current_sequence settle d =
     hbind (select_device devices selector, d) (\<lambda>device d.
     hbind (usb_result (dev_ports device), d) (\<lambda>port_path d.
     hbind (usb_result (open_device device), d) (\<lambda>_ d.
     hbind (read_status_block ops d) (\<lambda>before d.
     let current = (case current_sequence of None \<Rightarrow> drop_bit 4 (before ! 0) | Some n \<Rightarrow> n);
         encoder = with_sequence current
     in case encode encoder command of (word, encoder) \<Rightarrow>
     let block = command_block word
     in hbind (usb_step (op_write ops 0x40 0x88 0 COMMAND_BLOCK_INDEX block d)) (\<lambda>actual d.
     if actual \<noteq> length block
     then (Inl (ShortControlWrite COMMAND_BLOCK_INDEX (length block) actual), d)
     else
       hbind (read_status_block ops (op_sleep ops settle d)) (\<lambda>after d.
       (Inr \<lparr>ob_bus = dev_bus device, ob_address = dev_address device, ob_port_path = port_path,
             command_word = word, ob_sequence = enc_sequence encoder,
             status_before = before, status_after = after\<rparr>, d)))))))"

subsection \<open>Opening\<close>

text \<open>
  The part of \<open>open_with_init_strategy\<close> before the session exists: on success the
  interface is claimed and initialized; when the initialization fails, alternate setting 0 is
  selected and the interface is released again.
\<close>

definition open_device_session ::
  "usb_error + usb_device list \<Rightarrow> (usb_device \<Rightarrow> usb_error + unit) \<Rightarrow> 'd usb_ops
   \<Rightarrow> camera_selector \<Rightarrow> init_op list \<Rightarrow> init_strategy \<Rightarrow> 'd
   \<Rightarrow> ((usb_transport_error + usb_device \<times> u8 list) \<times> 'd) option" where
  "open_device_session devices open_device ops selector plan strategy d =
     (case rbind (select_device devices selector) (\<lambda>device.
           rbind (validate_descriptors device) (\<lambda>_.
           rbind (usb_result (dev_ports device)) (\<lambda>port_path.
           rbind (usb_result (open_device device)) (\<lambda>_.
           Inr (device, port_path))))) of
        Inl e \<Rightarrow> Some (Inl e, d)
      | Inr (device, port_path) \<Rightarrow>
          (case op_kernel_driver ops VIDEO_INTERFACE d of
             (active, d) \<Rightarrow>
               if active = Inr True then Some (Inl KernelDriverActive, d)
               else if active \<noteq> Inr False \<and> active \<noteq> Inl NOT_SUPPORTED then
                 Some (Inl (Usb (projl active)), d)
               else
                 (case op_claim ops VIDEO_INTERFACE d of
                    (Inl e, d) \<Rightarrow> Some (Inl (Usb e), d)
                  | (Inr _, d) \<Rightarrow>
                      (case replay_initialization ops plan strategy d of
                         None \<Rightarrow> None
                       | Some (Inl e, d) \<Rightarrow>
                           (case op_alternate ops VIDEO_INTERFACE 0 d of (_, d) \<Rightarrow>
                            case op_release ops VIDEO_INTERFACE d of (_, d) \<Rightarrow>
                            Some (Inl e, d))
                       | Some (Inr _, d) \<Rightarrow> Some (Inr (device, port_path), d)))))"

lemma hbind_eq:
  "hbind r k = z \<longleftrightarrow>
     (\<exists>e d. r = (Inl e, d) \<and> z = (Inl e, d)) \<or> (\<exists>a d. r = (Inr a, d) \<and> k a d = z)"
  by (auto simp: hbind_def split: prod.splits sum.splits)

lemma sequence_step: "take_bit 4 (take_bit 4 c + 1) = take_bit 4 (c + 1)" for c :: u8
  by (simp add: word_unat_eq_iff unsigned_take_bit_eq take_bit_eq_mod unat_word_ariths mod_mod_cancel mod_simps)

subsection \<open>Reference: replay on the plan as a list\<close>

primrec perform_all :: "'d usb_ops \<Rightarrow> init_op list \<Rightarrow> 'd \<Rightarrow> (usb_transport_error + unit) \<times> 'd" where
  "perform_all ops [] d = (Inr (), d)"
| "perform_all ops (operation # plan) d =
     hbind (perform_op ops operation d) (\<lambda>_ d. perform_all ops plan d)"

text \<open>
  The replay without positions: after a scan command that is to be polled for, the status
  reads that follow it are dropped from the plan and the device is polled instead.
\<close>

function replay_list ::
  "'d usb_ops \<Rightarrow> init_strategy \<Rightarrow> init_op list \<Rightarrow> 'd \<Rightarrow> ((usb_transport_error + unit) \<times> 'd) option"
  where
  "replay_list ops strategy [] d = Some (Inr (), d)"
| "replay_list ops strategy (operation # plan) d =
     (case perform_op ops operation d of
        (Inl e, d) \<Rightarrow> Some (Inl e, d)
      | (Inr _, d) \<Rightarrow>
          (case polled_token strategy operation of
             Some token \<Rightarrow>
               if plan \<noteq> [] \<and> is_status_poll (hd plan) then
                 (case poll_status_acknowledgement ops token d of
                    None \<Rightarrow> None
                  | Some (Inl e, d) \<Rightarrow> Some (Inl e, d)
                  | Some (Inr _, d) \<Rightarrow> replay_list ops strategy (dropWhile is_status_poll plan) d)
               else replay_list ops strategy plan d
           | None \<Rightarrow> replay_list ops strategy plan d))"
  by pat_completeness auto
termination
  by (relation "measure (\<lambda>(ops, strategy, plan, d). length plan)")
    (auto simp: less_Suc_eq_le length_dropWhile_le)

lemma drop_end_of_run: "drop (end_of_status_poll_run plan pos) plan = dropWhile is_status_poll (drop pos plan)"
proof (induction plan pos rule: end_of_status_poll_run.induct)
  case (1 plan pos)
  show ?case
  proof (cases "pos < length plan")
    case True
    with 1 show ?thesis
      by (subst end_of_status_poll_run.simps) (auto simp: Cons_nth_drop_Suc [symmetric])
  next
    case False
    then show ?thesis by (subst end_of_status_poll_run.simps) auto
  qed
qed

lemma end_of_run_greater:
  "end_of_status_poll_run plan pos > pos \<longleftrightarrow> drop pos plan \<noteq> [] \<and> is_status_poll (hd (drop pos plan))"
  using end_of_status_poll_run_ge [of "pos + 1" plan]
  by (subst end_of_status_poll_run.simps) (auto simp: hd_drop_conv_nth)

lemma replay_from_list:
  "replay_from ops plan strategy pos d = replay_list ops strategy (drop pos plan) d"
proof (induction ops plan strategy pos d rule: replay_from.induct)
  case (1 ops plan strategy pos d)
  show ?case
  proof (cases "pos < length plan")
    case True
    then have plan: "drop pos plan = plan ! pos # drop (Suc pos) plan"
      by (simp add: Cons_nth_drop_Suc)
    show ?thesis
      using 1 True
      by (subst replay_from.simps)
        (simp add: plan end_of_run_greater drop_end_of_run Let_def
          split: prod.split sum.split option.split)
  next
    case False
    then show ?thesis by (subst replay_from.simps) simp
  qed
qed

text \<open>
  The index loop implements the reference: replaying a plan performs its
  operations in order up to the first error, and where the strategy polls for a scan
  command it skips exactly the run of status reads that follows it. With literal replay it is
  the plain sequence of the plan's operations.
\<close>
theorem replay_refines_list:
  "replay_initialization ops plan strategy d = replay_list ops strategy plan d
   \<and> replay_initialization ops plan LiteralReplay d = Some (perform_all ops plan d)"
proof -
  have "replay_list ops LiteralReplay plan d = Some (perform_all ops plan d)" for d
    by (induction plan arbitrary: d)
      (auto simp: polled_token_def acknowledgement_token_def hbind_def split: prod.split sum.split option.split)
  then show ?thesis by (simp add: replay_initialization_def replay_from_list)
qed

subsection \<open>Termination of the polling loop\<close>

text \<open>
  What the loop needs of the clock: it is monotonic, and a sleep takes at least the time asked
  for.
\<close>

definition clock_laws :: "'d usb_ops \<Rightarrow> bool" where
  "clock_laws ops \<longleftrightarrow>
     (\<forall>n d. op_now ops d + n \<le> op_now ops (op_sleep ops n d))
     \<and> (\<forall>t r v i n d. op_now ops d \<le> op_now ops (snd (op_read ops t r v i n d)))"

lemma read_status_block_now:
  "clock_laws ops \<Longrightarrow> op_now ops d \<le> op_now ops (snd (read_status_block ops d))"
  unfolding clock_laws_def read_status_block_def hbind_def usb_step_def
  by (auto split: prod.split sum.split) (metis snd_conv)+

lemma poll_loop_returns:
  assumes laws: "clock_laws ops"
  shows "deadline \<le> op_now ops d + Suc n * STATUS_POLL_INTERVAL \<Longrightarrow>
    \<exists>r d'. poll_loop ops token deadline attempts d = Some (r, d')
      \<and> (case r of
           Inr k \<Rightarrow> attempts < k \<and> k \<le> attempts + Suc n
             \<and> (\<exists>d0 status. read_status_block ops d0 = (Inr status, d') \<and> status ! 0 = token)
         | Inl e \<Rightarrow> (\<exists>d0. read_status_block ops d0 = (Inl e, d'))
             \<or> (\<exists>d0 status. read_status_block ops d0 = (Inr status, d') \<and> status ! 0 \<noteq> token
                  \<and> e = StatusPollTimeout token (status ! 0) \<and> deadline \<le> op_now ops d'))"
proof (induction n arbitrary: d attempts)
  case 0
  obtain r d' where read: "read_status_block ops (op_sleep ops STATUS_POLL_INTERVAL d) = (r, d')"
    by fastforce
  have "op_now ops d + STATUS_POLL_INTERVAL \<le> op_now ops (op_sleep ops STATUS_POLL_INTERVAL d)"
    using laws by (simp add: clock_laws_def)
  with 0 have late: "deadline \<le> op_now ops d'"
    using read_status_block_now [OF laws, of "op_sleep ops STATUS_POLL_INTERVAL d"] read by simp
  show ?case
    using read late by (subst poll_loop.simps) (cases r; auto simp: Let_def)
next
  case (Suc n)
  obtain r d' where read: "read_status_block ops (op_sleep ops STATUS_POLL_INTERVAL d) = (r, d')"
    by fastforce
  have "op_now ops d + STATUS_POLL_INTERVAL \<le> op_now ops (op_sleep ops STATUS_POLL_INTERVAL d)"
    using laws by (simp add: clock_laws_def)
  with Suc.prems have step: "deadline \<le> op_now ops d' + Suc n * STATUS_POLL_INTERVAL"
    using read_status_block_now [OF laws, of "op_sleep ops STATUS_POLL_INTERVAL d"] read by simp
  show ?case
  proof (cases "\<exists>status. r = Inr status \<and> status ! 0 \<noteq> token \<and> op_now ops d' < deadline")
    case True
    then have "poll_loop ops token deadline attempts d = poll_loop ops token deadline (Suc attempts) d'"
      using read by (subst poll_loop.simps) (auto simp: Let_def)
    with Suc.IH [OF step, of "Suc attempts"] show ?thesis
      by (fastforce split: sum.splits)
  next
    case False
    then show ?thesis
      using read by (subst poll_loop.simps) (cases r; auto simp: Let_def not_less)
  qed
qed

lemma poll_returns:
  assumes "clock_laws ops"
  obtains r d' where "poll_status_acknowledgement ops token d = Some (r, d')"
  using poll_loop_returns [OF assms, of "op_now ops d + STATUS_POLL_TIMEOUT" d 49 token 0]
  by (auto simp: poll_status_acknowledgement_def STATUS_POLL_TIMEOUT_def STATUS_POLL_INTERVAL_def)

text \<open>
  Property C38. Acknowledgement polling always ends: with a monotonic clock whose sleeps take
  at least the time asked for, it returns after at most 50 status reads; it succeeds only
  when the last status it read starts with the token, and fails only with the error of a
  read, or after half a second with the token and the different byte it last saw.
\<close>
theorem poll_acknowledgement_ends:
  assumes "clock_laws ops"
  shows "\<exists>r d'. poll_status_acknowledgement ops token d = Some (r, d')
    \<and> (case r of
         Inr k \<Rightarrow> 0 < k \<and> k \<le> 50
           \<and> (\<exists>d0 status. read_status_block ops d0 = (Inr status, d') \<and> status ! 0 = token)
       | Inl e \<Rightarrow> (\<exists>d0. read_status_block ops d0 = (Inl e, d'))
           \<or> (\<exists>d0 status. read_status_block ops d0 = (Inr status, d') \<and> status ! 0 \<noteq> token
                \<and> e = StatusPollTimeout token (status ! 0) \<and> op_now ops d + 500000 \<le> op_now ops d'))"
  using poll_loop_returns [OF assms, of "op_now ops d + 500000" d 49 token 0]
  by (simp add: poll_status_acknowledgement_def STATUS_POLL_TIMEOUT_def STATUS_POLL_INTERVAL_def
      cong: sum.case_cong)

lemma replay_list_returns:
  "clock_laws ops \<Longrightarrow> replay_list ops strategy plan d \<noteq> None"
proof (induction ops strategy plan d rule: replay_list.induct)
  case (2 ops strategy operation plan d)
  have never: "poll_status_acknowledgement ops token d' = None \<longleftrightarrow> False" for token d'
    using poll_returns [OF 2(4)] by (metis option.distinct(1))
  show ?case
    using 2 by (auto simp: never split: prod.split sum.split option.split)
qed simp

subsection \<open>What reaches the device\<close>

text \<open>
  An instrumented handle: the same device, with every call that may change it or the claim on
  its interface recorded, whatever the device does.
\<close>

datatype usb_call =
    WriteCall u8 u8 u16 u16 bytes
  | AlternateCall u8 u8
  | ClaimCall bool
  | ReleaseCall

definition logged :: "'d usb_ops \<Rightarrow> ('d \<times> usb_call list) usb_ops" where
  "logged ops =
     \<lparr>op_read = (\<lambda>t r v i n (d, log). case op_read ops t r v i n d of (x, d) \<Rightarrow> (x, (d, log))),
      op_write = (\<lambda>t r v i data (d, log).
        case op_write ops t r v i data d of (x, d) \<Rightarrow> (x, (d, log @ [WriteCall t r v i data]))),
      op_alternate = (\<lambda>i a (d, log).
        case op_alternate ops i a d of (x, d) \<Rightarrow> (x, (d, log @ [AlternateCall i a]))),
      op_kernel_driver = (\<lambda>i (d, log). case op_kernel_driver ops i d of (x, d) \<Rightarrow> (x, (d, log))),
      op_claim = (\<lambda>i (d, log).
        case op_claim ops i d of (x, d) \<Rightarrow> (x, (d, log @ [ClaimCall (\<not> isl x)]))),
      op_release = (\<lambda>i (d, log).
        case op_release ops i d of (x, d) \<Rightarrow> (x, (d, log @ [ReleaseCall]))),
      op_sleep = (\<lambda>n (d, log). (op_sleep ops n d, log)),
      op_now = (\<lambda>(d, log). op_now ops d)\<rparr>"

fun op_calls :: "init_op \<Rightarrow> usb_call list" where
  "op_calls (ControlIn d t r v i n) = []"
| "op_calls (ControlOut d t r v i data) = [WriteCall t r v i data]"
| "op_calls (SetInterface d i a) = [AlternateCall i a]"

definition plan_calls :: "init_op list \<Rightarrow> usb_call list" where
  "plan_calls plan = concat (map op_calls plan)"

lemma plan_calls_simps [simp]:
  "plan_calls [] = []" "plan_calls (operation # plan) = op_calls operation @ plan_calls plan"
  by (simp_all add: plan_calls_def)

lemma logged_read_status:
  "snd (snd (read_status_block (logged ops) (d, log))) = log"
  by (auto simp: read_status_block_def hbind_def usb_step_def usb_result_def logged_def
      split: prod.split sum.split)

lemma logged_poll_loop_run:
  "poll_loop ops' token deadline attempts dl = Some res \<Longrightarrow> ops' = logged ops \<longrightarrow> snd (snd res) = snd dl"
proof (induction rule: poll_loop.raw_induct [rotated, consumes 1, case_names loop])
  case (loop poll ops' token deadline attempts dl res)
  obtain x d1 log1 where read:
    "read_status_block (logged ops) (op_sleep (logged ops) STATUS_POLL_INTERVAL dl) = (x, d1, log1)"
    by (metis prod.exhaust)
  have log1: "log1 = snd dl"
    using logged_read_status [of ops "op_sleep ops STATUS_POLL_INTERVAL (fst dl)" "snd dl"] read
    by (cases dl) (simp add: logged_def)
  have "(\<exists>y. res = (y, d1, log1)) \<or> poll (logged ops) token deadline (Suc attempts) (d1, log1) = Some res"
    if "ops' = logged ops"
    using loop(2) read that by (cases x) (auto simp: Let_def split: if_splits)
  then show ?case using log1 loop(1) by fastforce
qed

lemma logged_poll_loop:
  "poll_loop (logged ops) token deadline attempts (d, log) = Some (r, d', log') \<Longrightarrow> log' = log"
  using logged_poll_loop_run [of "logged ops" token deadline attempts "(d, log)" "(r, d', log')" ops] by simp

lemma logged_poll:
  "poll_status_acknowledgement (logged ops) token (d, log) = Some (r, d', log') \<Longrightarrow> log' = log"
  unfolding poll_status_acknowledgement_def by (rule logged_poll_loop)

lemma logged_perform:
  assumes "perform_op (logged ops) operation (d, log) = (r, d', log')"
  shows "log' = log @ op_calls operation"
  using assms
  by (cases operation)
    (auto simp: perform_op_def hbind_def usb_step_def usb_result_def logged_def Let_def
      split: prod.splits sum.splits if_splits)

lemma status_poll_calls: "is_status_poll operation \<Longrightarrow> op_calls operation = []"
  by (cases operation) (auto simp: is_status_poll_def)

lemma plan_calls_dropWhile: "plan_calls (dropWhile is_status_poll plan) = plan_calls plan"
  by (induction plan) (auto simp: status_poll_calls)

lemma logged_replay:
  "replay_list (logged ops) strategy plan (d, log) = Some (r, d', log') \<Longrightarrow>
   \<exists>sent rest. log' = log @ sent \<and> plan_calls plan = sent @ rest \<and> (r = Inr () \<longrightarrow> rest = [])"
proof (induction plan arbitrary: d log rule: length_induct)
  case (1 plan)
  note IH = 1(1) [rule_format] and run = 1(2)
  show ?case
  proof (cases plan)
    case Nil
    with run show ?thesis by simp
  next
    case (Cons operation rest)
    obtain x d1 log1 where step: "perform_op (logged ops) operation (d, log) = (x, d1, log1)"
      by (metis prod.exhaust)
    have log1: "log1 = log @ op_calls operation" by (rule logged_perform [OF step])
    consider (failed) e where "x = Inl e" "r = Inl e" "log' = log1"
      | (continued) rest' d2 where "replay_list (logged ops) strategy rest' (d2, log1) = Some (r, d', log')"
          "length rest' < length plan" "plan_calls rest' = plan_calls rest"
      | (polled) e where "r = Inl e" "log' = log1"
    proof (cases x)
      case (Inl e)
      with that(1) run step Cons show ?thesis by simp
    next
      case (Inr u)
      show ?thesis
      proof (cases "\<exists>token. polled_token strategy operation = Some token \<and> rest \<noteq> [] \<and> is_status_poll (hd rest)")
        case True
        with run step Inr Cons obtain token y d2 log2 where
          token: "polled_token strategy operation = Some token" "rest \<noteq> []" "is_status_poll (hd rest)" and
          y: "poll_status_acknowledgement (logged ops) token (d1, log1) = Some (y, d2, log2)"
          by (auto split: option.splits)
        have "log2 = log1" by (rule logged_poll [OF y])
        with run step Inr Cons token y that(2) [of "dropWhile is_status_poll rest" d2] that(3) show ?thesis
          by (cases y) (auto simp: plan_calls_dropWhile less_Suc_eq_le length_dropWhile_le)
      next
        case False
        with run step Inr Cons that(2) [of rest d1] show ?thesis
          by (auto split: option.splits if_splits)
      qed
    qed
    then show ?thesis
    proof cases
      case continued
      from IH [OF continued(2,1)] obtain sent rest'' where
        "log' = log1 @ sent \<and> plan_calls rest = sent @ rest'' \<and> (r = Inr () \<longrightarrow> rest'' = [])"
        by (auto simp: continued(3))
      then have "log' = log @ (op_calls operation @ sent) \<and> plan_calls plan = (op_calls operation @ sent) @ rest''
          \<and> (r = Inr () \<longrightarrow> rest'' = [])"
        by (simp add: Cons log1)
      then show ?thesis by blast
    qed (simp_all add: Cons log1)
  qed
qed

text \<open>
  Property C16. No initialization strategy changes what is written: on any device, a replay
  that succeeds has sent exactly the plan's control writes and alternate-setting changes, in
  the plan's order, and one that fails has sent a prefix of them; polling replaces status
  reads only.
\<close>
theorem replay_sends_plan_writes:
  assumes "replay_initialization (logged ops) plan strategy (d, []) = Some (r, d', log)"
  shows "\<exists>rest. plan_calls plan = log @ rest \<and> (r = Inr () \<longrightarrow> rest = [])"
  using logged_replay [of ops strategy plan d "[]"] assms
  by (simp add: replay_initialization_def replay_from_list)

lemma transport_command_log:
  assumes "send_transport_command devices open_device (logged ops) selector command current settle (d, [])
    = (r, d', log)"
  shows "length log \<le> 1
    \<and> (\<forall>ob. r = Inr ob \<longrightarrow>
        (let n = (case current of None \<Rightarrow> drop_bit 4 (status_before ob ! 0) | Some c \<Rightarrow> c) + 1 AND 0x0f
         in log = [WriteCall 0x40 0x88 0 0x0300 (replicate 60 0 @
              [0, push_bit 4 n OR 1, command_byte command, push_bit 4 n])]
            \<and> ob_sequence ob = n \<and> length (status_before ob) = 64 \<and> length (status_after ob) = 64))"
proof -
  have read: "l' = l \<and> (\<forall>s. x = Inr s \<longrightarrow> length s = 64)"
    if "read_status_block (logged ops) (e, l) = (x, e', l')" for e l x e' l'
    using that logged_read_status [of ops e l]
    by (auto simp: read_status_block_def hbind_def STATUS_SIZE_def split: prod.splits sum.splits if_splits)
  have writing: "op_write (logged ops) t q v i data (e, l)
      = (case op_write ops t q v i data e of (x, e) \<Rightarrow> (x, e, l @ [WriteCall t q v i data]))" for t q v i data e l
    by (simp add: logged_def)
  have sleep: "op_sleep (logged ops) n (e, l) = (op_sleep ops n e, l)" for n e l
    by (simp add: logged_def)
  have enc: "encode (with_sequence c) command = (let n = (c + 1) AND 0x0f in (wire_word n (command_byte command), \<lparr>enc_sequence = n\<rparr>))"
    for c
    using sequence_step [of c] by (simp add: encode_eq with_sequence_def and_low_nibble Let_def)
  have mailbox: "command_block (wire_word (n AND 0x0f) cc) = replicate 60 0 @
      [0, push_bit 4 (n AND 0x0f) OR 1, cc, push_bit 4 (n AND 0x0f)]" for n cc
    by (simp add: command_block_def COMMAND_WORD_OFFSET_def and_low_nibble be_bytes_wire_word)
  note run = assms [unfolded send_transport_command_def]
  show ?thesis
  proof -
    consider (early) e where "r = Inl e" "log = []"
      | (opened) device ports where "select_device devices selector = Inr device"
          "dev_ports device = Inr ports" "open_device device = Inr ()"
    proof (cases "select_device devices selector")
      case (Inl e)
      with run that(1) [of e] that(1) [of "projl r"] show ?thesis by (auto simp: hbind_def)
    next
      case (Inr device)
      with run that show ?thesis
        by (cases "dev_ports device"; cases "open_device device") (auto simp: hbind_def usb_result_def)
    qed
    then show ?thesis
    proof cases
      case early
      then show ?thesis by simp
    next
      case dev: opened
    obtain x d1 l1 where first: "read_status_block (logged ops) (d, []) = (x, d1, l1)" by (metis prod.exhaust)
    with read have l1: "l1 = []" by blast
    show ?thesis
    proof (cases x)
      case (Inl e)
      with run dev first l1 show ?thesis by (auto simp: hbind_def usb_result_def)
    next
      case (Inr before)
      let ?c = "case current of None \<Rightarrow> drop_bit 4 (before ! 0) | Some c \<Rightarrow> c"
      define n where "n = ?c + 1 AND 0x0f"
      let ?block = "replicate 60 0 @ [0, push_bit 4 n OR 1, command_byte command, push_bit 4 n]"
      have enc': "encode (with_sequence ?c) command = (wire_word n (command_byte command), \<lparr>enc_sequence = n\<rparr>)"
        by (simp add: enc n_def Let_def)
      have block: "command_block (wire_word n (command_byte command)) = ?block"
        unfolding n_def by (rule mailbox)
      obtain y d2 where second: "op_write ops 0x40 0x88 0 0x0300 ?block d1 = (y, d2)" by fastforce
      obtain z d3 l3 where third: "read_status_block (logged ops)
          (op_sleep ops settle d2, [WriteCall 0x40 0x88 0 0x0300 ?block]) = (z, d3, l3)"
        by (metis prod.exhaust)
      with read have l3: "l3 = [WriteCall 0x40 0x88 0 0x0300 ?block]" "\<forall>s. z = Inr s \<longrightarrow> length s = 64" by blast+
      have before: "length before = 64" using read [OF first] Inr by simp
      note run' = run [unfolded dev first Inr usb_result_def hbind_def prod.case sum.case Let_def enc'
          transport_command_encoder.simps block COMMAND_BLOCK_INDEX_def writing l1 append_Nil second usb_step_def sleep]
      show ?thesis
        using run' before l3 third
        by (cases y; cases z; cases current) (auto simp: Let_def n_def split: if_splits)
    qed
    qed
  qed
qed

text \<open>
  The transport-command exchange writes to the camera at most once, and when it
  succeeds exactly once: the 64-byte mailbox of the command, with the sequence nibble one
  above the given one or the one in the camera's status, which is the sequence it reports.
\<close>
theorem transport_command_writes_once:
  assumes "send_transport_command devices open_device (logged ops) selector command current settle (d, [])
    = (r, d', log)"
  shows "length log \<le> 1
    \<and> (\<forall>ob. r = Inr ob \<longrightarrow>
        (let n = (case current of None \<Rightarrow> drop_bit 4 (status_before ob ! 0) | Some c \<Rightarrow> c) + 1 AND 0x0f
         in log = [WriteCall 0x40 0x88 0 0x0300 (replicate 60 0 @
              [0, push_bit 4 n OR 1, command_byte command, push_bit 4 n])]
            \<and> ob_sequence ob = n \<and> length (status_before ob) = 64 \<and> length (status_after ob) = 64))"
  by (rule transport_command_log [OF assms])

lemma logged_handle:
  "op_kernel_driver (logged ops) i (d, l) = (fst (op_kernel_driver ops i d), snd (op_kernel_driver ops i d), l)"
  "op_claim (logged ops) i (d, l)
     = (fst (op_claim ops i d), snd (op_claim ops i d), l @ [ClaimCall (\<not> isl (fst (op_claim ops i d)))])"
  "op_alternate (logged ops) i a (d, l)
     = (fst (op_alternate ops i a d), snd (op_alternate ops i a d), l @ [AlternateCall i a])"
  "op_release (logged ops) i (d, l) = (fst (op_release ops i d), snd (op_release ops i d), l @ [ReleaseCall])"
  by (simp_all add: logged_def case_prod_unfold)

definition claims :: "usb_call list \<Rightarrow> nat" where
  "claims log = length (filter (\<lambda>c. c = ClaimCall True) log)"

definition releases :: "usb_call list \<Rightarrow> nat" where
  "releases log = length (filter (\<lambda>c. c = ReleaseCall) log)"

lemma claims_simps [simp]:
  "claims [] = 0" "claims (l @ m) = claims l + claims m" "claims (c # l) = (if c = ClaimCall True then 1 else 0) + claims l"
  "releases [] = 0" "releases (l @ m) = releases l + releases m"
  "releases (c # l) = (if c = ReleaseCall then 1 else 0) + releases l"
  by (simp_all add: claims_def releases_def)

lemma plan_calls_no_claims: "c \<in> set (plan_calls plan) \<Longrightarrow> c \<noteq> ClaimCall True \<and> c \<noteq> ReleaseCall"
proof (induction plan)
  case (Cons operation plan)
  then show ?case by (cases operation) auto
qed simp

lemma logged_replay_claims:
  assumes "replay_initialization (logged ops) plan strategy (d, log) = Some (r, d', log')"
  shows "claims log' = claims log \<and> releases log' = releases log"
proof -
  from assms obtain more rest where more: "log' = log @ more" and "plan_calls plan = more @ rest"
    using logged_replay [of ops strategy plan d log] by (auto simp: replay_initialization_def replay_from_list)
  then have "set more \<subseteq> set (plan_calls plan)" by simp
  then have "\<forall>c \<in> set more. c \<noteq> ClaimCall True \<and> c \<noteq> ReleaseCall"
    using plan_calls_no_claims by blast
  then have "claims more = 0" "releases more = 0"
    by (auto simp: claims_def releases_def filter_empty_conv)
  then show ?thesis by (simp add: more)
qed

text \<open>
  Opening never leaks the interface claim: when it fails, whatever the device
  does, every claim it obtained has been released, and after a failed initialization alternate
  setting 0 is selected before the release; when it succeeds, exactly one claim is held.
\<close>
theorem open_claims_balanced:
  assumes "open_device_session devices open_device (logged ops) selector plan strategy (d, [])
    = Some (r, d', log)"
  shows "(isl r \<longrightarrow> claims log = releases log) \<and> (\<not> isl r \<longrightarrow> claims log = 1 \<and> releases log = 0)
    \<and> (releases log > 0 \<longrightarrow> (\<exists>l. log = l @ [AlternateCall 0 0, ReleaseCall]))"
proof -
  note run = assms [unfolded open_device_session_def]
  show ?thesis
  proof (cases "rbind (select_device devices selector) (\<lambda>device.
           rbind (validate_descriptors device) (\<lambda>_.
           rbind (usb_result (dev_ports device)) (\<lambda>port_path.
           rbind (usb_result (open_device device)) (\<lambda>_.
           Inr (device, port_path)))))")
    case (Inl e)
    have "r = Inl e" "log = []" using run unfolding Inl by auto
    then show ?thesis by simp
  next
    case (Inr dp)
    obtain x d1 where kernel: "op_kernel_driver ops VIDEO_INTERFACE d = (x, d1)" by fastforce
    obtain y d2 where claim: "op_claim ops VIDEO_INTERFACE d1 = (y, d2)" by fastforce
    show ?thesis
    proof (cases "(x = Inr False \<or> x = Inl NOT_SUPPORTED) \<and> \<not> isl y")
      case False
      with run Inr kernel claim show ?thesis
        by (cases y) (auto simp: logged_handle split: prod.splits if_splits)
    next
      case True
      then obtain z d3 l3 where replay:
        "replay_initialization (logged ops) plan strategy (d2, [ClaimCall True]) = Some (z, d3, l3)"
        using run Inr kernel claim
        by (cases y; cases dp) (auto simp: logged_handle split: option.splits if_splits)
      have "claims l3 = 1" "releases l3 = 0"
        using logged_replay_claims [OF replay] by simp_all
      with True run Inr kernel claim replay show ?thesis
        by (cases y; cases z; cases dp) (auto simp: logged_handle VIDEO_INTERFACE_def)
    qed
  qed
qed

subsection \<open>A sample device and witnesses\<close>

text \<open>
  A device whose status block starts with the token \<open>0x71\<close>, with a clock that counts the
  microseconds of sleeps and transfers; a plan with a startup scan command, the status reads
  after it, a further write and an alternate setting.
\<close>

definition sample_handle :: "nat usb_ops" where
  "sample_handle =
     \<lparr>op_read = (\<lambda>t r v i n d. (Inr (replicate n 0x71), d + 100)),
      op_write = (\<lambda>t r v i data d. (Inr (length data), d + 50)),
      op_alternate = (\<lambda>i a d. (Inr (), d)),
      op_kernel_driver = (\<lambda>i d. (Inl NOT_SUPPORTED, d)),
      op_claim = (\<lambda>i d. (Inr (), d)),
      op_release = (\<lambda>i d. (Inr (), d)),
      op_sleep = (\<lambda>n d. d + n),
      op_now = (\<lambda>d. d)\<rparr>"

definition sample_plan :: "init_op list" where
  "sample_plan =
     [ControlOut 0 0x40 0x88 0 0x0300 (command_block 0x00791071),
      ControlIn 500 0xc0 0x88 0 0x0340 64, ControlIn 500 0xc0 0x88 0 0x0340 64,
      ControlOut 20 0x40 0x88 0 0x35 [0x0f], SetInterface 5 0 5]"

lemma sample_handle_clock: "clock_laws sample_handle"
  by (simp add: clock_laws_def sample_handle_def)

theorem poll_acknowledgement_ends_witness:
  "\<exists>r d'. poll_status_acknowledgement sample_handle 0x71 0 = Some (r, d')"
  using poll_acknowledgement_ends [OF sample_handle_clock, of "0x71" 0] by blast

lemma sample_read: "read_status_block (logged sample_handle) (d, log) = (Inr (replicate 64 0x71), d + 100, log)"
  by (simp add: read_status_block_def logged_def sample_handle_def hbind_def usb_step_def usb_result_def STATUS_SIZE_def)

lemma sample_poll:
  "poll_status_acknowledgement (logged sample_handle) 0x71 (d, log) = Some (Inr 1, d + 10100, log)"
proof -
  have "op_sleep (logged sample_handle) n (d, log) = (d + n, log)" for n
    by (simp add: logged_def sample_handle_def)
  then show ?thesis
    unfolding poll_status_acknowledgement_def
    by (subst poll_loop.simps) (simp add: sample_read STATUS_POLL_INTERVAL_def Let_def)
qed

lemma sample_perform:
  "perform_op (logged sample_handle) (ControlOut t q r v i data) (d, log)
     = (Inr (), d + unat t + 50, log @ [WriteCall q r v i data])"
  "perform_op (logged sample_handle) (SetInterface t i' a) (d, log)
     = (Inr (), d + unat t, log @ [AlternateCall i' a])"
  by (simp_all add: perform_op_def logged_def sample_handle_def hbind_def usb_step_def usb_result_def)

lemma sample_tokens:
  "polled_token ConditionPolling (ControlOut 0 0x40 0x88 0 0x0300 (command_block 0x00791071)) = Some 0x71"
  "polled_token ConditionPolling (ControlOut 20 0x40 0x88 0 0x35 [0x0f]) = None"
  "polled_token ConditionPolling (SetInterface 5 0 5) = None"
  "is_status_poll (ControlIn 500 0xc0 0x88 0 0x0340 64)"
  "\<not> is_status_poll (ControlOut 20 0x40 0x88 0 0x35 [0x0f])"
  by code_simp+

lemma sample_replay:
  "\<exists>d'. replay_initialization (logged sample_handle) sample_plan ConditionPolling (d, log)
     = Some (Inr (), d', log @ plan_calls sample_plan)"
  by (simp add: replay_initialization_def replay_from_list sample_plan_def sample_perform sample_tokens sample_poll)

theorem replay_sends_plan_writes_witness:
  "\<exists>d'. replay_initialization (logged sample_handle) sample_plan ConditionPolling (0, [])
       = Some (Inr (), d', plan_calls sample_plan)
   \<and> (\<exists>rest. plan_calls sample_plan = plan_calls sample_plan @ rest \<and> (Inr () = (Inr () :: usb_transport_error + unit) \<longrightarrow> rest = []))"
proof -
  obtain d' where run: "replay_initialization (logged sample_handle) sample_plan ConditionPolling (0, [])
      = Some (Inr (), d', plan_calls sample_plan)"
    using sample_replay [of 0 "[]"] by auto
  from replay_sends_plan_writes [OF run] run show ?thesis by blast
qed

definition sample_camera :: usb_device where
  "sample_camera =
     (sample_device 1 2)\<lparr>dev_config := Inr [\<lparr>if_number = 0, if_descriptors = [\<lparr>ifd_setting = 5, ifd_endpoints =
        [\<lparr>epd_in = True, epd_type = Isochronous, epd_address = 0x81, epd_max_packet = 8\<rparr>,
         \<lparr>epd_in = True, epd_type = Isochronous, epd_address = 0x82, epd_max_packet = 768\<rparr>]\<rparr>]\<rparr>]\<rparr>"

lemma sample_camera_selected:
  "select_device (Inr [sample_camera]) \<lparr>sel_bus = None, sel_ports = []\<rparr> = Inr sample_camera"
  "dev_ports sample_camera = Inr [2]" "validate_descriptors sample_camera = Inr ()"
  by code_simp+

theorem transport_command_writes_once_witness:
  "\<exists>ob d' log. send_transport_command (Inr [sample_camera]) (\<lambda>_. Inr ()) (logged sample_handle)
       \<lparr>sel_bus = None, sel_ports = []\<rparr> Play None 100 (0, []) = (Inr ob, d', log)
     \<and> log = [WriteCall 0x40 0x88 0 0x0300 (replicate 60 0 @ [0, 0x81, 0x1a, 0x80])]"
proof -
  have io: "op_write (logged sample_handle) t r v i data (d, log) = (Inr (length data), d + 50, log @ [WriteCall t r v i data])"
    "op_sleep (logged sample_handle) n (d, log) = (d + n, log)" for t r v i data d log n
    by (simp_all add: logged_def sample_handle_def)
  have block: "length (command_block w) = 64" for w
    by (simp add: command_block_def COMMAND_WORD_OFFSET_def)
  obtain ob d' log where run: "send_transport_command (Inr [sample_camera]) (\<lambda>_. Inr ()) (logged sample_handle)
       \<lparr>sel_bus = None, sel_ports = []\<rparr> Play None 100 (0, []) = (Inr ob, d', log)"
      and status: "status_before ob ! 0 = 0x71"
    by (simp add: send_transport_command_def sample_camera_selected hbind_def usb_result_def usb_step_def
        sample_read io block Let_def case_prod_unfold)
  have "drop_bit 4 (0x71 :: u8) + 1 AND 15 = 8" "push_bit 4 (8 :: u8) = 0x80" "(0x80 :: u8) OR 1 = 0x81" by code_simp+
  with transport_command_writes_once [OF run] run status show ?thesis by (auto simp: Let_def)
qed

theorem open_claims_balanced_witness:
  "\<exists>d' log. open_device_session (Inr [sample_camera]) (\<lambda>_. Inr ()) (logged sample_handle)
       \<lparr>sel_bus = None, sel_ports = []\<rparr> sample_plan ConditionPolling (0, [])
       = Some (Inr (sample_camera, [2]), d', log) \<and> claims log = 1 \<and> releases log = 0"
proof -
  have io: "op_kernel_driver (logged sample_handle) i (d, log) = (Inl NOT_SUPPORTED, d, log)"
    "op_claim (logged sample_handle) i (d, log) = (Inr (), d, log @ [ClaimCall True])" for i d log
    by (simp_all add: logged_def sample_handle_def)
  obtain d' where replay: "replay_initialization (logged sample_handle) sample_plan ConditionPolling (0, [ClaimCall True])
      = Some (Inr (), d', [ClaimCall True] @ plan_calls sample_plan)"
    using sample_replay [of 0 "[ClaimCall True]"] by blast
  then have run: "open_device_session (Inr [sample_camera]) (\<lambda>_. Inr ()) (logged sample_handle)
       \<lparr>sel_bus = None, sel_ports = []\<rparr> sample_plan ConditionPolling (0, [])
       = Some (Inr (sample_camera, [2]), d', [ClaimCall True] @ plan_calls sample_plan)"
    by (simp add: open_device_session_def sample_camera_selected usb_result_def io)
  from open_claims_balanced [OF run] run show ?thesis by auto
qed

end
