(* ===== verification/Jpeg.thy ===== *)
theory Jpeg
  imports Prelude
begin

section \<open>JPEG reconstruction and YUYV conversion\<close>

text \<open>
  Model of \<open>crates/handycam-core/src/jpeg.rs\<close> with the frame constants of
  \<open>lib.rs\<close>. The canonical header is the literal of the source. \<open>reconstruct_jpeg\<close>
  strips the zero padding, stuffs a zero after every \<open>0xff\<close> and adds header and end
  marker; \<open>jpeg_to_yuyv\<close> converts pixel pairs. The \<open>jpeg_decoder\<close> crate is
  the parameter record \<open>jpeg_decoder\<close>.
\<close>

subsection \<open>Constants\<close>

definition WIDTH :: u32 where
  "WIDTH = 320"

definition HEIGHT :: u32 where
  "HEIGHT = 240"

definition FPS :: u32 where
  "FPS = 25"

definition JPEG_HEADER :: bytes where
  "JPEG_HEADER = [
    0xff, 0xd8, 0xff, 0xe0, 0x00, 0x10, 0x4a, 0x46, 0x49, 0x46, 0x00, 0x01, 0x01, 0x00, 0x00, 0x01,
    0x00, 0x01, 0x00, 0x00, 0xff, 0xdb, 0x00, 0x43, 0x00, 0x10, 0x0b, 0x0c, 0x0e, 0x0c, 0x0a, 0x10,
    0x0e, 0x0d, 0x0e, 0x12, 0x11, 0x10, 0x13, 0x18, 0x28, 0x1a, 0x18, 0x16, 0x16, 0x18, 0x31, 0x23,
    0x25, 0x1d, 0x28, 0x3a, 0x33, 0x3d, 0x3c, 0x39, 0x33, 0x38, 0x37, 0x40, 0x48, 0x5c, 0x4e, 0x40,
    0x44, 0x57, 0x45, 0x37, 0x38, 0x50, 0x6d, 0x51, 0x57, 0x5f, 0x62, 0x67, 0x68, 0x67, 0x3e, 0x4d,
    0x71, 0x79, 0x70, 0x64, 0x78, 0x5c, 0x65, 0x67, 0x63, 0xff, 0xdb, 0x00, 0x43, 0x01, 0x11, 0x12,
    0x12, 0x18, 0x15, 0x18, 0x2f, 0x1a, 0x1a, 0x2f, 0x63, 0x42, 0x38, 0x42, 0x63, 0x63, 0x63, 0x63,
    0x63, 0x63, 0x63, 0x63, 0x63, 0x63, 0x63, 0x63, 0x63, 0x63, 0x63, 0x63, 0x63, 0x63, 0x63, 0x63,
    0x63, 0x63, 0x63, 0x63, 0x63, 0x63, 0x63, 0x63, 0x63, 0x63, 0x63, 0x63, 0x63, 0x63, 0x63, 0x63,
    0x63, 0x63, 0x63, 0x63, 0x63, 0x63, 0x63, 0x63, 0x63, 0x63, 0x63, 0x63, 0x63, 0x63, 0xff, 0xc0,
    0x00, 0x11, 0x08, 0x00, 0xf0, 0x01, 0x40, 0x03, 0x01, 0x22, 0x00, 0x02, 0x11, 0x01, 0x03, 0x11,
    0x01, 0xff, 0xc4, 0x00, 0x1f, 0x00, 0x00, 0x01, 0x05, 0x01, 0x01, 0x01, 0x01, 0x01, 0x01, 0x00,
    0x00, 0x00, 0x00, 0x00, 0x00, 0x00, 0x00, 0x01, 0x02, 0x03, 0x04, 0x05, 0x06, 0x07, 0x08, 0x09,
    0x0a, 0x0b, 0xff, 0xc4, 0x00, 0xb5, 0x10, 0x00, 0x02, 0x01, 0x03, 0x03, 0x02, 0x04, 0x03, 0x05,
    0x05, 0x04, 0x04, 0x00, 0x00, 0x01, 0x7d, 0x01, 0x02, 0x03, 0x00, 0x04, 0x11, 0x05, 0x12, 0x21,
    0x31, 0x41, 0x06, 0x13, 0x51, 0x61, 0x07, 0x22, 0x71, 0x14, 0x32, 0x81, 0x91, 0xa1, 0x08, 0x23,
    0x42, 0xb1, 0xc1, 0x15, 0x52, 0xd1, 0xf0, 0x24, 0x33, 0x62, 0x72, 0x82, 0x09, 0x0a, 0x16, 0x17,
    0x18, 0x19, 0x1a, 0x25, 0x26, 0x27, 0x28, 0x29, 0x2a, 0x34, 0x35, 0x36, 0x37, 0x38, 0x39, 0x3a,
    0x43, 0x44, 0x45, 0x46, 0x47, 0x48, 0x49, 0x4a, 0x53, 0x54, 0x55, 0x56, 0x57, 0x58, 0x59, 0x5a,
    0x63, 0x64, 0x65, 0x66, 0x67, 0x68, 0x69, 0x6a, 0x73, 0x74, 0x75, 0x76, 0x77, 0x78, 0x79, 0x7a,
    0x83, 0x84, 0x85, 0x86, 0x87, 0x88, 0x89, 0x8a, 0x92, 0x93, 0x94, 0x95, 0x96, 0x97, 0x98, 0x99,
    0x9a, 0xa2, 0xa3, 0xa4, 0xa5, 0xa6, 0xa7, 0xa8, 0xa9, 0xaa, 0xb2, 0xb3, 0xb4, 0xb5, 0xb6, 0xb7,
    0xb8, 0xb9, 0xba, 0xc2, 0xc3, 0xc4, 0xc5, 0xc6, 0xc7, 0xc8, 0xc9, 0xca, 0xd2, 0xd3, 0xd4, 0xd5,
    0xd6, 0xd7, 0xd8, 0xd9, 0xda, 0xe1, 0xe2, 0xe3, 0xe4, 0xe5, 0xe6, 0xe7, 0xe8, 0xe9, 0xea, 0xf1,
    0xf2, 0xf3, 0xf4, 0xf5, 0xf6, 0xf7, 0xf8, 0xf9, 0xfa, 0xff, 0xc4, 0x00, 0x1f, 0x01, 0x00, 0x03,
    0x01, 0x01, 0x01, 0x01, 0x01, 0x01, 0x01, 0x01, 0x01, 0x00, 0x00, 0x00, 0x00, 0x00, 0x00, 0x01,
    0x02, 0x03, 0x04, 0x05, 0x06, 0x07, 0x08, 0x09, 0x0a, 0x0b, 0xff, 0xc4, 0x00, 0xb5, 0x11, 0x00,
    0x02, 0x01, 0x02, 0x04, 0x04, 0x03, 0x04, 0x07, 0x05, 0x04, 0x04, 0x00, 0x01, 0x02, 0x77, 0x00,
    0x01, 0x02, 0x03, 0x11, 0x04, 0x05, 0x21, 0x31, 0x06, 0x12, 0x41, 0x51, 0x07, 0x61, 0x71, 0x13,
    0x22, 0x32, 0x81, 0x08, 0x14, 0x42, 0x91, 0xa1, 0xb1, 0xc1, 0x09, 0x23, 0x33, 0x52, 0xf0, 0x15,
    0x62, 0x72, 0xd1, 0x0a, 0x16, 0x24, 0x34, 0xe1, 0x25, 0xf1, 0x17, 0x18, 0x19, 0x1a, 0x26, 0x27,
    0x28, 0x29, 0x2a, 0x35, 0x36, 0x37, 0x38, 0x39, 0x3a, 0x43, 0x44, 0x45, 0x46, 0x47, 0x48, 0x49,
    0x4a, 0x53, 0x54, 0x55, 0x56, 0x57, 0x58, 0x59, 0x5a, 0x63, 0x64, 0x65, 0x66, 0x67, 0x68, 0x69,
    0x6a, 0x73, 0x74, 0x75, 0x76, 0x77, 0x78, 0x79, 0x7a, 0x82, 0x83, 0x84, 0x85, 0x86, 0x87, 0x88,
    0x89, 0x8a, 0x92, 0x93, 0x94, 0x95, 0x96, 0x97, 0x98, 0x99, 0x9a, 0xa2, 0xa3, 0xa4, 0xa5, 0xa6,
    0xa7, 0xa8, 0xa9, 0xaa, 0xb2, 0xb3, 0xb4, 0xb5, 0xb6, 0xb7, 0xb8, 0xb9, 0xba, 0xc2, 0xc3, 0xc4,
    0xc5, 0xc6, 0xc7, 0xc8, 0xc9, 0xca, 0xd2, 0xd3, 0xd4, 0xd5, 0xd6, 0xd7, 0xd8, 0xd9, 0xda, 0xe2,
    0xe3, 0xe4, 0xe5, 0xe6, 0xe7, 0xe8, 0xe9, 0xea, 0xf2, 0xf3, 0xf4, 0xf5, 0xf6, 0xf7, 0xf8, 0xf9,
    0xfa, 0xff, 0xda, 0x00, 0x0c, 0x03, 0x01, 0x00, 0x02, 0x11, 0x03, 0x11, 0x00, 0x3f, 0x00
    ]"

subsection \<open>Reconstruction\<close>

datatype output_format = Mjpeg | Yuyv

text \<open>
  Values of the decoder crate that the code only reports or compares, represented by their
  textual form.
\<close>

type_synonym jpeg_error = string
type_synonym pixel_format = string

datatype frame_conversion_error =
    EmptyEntropy
  | Decode jpeg_error
  | MissingImageInfo
  | Dimensions "u16 \<times> u16" "u16 \<times> u16"
  | PixelFormat pixel_format

definition entropy_end :: "bytes \<Rightarrow> nat" where
  "entropy_end entropy_with_padding =
     (case rposition (\<lambda>byte. byte \<noteq> 0) entropy_with_padding of
        None \<Rightarrow> 0
      | Some index \<Rightarrow> index + 1)"

text \<open>The loop that pushes the scan with a zero byte after each \<open>0xff\<close>.\<close>

fun stuff_bytes :: "bytes \<Rightarrow> bytes" where
  "stuff_bytes [] = []"
| "stuff_bytes (byte # entropy) =
     byte # (if byte = 0xff then [0x00] else []) @ stuff_bytes entropy"

definition reconstruct_jpeg :: "bytes \<Rightarrow> frame_conversion_error + bytes" where
  "reconstruct_jpeg entropy_with_padding =
     (let entropy = take (entropy_end entropy_with_padding) entropy_with_padding
      in if entropy = [] then Inl EmptyEntropy
         else Inr (JPEG_HEADER @ stuff_bytes entropy @ [0xff, 0xd9]))"

subsection \<open>Conversion to YUYV\<close>

text \<open>
  The decoder crate: \<open>decode_jpeg\<close> is \<open>Decoder::decode\<close> on the bytes,
  \<open>image_info\<close> is \<open>Decoder::info\<close> after it (width, height, pixel format) and
  \<open>rgb24\<close> is the format constant.
\<close>

record jpeg_decoder =
  decode_jpeg :: "bytes \<Rightarrow> jpeg_error + bytes"
  image_info :: "bytes \<Rightarrow> (u16 \<times> u16 \<times> pixel_format) option"
  rgb24 :: pixel_format

text \<open>
  The \<open>i32\<close> arithmetic as integers (\<open>rgb_to_yuv_i32\<close> below shows that nothing
  overflows); \<open>drop_bit 8\<close> is the arithmetic shift.
\<close>

definition luma :: "int \<Rightarrow> int \<Rightarrow> int \<Rightarrow> int" where
  "luma red green blue = 16 + drop_bit 8 (66 * red + 129 * green + 25 * blue + 128)"

definition chroma_u :: "int \<Rightarrow> int \<Rightarrow> int \<Rightarrow> int" where
  "chroma_u red green blue = 128 + drop_bit 8 (- 38 * red - 74 * green + 112 * blue + 128)"

definition chroma_v :: "int \<Rightarrow> int \<Rightarrow> int \<Rightarrow> int" where
  "chroma_v red green blue = 128 + drop_bit 8 (112 * red - 94 * green - 18 * blue + 128)"

definition clamp_u8 :: "int \<Rightarrow> u8" where
  "clamp_u8 x = word_of_int (max 0 (min 255 x))"

definition rgb_to_yuv :: "u8 \<Rightarrow> u8 \<Rightarrow> u8 \<Rightarrow> u8 \<times> u8 \<times> u8" where
  "rgb_to_yuv red green blue =
     (let red = uint red; green = uint green; blue = uint blue
      in (clamp_u8 (luma red green blue),
          clamp_u8 (chroma_u red green blue),
          clamp_u8 (chroma_v red green blue)))"

definition div_ceil :: "u16 \<Rightarrow> u16 \<Rightarrow> u16" where
  "div_ceil a b = (if a mod b > 0 \<and> b > 0 then a div b + 1 else a div b)"

definition average_chroma :: "u8 \<Rightarrow> u8 \<Rightarrow> u8" where
  "average_chroma a b = ucast (div_ceil (ucast a + ucast b) 2)"

text \<open>The loop over \<open>rgb.chunks_exact(6)\<close>: a remainder shorter than six bytes is dropped.\<close>

fun yuyv_chunks :: "bytes \<Rightarrow> bytes" where
  "yuyv_chunks (r0 # g0 # b0 # r1 # g1 # b1 # rgb) =
     (case rgb_to_yuv r0 g0 b0 of (y0, u0, v0) \<Rightarrow>
      case rgb_to_yuv r1 g1 b1 of (y1, u1, v1) \<Rightarrow>
        [y0, average_chroma u0 u1, y1, average_chroma v0 v1] @ yuyv_chunks rgb)"
| "yuyv_chunks _ = []"

definition jpeg_to_yuyv ::
  "jpeg_decoder \<Rightarrow> bytes \<Rightarrow> frame_conversion_error + bytes" where
  "jpeg_to_yuyv decoder jpeg =
     (case decode_jpeg decoder jpeg of
        Inl e \<Rightarrow> Inl (Decode e)
      | Inr rgb \<Rightarrow>
          (case image_info decoder jpeg of
             None \<Rightarrow> Inl MissingImageInfo
           | Some (width, height, pixel_format) \<Rightarrow>
               if (width, height) \<noteq> (ucast WIDTH, ucast HEIGHT)
               then Inl (Dimensions (width, height) (ucast WIDTH, ucast HEIGHT))
               else if pixel_format \<noteq> rgb24 decoder then Inl (PixelFormat pixel_format)
               else Inr (yuyv_chunks rgb)))"

subsection \<open>Reading a JPEG back\<close>

text \<open>
  A reader for the marker structure of a baseline JPEG file, as a decoder does it:
  \<open>read_segments\<close> walks the marker segments up to and including the scan header,
  \<open>scan_entropy\<close> reads entropy-coded data up to the next marker and removes the stuffed
  zeros, \<open>read_jpeg\<close> puts them together and takes height and width from the frame header.
\<close>

fun read_segments :: "nat \<Rightarrow> bytes \<Rightarrow> ((u8 \<times> bytes) list \<times> bytes) option" where
  "read_segments (Suc fuel) (m # k # hi # lo # xs) =
     (let n = 256 * unat hi + unat lo
      in if m \<noteq> 0xff \<or> n < 2 \<or> length xs < n - 2 then None
         else if k = 0xda then Some ([(k, take (n - 2) xs)], drop (n - 2) xs)
         else map_option (\<lambda>(segs, rest). ((k, take (n - 2) xs) # segs, rest))
                (read_segments fuel (drop (n - 2) xs)))"
| "read_segments _ _ = None"

fun scan_entropy :: "bytes \<Rightarrow> (bytes \<times> bytes) option" where
  "scan_entropy (b # c # xs) =
     (if b \<noteq> 0xff then map_option (\<lambda>(e, rest). (b # e, rest)) (scan_entropy (c # xs))
      else if c = 0 then map_option (\<lambda>(e, rest). (b # e, rest)) (scan_entropy xs)
      else Some ([], b # c # xs))"
| "scan_entropy _ = None"

definition frame_size :: "(u8 \<times> bytes) list \<Rightarrow> (nat \<times> nat) option" where
  "frame_size segs =
     (case map_of segs 0xc0 of
        Some (_ # h1 # h0 # w1 # w0 # _) \<Rightarrow> Some (be_val [w1, w0], be_val [h1, h0])
      | _ \<Rightarrow> None)"

definition read_jpeg :: "bytes \<Rightarrow> (nat \<times> nat \<times> bytes) option" where
  "read_jpeg jpeg =
     (if take 2 jpeg \<noteq> [0xff, 0xd8] then None
      else Option.bind (read_segments (length jpeg) (drop 2 jpeg)) (\<lambda>(segs, rest).
           Option.bind (frame_size segs) (\<lambda>(width, height).
           Option.bind (scan_entropy rest) (\<lambda>(entropy, end_marker).
             if end_marker = [0xff, 0xd9] then Some (width, height, entropy) else None))))"

lemma scan_entropy_stuffed:
  "scan_entropy (stuff_bytes xs @ [0xff, 0xd9]) = Some (xs, [0xff, 0xd9])"
proof (induction xs)
  case Nil
  then show ?case by simp
next
  case (Cons b xs)
  obtain c ys where "stuff_bytes xs @ [0xff, 0xd9] = c # ys"
    by (cases "stuff_bytes xs") auto
  with Cons show ?case by simp
qed

lemma read_segments_append:
  "read_segments n xs = Some (segs, rest) \<Longrightarrow>
   read_segments (n + m) (xs @ ys) = Some (segs, rest @ ys)"
proof (induction n xs arbitrary: segs rest rule: read_segments.induct)
  case (1 fuel m k hi lo xs)
  then show ?case
    by (auto simp: Let_def split: if_splits)
qed simp_all

lemma header_reads:
  "case read_segments 9 (drop 2 JPEG_HEADER) of
     None \<Rightarrow> False
   | Some (segs, rest) \<Rightarrow> rest = [] \<and> frame_size segs = Some (320, 240)
       \<and> map fst segs = [0xe0, 0xdb, 0xdb, 0xc0, 0xc4, 0xc4, 0xc4, 0xc4, 0xda]"
  by code_simp

lemma header_start: "take 2 JPEG_HEADER = [0xff, 0xd8] \<and> length JPEG_HEADER = 623"
  by code_simp

lemma entropy_end_le: "entropy_end e \<le> length e"
  by (auto simp: entropy_end_def dest: rposition_SomeD split: option.splits)

lemma entropy_end_zero_iff: "entropy_end e = 0 \<longleftrightarrow> set e \<subseteq> {0}"
proof (cases "rposition (\<lambda>byte. byte \<noteq> 0) e")
  case None
  then have "set e \<subseteq> {0}" by (auto simp: rposition_None_iff)
  with None show ?thesis by (simp add: entropy_end_def)
next
  case (Some i)
  then have "e ! i \<in> set e" and "e ! i \<noteq> 0"
    by (auto dest!: rposition_SomeD)
  then have "\<not> set e \<subseteq> {0}" by blast
  with Some show ?thesis by (simp add: entropy_end_def)
qed

lemma strip_padding:
  "e = take (entropy_end e) e @ replicate (length e - entropy_end e) 0
   \<and> (entropy_end e \<noteq> 0 \<longrightarrow> last (take (entropy_end e) e) \<noteq> 0)"
proof (cases "rposition (\<lambda>byte. byte \<noteq> 0) e")
  case None
  then have "e = replicate (length e) 0"
    using take_eq_replicate_iff [of e "length e" 0] by (simp add: rposition_None_iff)
  moreover have "entropy_end e = 0" using None by (simp add: entropy_end_def)
  ultimately show ?thesis by simp
next
  case (Some i)
  then have i: "i < length e" "e ! i \<noteq> 0" "\<forall>x \<in> set (drop (Suc i) e). x = 0"
    by (auto dest: rposition_SomeD)
  then have "drop (Suc i) e = replicate (length e - Suc i) 0"
    using take_eq_replicate_iff [of "drop (Suc i) e"] by simp
  moreover have "last (take (Suc i) e) = e ! i"
    using i(1) by (simp add: take_Suc_conv_app_nth)
  ultimately show ?thesis
    using i Some append_take_drop_id [of "Suc i" e] by (simp add: entropy_end_def)
qed

text \<open>A padded record has one non-zero-terminated payload only.\<close>

lemma strip_unique:
  "xs @ replicate m 0 = ys @ replicate n (0 :: u8) \<Longrightarrow> xs \<noteq> [] \<Longrightarrow> last xs \<noteq> 0
   \<Longrightarrow> ys \<noteq> [] \<Longrightarrow> last ys \<noteq> 0 \<Longrightarrow> xs = ys"
proof (induction m arbitrary: n)
  case 0
  then show ?case
    by (cases n) (auto simp: replicate_append_same simp flip: replicate_append_same append_assoc)
next
  case (Suc m)
  then show ?case
    by (cases n) (auto simp: replicate_append_same simp flip: replicate_append_same append_assoc)
qed

lemma reconstruct_jpeg_eq:
  assumes "e = entropy @ replicate n 0" and "entropy \<noteq> []" and "last entropy \<noteq> 0"
  shows "reconstruct_jpeg e = Inr (JPEG_HEADER @ stuff_bytes entropy @ [0xff, 0xd9])"
proof -
  have "last entropy \<in> set e" using assms by simp
  then have "entropy_end e \<noteq> 0" using assms(3) by (auto simp: entropy_end_zero_iff)
  moreover from this have "take (entropy_end e) e \<noteq> []"
    using entropy_end_le [of e] by auto
  ultimately have "take (entropy_end e) e = entropy"
    using strip_padding [of e] assms strip_unique by metis
  with assms(2) show ?thesis by (simp add: reconstruct_jpeg_def Let_def)
qed

lemma reconstruct_jpeg_empty: "set e \<subseteq> {0} \<Longrightarrow> reconstruct_jpeg e = Inl EmptyEntropy"
  by (simp add: entropy_end_zero_iff [symmetric] reconstruct_jpeg_def)

lemma payload_cases [case_names empty frame]:
  obtains "set e \<subseteq> {0}"
  | entropy n where "e = entropy @ replicate n (0 :: u8)" and "entropy \<noteq> []" and "last entropy \<noteq> 0"
proof (cases "entropy_end e = 0")
  case True
  then have "set e \<subseteq> {0}" by (simp add: entropy_end_zero_iff)
  then show ?thesis by (rule that(1))
next
  case False
  let ?x = "take (entropy_end e) e"
  have "e = ?x @ replicate (length e - entropy_end e) 0" and "last ?x \<noteq> 0"
    using False strip_padding [of e] by auto
  moreover have "?x \<noteq> []" using False entropy_end_le [of e] by auto
  ultimately show ?thesis using that(2) by blast
qed

lemma read_jpeg_reconstructed:
  "read_jpeg (JPEG_HEADER @ stuff_bytes entropy @ [0xff, 0xd9]) = Some (320, 240, entropy)"
proof -
  let ?rest = "stuff_bytes entropy @ [0xff, 0xd9]"
  obtain segs where segs: "read_segments 9 (drop 2 JPEG_HEADER) = Some (segs, [])"
      "frame_size segs = Some (320, 240)"
    using header_reads by (auto split: option.splits)
  have "length (JPEG_HEADER @ ?rest) = 9 + (614 + length ?rest)"
    using header_start by simp
  then have "read_segments (length (JPEG_HEADER @ ?rest)) (drop 2 JPEG_HEADER @ ?rest) = Some (segs, ?rest)"
    using read_segments_append [OF segs(1), of "614 + length ?rest" ?rest] by simp
  then show ?thesis
    using header_start segs(2) scan_entropy_stuffed by (simp add: read_jpeg_def)
qed


subsection \<open>Colour conversion lemmas\<close>

lemma uint_u8: "0 \<le> uint (x :: u8) \<and> uint x \<le> 255"
  using uint_lt2p [of x] by simp

text \<open>No intermediate value leaves the range of \<open>i32\<close>, so the integers model it exactly.\<close>

lemma rgb_to_yuv_i32:
  fixes r g b :: int
  assumes "0 \<le> r" "r \<le> 255" "0 \<le> g" "g \<le> 255" "0 \<le> b" "b \<le> 255"
  shows "\<bar>66 * r + 129 * g + 25 * b + 128\<bar> < 2 ^ 31"
    and "\<bar>- 38 * r - 74 * g + 112 * b + 128\<bar> < 2 ^ 31"
    and "\<bar>112 * r - 94 * g - 18 * b + 128\<bar> < 2 ^ 31"
  using assms by (auto simp: abs_less_iff)

lemma yuv_int_range:
  assumes "0 \<le> r" "r \<le> 255" "0 \<le> g" "g \<le> 255" "0 \<le> b" "b \<le> 255"
  shows "16 \<le> luma r g b \<and> luma r g b \<le> 235"
    and "16 \<le> chroma_u r g b \<and> chroma_u r g b \<le> 240"
    and "16 \<le> chroma_v r g b \<and> chroma_v r g b \<le> 240"
  using assms unfolding luma_def chroma_u_def chroma_v_def drop_bit_eq_div by auto

lemma unat_clamp_u8: "unat (clamp_u8 x) = nat (max 0 (min 255 x))"
proof -
  have "uint (clamp_u8 x) = max 0 (min 255 x)"
    by (auto simp: clamp_u8_def uint_word_of_int)
  then show ?thesis by (metis unat_eq_nat_uint)
qed

lemma rgb_to_yuv_range:
  "rgb_to_yuv r g b = (y, u, v) \<Longrightarrow>
     16 \<le> unat y \<and> unat y \<le> 235 \<and> 16 \<le> unat u \<and> unat u \<le> 240 \<and> 16 \<le> unat v \<and> unat v \<le> 240"
  using uint_u8 [of r] uint_u8 [of g] uint_u8 [of b]
    yuv_int_range [of "uint r" "uint g" "uint b"]
  by (auto simp: rgb_to_yuv_def Let_def unat_clamp_u8 nat_le_iff le_nat_iff)

lemma unat_ucast_u8_u16: "unat (ucast (a :: u8) :: u16) = unat a"
proof -
  have "unat (ucast a :: u16) = take_bit LENGTH(16) (unat a)"
    by (rule unsigned_ucast_eq)
  then show ?thesis using u8_bound [of a] by (simp add: take_bit_nat_eq_self)
qed

lemma unat_average_chroma: "unat (average_chroma a b) = (unat a + unat b + 1) div 2"
proof -
  let ?s = "ucast a + ucast b :: u16"
  have s: "unat ?s = unat a + unat b"
    using u8_bound [of a] u8_bound [of b] by (simp add: unat_word_ariths unat_ucast_u8_u16)
  have m: "unat (?s mod 2) = (unat a + unat b) mod 2" and d: "unat (?s div 2) = (unat a + unat b) div 2"
    unfolding unat_mod_distrib unat_div_distrib s by simp_all
  have "unat (div_ceil ?s 2) = (unat a + unat b + 1) div 2"
  proof (cases "(unat a + unat b) mod 2 = 0")
    case True
    then have "\<not> ?s mod 2 > 0" using m by (simp add: word_less_nat_alt)
    then have "unat (div_ceil ?s 2) = (unat a + unat b) div 2" using d by (simp add: div_ceil_def)
    then show ?thesis using True by presburger
  next
    case False
    then have "?s mod 2 > 0" using m by (simp only: word_less_nat_alt) simp
    then have "div_ceil ?s 2 = ?s div 2 + 1" by (simp only: div_ceil_def) simp
    then have "unat (div_ceil ?s 2) = (unat a + unat b) div 2 + 1"
      using d u8_bound [of a] u8_bound [of b] by (simp only: unat_word_ariths) simp
    then show ?thesis using False by presburger
  qed
  moreover have "unat (ucast (div_ceil ?s 2) :: u8) = take_bit LENGTH(8) (unat (div_ceil ?s 2))"
    by (rule unsigned_ucast_eq)
  ultimately show ?thesis
    using u8_bound [of a] u8_bound [of b]
    by (simp add: average_chroma_def take_bit_nat_eq_self)
qed

lemma length_yuyv_chunks: "length (yuyv_chunks rgb) = 4 * (length rgb div 6)"
proof (induction rgb rule: yuyv_chunks.induct)
  case (1 r0 g0 b0 r1 g1 b1 rgb)
  obtain y0 u0 v0 y1 u1 v1 where "rgb_to_yuv r0 g0 b0 = (y0, u0, v0)" "rgb_to_yuv r1 g1 b1 = (y1, u1, v1)"
    by (metis prod_cases3)
  moreover have "Suc (Suc (Suc (Suc (Suc (Suc (length rgb)))))) div 6 = Suc (length rgb div 6)"
    using div_add_self2 [of 6 "length rgb"] by simp
  ultimately show ?case using 1 by simp
qed simp_all

text \<open>Pairs of a luma byte and a chroma byte in the limited range of BT.601.\<close>

fun limited_range :: "bytes \<Rightarrow> bool" where
  "limited_range [] \<longleftrightarrow> True"
| "limited_range (y # c # yuyv) \<longleftrightarrow>
     16 \<le> unat y \<and> unat y \<le> 235 \<and> 16 \<le> unat c \<and> unat c \<le> 240 \<and> limited_range yuyv"
| "limited_range [_] \<longleftrightarrow> False"

lemma limited_range_yuyv_chunks: "limited_range (yuyv_chunks rgb)"
proof (induction rgb rule: yuyv_chunks.induct)
  case (1 r0 g0 b0 r1 g1 b1 rgb)
  obtain y0 u0 v0 y1 u1 v1 where yuv: "rgb_to_yuv r0 g0 b0 = (y0, u0, v0)" "rgb_to_yuv r1 g1 b1 = (y1, u1, v1)"
    by (metis prod_cases3)
  then show ?case
    using 1 rgb_to_yuv_range [OF yuv(1)] rgb_to_yuv_range [OF yuv(2)]
    by (auto simp: unat_average_chroma)
qed simp_all

text \<open>
  Property C31. A camera record becomes a complete baseline JPEG: reading the result back
  segment by segment gives a 320 by 240 frame whose entropy-coded scan is the record without
  its zero padding, ended by the end-of-image marker and free of any other marker; a record
  of zeros only is refused.
\<close>
theorem reconstruct_jpeg_reads_back:
  "case reconstruct_jpeg payload of
     Inl e \<Rightarrow> e = EmptyEntropy \<and> payload = replicate (length payload) 0
   | Inr jpeg \<Rightarrow> (\<exists>entropy n. payload = entropy @ replicate n 0 \<and> entropy \<noteq> [] \<and> last entropy \<noteq> 0
       \<and> read_jpeg jpeg = Some (320, 240, entropy))"
proof (cases payload rule: payload_cases)
  case empty
  then have "payload = replicate (length payload) 0"
    using take_eq_replicate_iff [of payload "length payload" 0] by auto
  with empty show ?thesis by (simp add: reconstruct_jpeg_empty)
next
  case (frame entropy n)
  then show ?thesis
    unfolding reconstruct_jpeg_eq [OF frame] sum.case
    using read_jpeg_reconstructed [of entropy] by blast
qed

text \<open>
  Property C32. Converting a frame that the decoder returns as 320 by 240 RGB24 gives exactly
  153600 bytes, alternating luma bytes in 16 to 235 and chroma bytes in 16 to 240.
\<close>
theorem jpeg_to_yuyv_frame:
  assumes "decode_jpeg decoder jpeg = Inr rgb"
    and "image_info decoder jpeg = Some (320, 240, rgb24 decoder)"
    and "length rgb = 320 * 240 * 3"
  shows "\<exists>yuyv. jpeg_to_yuyv decoder jpeg = Inr yuyv \<and> length yuyv = 153600 \<and> limited_range yuyv"
  using assms
  by (simp add: jpeg_to_yuyv_def WIDTH_def HEIGHT_def length_yuyv_chunks limited_range_yuyv_chunks)

theorem jpeg_to_yuyv_frame_witness:
  "\<exists>yuyv. jpeg_to_yuyv \<lparr>decode_jpeg = \<lambda>_. Inr (replicate 230400 200),
      image_info = \<lambda>_. Some (320, 240, ''RGB24''), rgb24 = ''RGB24''\<rparr> [0xff, 0xd8] = Inr yuyv
    \<and> length yuyv = 153600 \<and> limited_range yuyv"
  by (rule jpeg_to_yuyv_frame) (simp_all only: length_replicate jpeg_decoder.simps, simp)

end
