(* ===== verification/Stream_Decoder.thy ===== *)
theory Stream_Decoder
  imports Jpeg
begin

section \<open>The cross-endpoint frame assembler\<close>

text \<open>
  Model of \<open>crates/handycam-core/src/stream.rs\<close>: the state machine that joins boundary
  packets (endpoint 0x81) and video packets (endpoint 0x82) into camera records and turns
  each completed record into a JPEG frame.
\<close>

subsection \<open>State and packets\<close>

definition DEFAULT_MAX_RECORD_SIZE :: nat where
  "DEFAULT_MAX_RECORD_SIZE = 256 * 1024"

datatype endpoint = Boundary | Video

record endpoint_packet =
  ep_endpoint :: endpoint
  ep_data :: bytes

record compressed_frame =
  fr_sequence :: u64
  timestamp_11bit_ms :: u16
  timestamp_unwrapped_ms :: u64
  timestamp_delta_to_next_ms :: u16
  fr_flags :: u8
  fr_jpeg :: bytes

record pending_record =
  pr_timestamp :: u16
  unwrapped_timestamp :: u64
  pr_flags :: u8
  pr_entropy :: bytes

datatype stream_decode_error =
    RecordTooLarge nat
  | FrameConversion frame_conversion_error

record stream_decoder =
  boundary_pending :: bool
  current :: "pending_record option"
  discard_first_record :: bool
  next_sequence :: u64
  max_record_size :: nat

definition decoder_new :: stream_decoder where
  "decoder_new =
     \<lparr>boundary_pending = False, current = None, discard_first_record = True,
      next_sequence = 0, max_record_size = DEFAULT_MAX_RECORD_SIZE\<rparr>"

definition with_max_record_size :: "nat \<Rightarrow> stream_decoder" where
  "with_max_record_size maximum = decoder_new\<lparr>max_record_size := maximum\<rparr>"

definition decoder_reset :: "stream_decoder \<Rightarrow> stream_decoder" where
  "decoder_reset s =
     s\<lparr>boundary_pending := False, current := None, discard_first_record := True,
       next_sequence := 0\<rparr>"

subsection \<open>One packet\<close>

definition has_header_prefix :: "bytes \<Rightarrow> bool" where
  "has_header_prefix data \<longleftrightarrow> length data \<ge> 8 \<and> take 6 data = replicate 6 0xff"

definition header_timestamp :: "bytes \<Rightarrow> u16" where
  "header_timestamp data = push_bit 8 (ucast (data ! 6 AND 0x07)) OR ucast (data ! 7)"

definition header_flags :: "bytes \<Rightarrow> u8" where
  "header_flags data = data ! 6 AND 0xf8"

text \<open>\<open>timestamp.wrapping_sub(record.timestamp) & 0x07ff\<close>.\<close>

definition timestamp_delta :: "u16 \<Rightarrow> u16 \<Rightarrow> u16" where
  "timestamp_delta timestamp earlier = (timestamp - earlier) AND 0x07ff"

text \<open>
  \<open>push_video\<close> returns the result and the new state; the state of the error returns is
  the one the code leaves behind (the \<open>?\<close> on \<open>reconstruct_jpeg\<close> comes after the new
  record has been stored).
\<close>

definition push_video ::
  "stream_decoder \<Rightarrow> bytes
   \<Rightarrow> (stream_decode_error + compressed_frame option) \<times> stream_decoder" where
  "push_video s data =
     (if has_header_prefix data \<and> boundary_pending s then
        (let s = s\<lparr>boundary_pending := False\<rparr>;
             timestamp = header_timestamp data;
             flags = header_flags data;
             finished = current s;
             next_unwrapped =
               (case finished of
                  None \<Rightarrow> 0
                | Some r \<Rightarrow>
                    unwrapped_timestamp r + ucast (timestamp_delta timestamp (pr_timestamp r)));
             s = s\<lparr>current := Some
                   \<lparr>pr_timestamp = timestamp,
                    unwrapped_timestamp =
                      (if discard_first_record s then 0 else next_unwrapped),
                    pr_flags = flags,
                    pr_entropy = drop 8 data\<rparr>\<rparr>
         in case finished of
              Some r \<Rightarrow>
                if discard_first_record s then
                  (Inr None,
                   s\<lparr>discard_first_record := False,
                     current := map_option (\<lambda>c. c\<lparr>unwrapped_timestamp := 0\<rparr>) (current s)\<rparr>)
                else
                  (case reconstruct_jpeg (pr_entropy r) of
                     Inl e \<Rightarrow> (Inl (FrameConversion e), s)
                   | Inr jpeg \<Rightarrow>
                       (Inr (Some
                          \<lparr>fr_sequence = next_sequence s,
                           timestamp_11bit_ms = pr_timestamp r,
                           timestamp_unwrapped_ms = unwrapped_timestamp r,
                           timestamp_delta_to_next_ms =
                             timestamp_delta timestamp (pr_timestamp r),
                           fr_flags = pr_flags r,
                           fr_jpeg = jpeg\<rparr>),
                        s\<lparr>next_sequence := next_sequence s + 1\<rparr>))
            | None \<Rightarrow> (Inr None, s))
      else
        (case current s of
           Some r \<Rightarrow>
             if length (pr_entropy r) + length data > max_record_size s then
               (Inl (RecordTooLarge (max_record_size s)),
                s\<lparr>current := None, boundary_pending := False, discard_first_record := True\<rparr>)
             else
               (Inr None, s\<lparr>current := Some (r\<lparr>pr_entropy := pr_entropy r @ data\<rparr>)\<rparr>)
         | None \<Rightarrow> (Inr None, s)))"

definition is_boundary_mark :: "bytes \<Rightarrow> bool" where
  "is_boundary_mark data \<longleftrightarrow> (case data of [] \<Rightarrow> False | byte # _ \<Rightarrow> byte AND 0x08 \<noteq> 0)"

definition push_packet ::
  "stream_decoder \<Rightarrow> endpoint_packet
   \<Rightarrow> (stream_decode_error + compressed_frame option) \<times> stream_decoder" where
  "push_packet s packet =
     (case ep_endpoint packet of
        Boundary \<Rightarrow>
          (Inr None,
           if is_boundary_mark (ep_data packet) then s\<lparr>boundary_pending := True\<rparr> else s)
      | Video \<Rightarrow> push_video s (ep_data packet))"

lemma reconstruct_jpeg_nonzero:
  "e \<noteq> [] \<Longrightarrow> last e \<noteq> 0 \<Longrightarrow> reconstruct_jpeg e = Inr (JPEG_HEADER @ stuff_bytes e @ [0xff, 0xd9])"
  using reconstruct_jpeg_eq [of e e 0] by simp

subsection \<open>Runs of the decoder\<close>

text \<open>The visible results of a packet: an error or a frame, nothing otherwise.\<close>

primrec visible :: "'e + 'a option \<Rightarrow> ('e + 'a) list" where
  "visible (Inl e) = [Inl e]"
| "visible (Inr x) = (case x of None \<Rightarrow> [] | Some a \<Rightarrow> [Inr a])"

fun push_packets ::
  "stream_decoder \<Rightarrow> endpoint_packet list
   \<Rightarrow> (stream_decode_error + compressed_frame) list \<times> stream_decoder" where
  "push_packets s [] = ([], s)"
| "push_packets s (p # ps) =
     (case push_packet s p of (r, s') \<Rightarrow>
      case push_packets s' ps of (rs, s'') \<Rightarrow> (visible r @ rs, s''))"

subsection \<open>Specification: records of a packet sequence\<close>

text \<open>
  What the packet sequence means, independently of the decoder's state: \<open>framing b ps\<close>
  splits \<open>ps\<close> into the bytes before the first record start and the list of records
  (timestamp, flags, payload). A record starts at a video packet with the header prefix when
  a boundary mark has come since the last start (\<open>b\<close> says whether one has come already).
\<close>

type_synonym camera_record = "u16 \<times> u8 \<times> bytes"

fun framing :: "bool \<Rightarrow> endpoint_packet list \<Rightarrow> bytes \<times> camera_record list" where
  "framing b [] = ([], [])"
| "framing b (p # ps) =
     (case ep_endpoint p of
        Boundary \<Rightarrow> framing (b \<or> is_boundary_mark (ep_data p)) ps
      | Video \<Rightarrow>
          let data = ep_data p
          in if has_header_prefix data \<and> b then
               (case framing False ps of (tail, rs) \<Rightarrow>
                  ([], (header_timestamp data, header_flags data, drop 8 data @ tail) # rs))
             else (case framing b ps of (tail, rs) \<Rightarrow> (data @ tail, rs)))"

definition camera_records :: "endpoint_packet list \<Rightarrow> camera_record list" where
  "camera_records ps = snd (framing False ps)"

text \<open>
  The outcomes of a list of consecutive records: each record but the last becomes a frame
  with the next sequence number, its position on the unwrapped timeline and the distance to
  the next record, or a conversion error when its payload is empty.
\<close>

fun outcomes_of ::
  "u64 \<Rightarrow> u64 \<Rightarrow> camera_record list \<Rightarrow> (stream_decode_error + compressed_frame) list"
  where
  "outcomes_of n t ((ts, fl, payload) # (ts', r) # rs) =
     (let delta = timestamp_delta ts' ts; t' = t + ucast delta
      in case reconstruct_jpeg payload of
           Inl e \<Rightarrow> Inl (FrameConversion e) # outcomes_of n t' ((ts', r) # rs)
         | Inr jpeg \<Rightarrow>
             Inr \<lparr>fr_sequence = n, timestamp_11bit_ms = ts, timestamp_unwrapped_ms = t,
                  timestamp_delta_to_next_ms = delta, fr_flags = fl, fr_jpeg = jpeg\<rparr>
             # outcomes_of (n + 1) t' ((ts', r) # rs))"
| "outcomes_of n t _ = []"

subsection \<open>The decoder implements the specification\<close>

definition decoder_inv :: "stream_decoder \<Rightarrow> bool" where
  "decoder_inv s \<longleftrightarrow> (current s = None \<longrightarrow> discard_first_record s)"

text \<open>The records still to be completed in a state, given the packets to come.\<close>

definition pending_records :: "stream_decoder \<Rightarrow> endpoint_packet list \<Rightarrow> camera_record list" where
  "pending_records s ps =
     (case framing (boundary_pending s) ps of (tail, rs) \<Rightarrow>
        (case current s of
           None \<Rightarrow> rs
         | Some r \<Rightarrow> (pr_timestamp r, pr_flags r, pr_entropy r @ tail) # rs))"

definition expected ::
  "stream_decoder \<Rightarrow> endpoint_packet list \<Rightarrow> (stream_decode_error + compressed_frame) list"
  where
  "expected s ps =
     (case current s of
        None \<Rightarrow> outcomes_of (next_sequence s) 0 (tl (pending_records s ps))
      | Some r \<Rightarrow>
          if discard_first_record s
          then outcomes_of (next_sequence s) 0 (tl (pending_records s ps))
          else outcomes_of (next_sequence s) (unwrapped_timestamp r) (pending_records s ps))"

definition fits :: "nat \<Rightarrow> camera_record list \<Rightarrow> bool" where
  "fits m rs \<longleftrightarrow> (\<forall>(_, _, payload) \<in> set rs. length payload \<le> m)"

lemma fits_simps [simp]:
  "fits m []"
  "fits m ((ts, fl, payload) # rs) \<longleftrightarrow> length payload \<le> m \<and> fits m rs"
  by (auto simp: fits_def)

lemma push_packet_expected:
  assumes "decoder_inv s" and "fits (max_record_size s) (pending_records s (p # ps))"
    and "push_packet s p = (r, s')"
  shows "expected s (p # ps) = visible r @ expected s' ps \<and> decoder_inv s'
    \<and> max_record_size s' = max_record_size s \<and> fits (max_record_size s') (pending_records s' ps)"
proof (cases "ep_endpoint p")
  case Boundary
  with assms show ?thesis
    by (cases "is_boundary_mark (ep_data p)"; cases "boundary_pending s")
      (auto simp: push_packet_def expected_def pending_records_def decoder_inv_def split: option.splits prod.splits)
next
  case Video
  show ?thesis
  proof (cases "has_header_prefix (ep_data p) \<and> boundary_pending s")
    case True
    show ?thesis
    proof (cases "current s")
      case None
      with assms Video True show ?thesis
        by (auto simp: push_packet_def push_video_def expected_def pending_records_def decoder_inv_def
          Let_def split: prod.splits if_splits)
    next
      case (Some c)
      with assms Video True show ?thesis
        by (auto simp: push_packet_def push_video_def expected_def pending_records_def decoder_inv_def
          Let_def split: prod.splits if_splits sum.splits)
    qed
  next
    case False
    with assms Video show ?thesis
      by (auto simp: push_packet_def push_video_def expected_def pending_records_def decoder_inv_def
          Let_def split: prod.splits if_splits option.splits)
  qed
qed

lemma push_packets_expected:
  "decoder_inv s \<Longrightarrow> fits (max_record_size s) (pending_records s ps) \<Longrightarrow>
   fst (push_packets s ps) = expected s ps"
proof (induction ps arbitrary: s)
  case Nil
  then show ?case
    by (simp add: expected_def pending_records_def split: option.splits)
next
  case (Cons p ps)
  obtain r s' where step: "push_packet s p = (r, s')" by fastforce
  from push_packet_expected [OF Cons.prems step] Cons.IH [of s'] step
  show ?case by (auto split: prod.splits)
qed

text \<open>A state without a current record decodes the records of the packets to come.\<close>

lemma push_packets_resync:
  assumes "current s = None" "discard_first_record s" "boundary_pending s = False"
    and "fits (max_record_size s) (camera_records ps)"
  shows "fst (push_packets s ps) = outcomes_of (next_sequence s) 0 (tl (camera_records ps))"
  using push_packets_expected [of s ps] assms
  by (simp add: decoder_inv_def expected_def pending_records_def camera_records_def case_prod_unfold)

lemma push_packet_too_large:
  assumes "push_packet s p = (Inl (RecordTooLarge k), s')"
  shows "k = max_record_size s \<and> s' = (decoder_reset s)\<lparr>next_sequence := next_sequence s\<rparr>"
  using assms
  by (auto simp: push_packet_def push_video_def decoder_reset_def Let_def
      split: endpoint.splits if_splits option.splits sum.splits)

subsection \<open>The unwrapped timeline\<close>

lemma uint_timestamp_delta: "uint (timestamp_delta a b) = (uint a - uint b) mod 2048"
proof -
  have "timestamp_delta a b = take_bit 11 (a - b)"
    by (simp add: timestamp_delta_def take_bit_eq_mask mask_numeral)
  then have "uint (timestamp_delta a b) = take_bit 11 (uint (a - b))"
    by (simp only: unsigned_take_bit_eq)
  then show ?thesis
    by (simp add: take_bit_eq_mod uint_word_ariths mod_mod_cancel)
qed

lemma uint_timestamp_step:
  "uint (t + ucast (timestamp_delta a b) :: u64) mod 2048 = (uint t + (uint a - uint b)) mod 2048"
proof -
  have "uint (ucast (timestamp_delta a b) :: u64) = take_bit LENGTH(64) (uint (timestamp_delta a b))"
    by (rule unsigned_ucast_eq)
  also have "\<dots> = (uint a - uint b) mod 2048"
    unfolding uint_timestamp_delta by (simp add: take_bit_eq_mod mod_mod_cancel mod_pos_pos_trivial
        order.strict_trans [OF pos_mod_bound])
  finally show ?thesis
    by (simp add: uint_word_ariths mod_mod_cancel mod_simps)
qed

lemma mod_detour:
  "((u - b) mod m + (c mod m - t)) mod m = (u - b + (c - t)) mod (m :: int)"
proof -
  have "((u - b) mod m + (c mod m - t)) mod m = ((u - b) mod m + (c mod m - t) mod m) mod m"
    by (simp only: mod_add_right_eq)
  also have "(c mod m - t) mod m = (c - t) mod m"
    by (simp only: mod_diff_left_eq)
  finally show ?thesis by (simp only: mod_add_eq)
qed

lemma outcomes_timeline:
  "Inr f \<in> set (outcomes_of n t ((ts, fl, payload) # rs)) \<Longrightarrow>
   (uint (timestamp_unwrapped_ms f) - uint t) mod 2048 = (uint (timestamp_11bit_ms f) - uint ts) mod 2048"
proof (induction n t "(ts, fl, payload) # rs" arbitrary: ts fl payload rs rule: outcomes_of.induct)
  case (1 n t ts fl payload ts' r rs)
  let ?t = "t + ucast (timestamp_delta ts' ts)"
  obtain fl' payload' where r: "r = (fl', payload')" by fastforce
  have later: "(uint (timestamp_unwrapped_ms f) - uint t) mod 2048 = (uint (timestamp_11bit_ms f) - uint ts) mod 2048"
    if "(uint (timestamp_unwrapped_ms f) - uint ?t) mod 2048 = (uint (timestamp_11bit_ms f) - uint ts') mod 2048"
  proof -
    have "(uint (timestamp_unwrapped_ms f) - uint t) mod 2048
        = ((uint (timestamp_unwrapped_ms f) - uint ?t) mod 2048 + (uint ?t mod 2048 - uint t)) mod 2048"
      unfolding mod_detour by simp
    also have "\<dots> = (uint (timestamp_11bit_ms f) - uint ts) mod 2048"
      unfolding that uint_timestamp_step mod_detour by simp
    finally show ?thesis .
  qed
  show ?case
  proof (cases "reconstruct_jpeg payload")
    case (Inl e)
    with 1 later show ?thesis by (auto simp: Let_def r)
  next
    case (Inr jpeg)
    with 1 later show ?thesis by (auto simp: Let_def r)
  qed
qed simp_all

definition contiguous :: "compressed_frame \<Rightarrow> compressed_frame \<Rightarrow> bool" where
  "contiguous f g \<longleftrightarrow>
     fr_sequence g = fr_sequence f + 1
     \<and> timestamp_unwrapped_ms g = timestamp_unwrapped_ms f + ucast (timestamp_delta_to_next_ms f)"

lemma outcomes_contiguous:
  "outcomes_of n t rs = map Inr fs \<Longrightarrow>
   successively contiguous fs
   \<and> (fs \<noteq> [] \<longrightarrow> fr_sequence (hd fs) = n \<and> timestamp_unwrapped_ms (hd fs) = t)"
proof (induction n t rs arbitrary: fs rule: outcomes_of.induct)
  case (1 n t ts fl payload ts' r rs)
  then obtain jpeg where j: "reconstruct_jpeg payload = (Inr jpeg :: frame_conversion_error + bytes)"
    by (cases "reconstruct_jpeg payload") (auto simp: Let_def)
  with "1.prems" obtain f gs where fs: "fs = f # gs" by (auto simp: Let_def)
  have "successively contiguous gs \<and> (gs \<noteq> [] \<longrightarrow> fr_sequence (hd gs) = n + 1
      \<and> timestamp_unwrapped_ms (hd gs) = t + ucast (timestamp_delta ts' ts))"
    using "1.IH"(2) [OF refl refl j] "1.prems" j fs by (auto simp: Let_def)
  moreover have "fr_sequence f = n \<and> timestamp_unwrapped_ms f = t
      \<and> timestamp_delta_to_next_ms f = timestamp_delta ts' ts"
    using "1.prems" j fs by (auto simp: Let_def)
  ultimately show ?case
    by (cases gs) (auto simp: fs contiguous_def)
qed simp_all


subsection \<open>Reachable states\<close>

text \<open>
  The states a client reaches: it pushes packets of at most \<open>limit\<close> bytes and resets the
  decoder, in any order.
\<close>

inductive decoder_reachable :: "nat \<Rightarrow> nat \<Rightarrow> stream_decoder \<Rightarrow> bool" for maximum limit where
  start: "decoder_reachable maximum limit (with_max_record_size maximum)"
| push: "decoder_reachable maximum limit s \<Longrightarrow> length (ep_data p) \<le> limit \<Longrightarrow>
     decoder_reachable maximum limit (snd (push_packet s p))"
| reset: "decoder_reachable maximum limit s \<Longrightarrow> decoder_reachable maximum limit (decoder_reset s)"

definition entropy_size :: "stream_decoder \<Rightarrow> nat" where
  "entropy_size s = (case current s of None \<Rightarrow> 0 | Some r \<Rightarrow> length (pr_entropy r))"

lemma push_packet_inv: "decoder_inv s \<Longrightarrow> decoder_inv (snd (push_packet s p))"
  by (auto simp: push_packet_def push_video_def decoder_inv_def Let_def
      split: endpoint.splits option.splits sum.splits)

lemma push_packet_maximum [simp]: "max_record_size (snd (push_packet s p)) = max_record_size s"
  by (auto simp: push_packet_def push_video_def Let_def
      split: endpoint.splits option.splits sum.splits)

lemma push_packet_entropy_size:
  "entropy_size (snd (push_packet s p)) \<le> max (entropy_size s) (max (max_record_size s) (length (ep_data p) - 8))"
  by (auto simp: push_packet_def push_video_def entropy_size_def Let_def
      split: endpoint.splits option.splits sum.splits)

lemma decoder_reachable_bound:
  "decoder_reachable maximum limit s \<Longrightarrow>
   decoder_inv s \<and> max_record_size s = maximum \<and> entropy_size s \<le> max maximum (limit - 8)"
proof (induction rule: decoder_reachable.induct)
  case start
  show ?case by (simp add: decoder_inv_def with_max_record_size_def decoder_new_def entropy_size_def)
next
  case (push s p)
  then have "length (ep_data p) - 8 \<le> limit - 8" by simp
  with push push_packet_entropy_size [of s p] show ?case
    by (auto simp: push_packet_inv)
next
  case (reset s)
  then show ?case by (simp add: decoder_inv_def decoder_reset_def entropy_size_def)
qed

subsection \<open>Properties\<close>

text \<open>
  Property C20. The decoder implements the framing specification: as long as every record of
  the packet sequence fits the configured maximum, the frames and conversion errors it returns
  are those of the sequence's records, the first one left out, each record completed by the
  next one's header, with sequence numbers from 0 and the unwrapped timeline from 0.
\<close>
theorem decoder_refines_framing:
  assumes "fits maximum (camera_records ps)"
  shows "fst (push_packets (with_max_record_size maximum) ps) = outcomes_of 0 0 (tl (camera_records ps))"
  using push_packets_resync [of "with_max_record_size maximum" ps] assms
  by (simp add: with_max_record_size_def decoder_new_def)

definition sample_packets :: "endpoint_packet list" where
  "sample_packets =
     (let mark = \<lparr>ep_endpoint = Boundary, ep_data = [0x08]\<rparr>;
          video = (\<lambda>data. \<lparr>ep_endpoint = Video, ep_data = data\<rparr>);
          header = (\<lambda>hi lo data. video (replicate 6 0xff @ [hi, lo] @ data))
      in [video [1, 2], mark, header 0 0x10 [9], mark, header 7 0xf0 [1], video [0xff, 0],
          header 1 1 [5], mark, header 0 0x10 [3], mark, header 0 0x38 [7]])"

theorem decoder_refines_framing_witness:
  "fst (push_packets (with_max_record_size 64) sample_packets)
     = outcomes_of 0 0 (tl (camera_records sample_packets))
   \<and> length (camera_records sample_packets) = 4"
  by (rule conjI, rule decoder_refines_framing) code_simp+

text \<open>
  Property C21. The camera timeline: every returned frame carries its record's 11-bit
  timestamp, and its unwrapped position is congruent modulo 2048 to the distance of that
  timestamp from the second record's, where the timeline starts; without conversion errors
  consecutive frames have consecutive sequence numbers and each starts exactly where the one
  before it ends.
\<close>
theorem decoder_timeline:
  assumes "fits maximum (camera_records ps)"
    and "camera_records ps = r0 # (ts, fl, payload) # rs"
    and "fst (push_packets (with_max_record_size maximum) ps) = map Inr fs"
  shows "successively contiguous fs
    \<and> (\<forall>f \<in> set fs. (uint (timestamp_unwrapped_ms f)) mod 2048 = (uint (timestamp_11bit_ms f) - uint ts) mod 2048)"
proof -
  have out: "outcomes_of 0 0 ((ts, fl, payload) # rs) = map Inr fs"
    using push_packets_resync [of "with_max_record_size maximum" ps] assms
    by (simp add: with_max_record_size_def decoder_new_def)
  have "(uint (timestamp_unwrapped_ms f)) mod 2048 = (uint (timestamp_11bit_ms f) - uint ts) mod 2048"
    if "f \<in> set fs" for f
    using outcomes_timeline [of f 0 0 ts fl payload rs] that by (simp add: out)
  then show ?thesis using outcomes_contiguous [OF out] by blast
qed

theorem decoder_timeline_witness:
  "\<exists>fs. length fs = 2 \<and> fst (push_packets (with_max_record_size 64) sample_packets) = map Inr fs
     \<and> successively contiguous fs
     \<and> (\<forall>f \<in> set fs. uint (timestamp_unwrapped_ms f) mod 2048 = (uint (timestamp_11bit_ms f) - uint (0x7f0 :: u16)) mod 2048)"
proof -
  let ?out = "fst (push_packets (with_max_record_size 64) sample_packets)"
  have recs: "camera_records sample_packets
      = [(0x010, 0, [9]), (0x7f0, 0, [1, 0xff, 0] @ replicate 6 0xff @ [1, 1, 5]), (0x010, 0, [3]), (0x038, 0, [7])]"
    by code_simp
  have fits: "fits 64 (camera_records sample_packets)" by (simp add: recs)
  have "?out = outcomes_of 0 0 (tl (camera_records sample_packets))"
    using push_packets_resync [of "with_max_record_size 64" sample_packets] fits
    by (simp add: with_max_record_size_def decoder_new_def)
  then obtain f g where out: "?out = map Inr [f, g]"
    by (simp add: recs reconstruct_jpeg_nonzero Let_def)
  show ?thesis
    using decoder_timeline [OF fits recs out] out by (intro exI [of _ "[f, g]"]) simp
qed

text \<open>
  Property C23. An oversized record costs only itself: the error reports the configured
  maximum, and from the next packet on the decoder frames the rest of the stream as a new
  decoder would, continuing its sequence numbers.
\<close>
theorem oversized_record_resyncs:
  assumes "push_packet s p = (Inl (RecordTooLarge k), s')"
    and "fits (max_record_size s) (camera_records ps)"
  shows "k = max_record_size s
    \<and> fst (push_packets s' ps) = outcomes_of (next_sequence s) 0 (tl (camera_records ps))"
  using push_packet_too_large [OF assms(1)] assms(2) push_packets_resync [of s' ps]
  by (simp add: decoder_reset_def)

theorem oversized_record_resyncs_witness:
  "fst (push_packets (snd (push_packet
       \<lparr>boundary_pending = True, current = Some \<lparr>pr_timestamp = 7, unwrapped_timestamp = 40, pr_flags = 0,
          pr_entropy = replicate 60 1\<rparr>, discard_first_record = False, next_sequence = 5, max_record_size = 64\<rparr>
       \<lparr>ep_endpoint = Video, ep_data = [1, 2, 3, 4, 5]\<rparr>)) sample_packets)
     = outcomes_of 5 0 (tl (camera_records sample_packets))"
  (is "fst (push_packets (snd (push_packet ?s ?p)) _) = _")
proof -
  have e: "push_packet ?s ?p = (Inl (RecordTooLarge 64), snd (push_packet ?s ?p))" by code_simp
  have f: "fits (max_record_size ?s) (camera_records sample_packets)" by code_simp
  show ?thesis using oversized_record_resyncs [OF e f] by simp
qed

text \<open>
  Property C30. In every state that a client can reach by packets of at most \<open>limit\<close> bytes
  and resets, the decoder buffers at most the configured maximum or one packet's payload,
  whichever is larger, and a decoder that waits for its first record has none buffered.
\<close>
theorem decoder_memory_bound:
  assumes "decoder_reachable maximum limit s"
  shows "entropy_size s \<le> max maximum (limit - 8) \<and> (current s = None \<longrightarrow> discard_first_record s)"
  using decoder_reachable_bound [OF assms] by (simp add: decoder_inv_def)


theorem decoder_memory_bound_witness:
  "\<exists>s. decoder_reachable 4 768 s \<and> entropy_size s = 2 \<and> entropy_size s \<le> max 4 (768 - 8)"
proof -
  let ?s = "snd (push_packet (snd (push_packet (with_max_record_size 4)
      \<lparr>ep_endpoint = Boundary, ep_data = [0x08]\<rparr>))
      \<lparr>ep_endpoint = Video, ep_data = replicate 6 0xff @ [0, 1, 2, 3]\<rparr>)"
  have "decoder_reachable 4 768 ?s"
    by (rule decoder_reachable.push [OF decoder_reachable.push [OF decoder_reachable.start]]) simp_all
  moreover have "is_boundary_mark [0x08]" "has_header_prefix (replicate 6 0xff @ [0, 1, 2, 3])"
    by code_simp+
  then have "entropy_size ?s = 2"
    by (simp add: push_packet_def push_video_def entropy_size_def with_max_record_size_def decoder_new_def Let_def)
  ultimately show ?thesis using decoder_memory_bound [of 4 768 ?s] by blast
qed

end
