(* ===== verification/Sink.thy ===== *)
theory Sink
  imports Stream_Decoder
begin

section \<open>The output worker\<close>

text \<open>
  Model of \<open>crates/handycam-cli/src/sink.rs\<close>: the thread that takes frames from the channel
  and writes them to standard output or to a V4L2 output node, and the statuses it sends.
  The frames are those the channel delivers until its sender is dropped. Standard output,
  the \<open>v4l\<close> crate and the JPEG decoder are parameters.
\<close>

datatype sink_target = Stdout | V4l2 string

datatype sink_status =
    SinkReady
  | SinkClosed
  | SinkFailed string

text \<open>An \<open>io::Error\<close>: whether its kind is \<open>BrokenPipe\<close>, and its text.\<close>

datatype sink_io_error = BrokenPipe string | OtherIo string

type_synonym fourcc = string

datatype sink_error =
    SinkConversion frame_conversion_error
  | SinkIo sink_io_error
  | NotOutputDevice
  | FormatRejected u32 u32 fourcc
  | ShortWrite nat nat

definition sink_io :: "(sink_io_error + 'a) \<times> 'w \<Rightarrow> (sink_error + 'a) \<times> 'w" where
  "sink_io r = (case r of (x, w) \<Rightarrow> (map_sum SinkIo (\<lambda>a. a) x, w))"

definition sink_bind ::
  "(sink_error + 'a) \<times> 'w \<Rightarrow> ('a \<Rightarrow> 'w \<Rightarrow> (sink_error + 'b) \<times> 'w) \<Rightarrow> (sink_error + 'b) \<times> 'w" where
  "sink_bind r k = (case r of (Inl e, w) \<Rightarrow> (Inl e, w) | (Inr a, w) \<Rightarrow> k a w)"

definition frame_data ::
  "jpeg_decoder \<Rightarrow> compressed_frame \<Rightarrow> output_format \<Rightarrow> frame_conversion_error + bytes" where
  "frame_data decoder frame format =
     (case format of Mjpeg \<Rightarrow> Inr (fr_jpeg frame) | Yuyv \<Rightarrow> jpeg_to_yuyv decoder (fr_jpeg frame))"

definition converted ::
  "jpeg_decoder \<Rightarrow> compressed_frame \<Rightarrow> output_format \<Rightarrow> 'w \<Rightarrow> (sink_error + bytes) \<times> 'w" where
  "converted decoder frame format w = (map_sum SinkConversion (\<lambda>a. a) (frame_data decoder frame format), w)"

subsection \<open>Standard output\<close>

record 'w stdout_ops =
  so_write_all :: "bytes \<Rightarrow> 'w \<Rightarrow> (sink_io_error + unit) \<times> 'w"
  so_flush :: "'w \<Rightarrow> (sink_io_error + unit) \<times> 'w"
  so_status :: "sink_status \<Rightarrow> 'w \<Rightarrow> 'w"

fun stdout_frames ::
  "jpeg_decoder \<Rightarrow> 'w stdout_ops \<Rightarrow> output_format \<Rightarrow> compressed_frame list \<Rightarrow> 'w
   \<Rightarrow> (sink_error + unit) \<times> 'w" where
  "stdout_frames decoder ops format [] w = sink_io (so_flush ops w)"
| "stdout_frames decoder ops format (frame # frames) w =
     sink_bind (converted decoder frame format w) (\<lambda>data w.
     sink_bind (sink_io (so_write_all ops data w)) (\<lambda>_ w.
     sink_bind (sink_io (so_flush ops w)) (\<lambda>_ w.
     stdout_frames decoder ops format frames w)))"

definition run_stdout ::
  "jpeg_decoder \<Rightarrow> 'w stdout_ops \<Rightarrow> output_format \<Rightarrow> compressed_frame list \<Rightarrow> 'w
   \<Rightarrow> (sink_error + unit) \<times> 'w" where
  "run_stdout decoder ops format frames w =
     stdout_frames decoder ops format frames (so_status ops SinkReady w)"

subsection \<open>V4L2 output\<close>

datatype colorspace = ColorJPEG | ColorSMPTE170M

datatype quantization = FullRange | LimitedRange

record v4l_format =
  vf_width :: u32
  vf_height :: u32
  vf_fourcc :: fourcc
  vf_stride :: u32
  vf_size :: u32
  vf_colorspace :: "colorspace option"
  vf_quantization :: "quantization option"

text \<open>
  The device: opening it, its capability flags, the format and parameters it accepts for a
  request, and a write, which returns how many bytes it took.
\<close>

record 'w v4l_ops =
  vo_open :: "string \<Rightarrow> 'w \<Rightarrow> (sink_io_error + unit) \<times> 'w"
  vo_query_caps :: "'w \<Rightarrow> (sink_io_error + u32) \<times> 'w"
  vo_set_format :: "v4l_format \<Rightarrow> 'w \<Rightarrow> (sink_io_error + v4l_format) \<times> 'w"
  vo_set_params :: "u32 \<Rightarrow> 'w \<Rightarrow> (sink_io_error + unit) \<times> 'w"
  vo_write :: "bytes \<Rightarrow> 'w \<Rightarrow> (sink_io_error + nat) \<times> 'w"
  vo_status :: "sink_status \<Rightarrow> 'w \<Rightarrow> 'w"

definition VIDEO_OUTPUT :: u32 where
  "VIDEO_OUTPUT = 0x00000002"

definition READ_WRITE :: u32 where
  "READ_WRITE = 0x01000000"

definition output_fourcc :: "output_format \<Rightarrow> fourcc" where
  "output_fourcc format = (case format of Mjpeg \<Rightarrow> ''MJPG'' | Yuyv \<Rightarrow> ''YUYV'')"

text \<open>\<open>Format::new\<close> leaves the fields that are not given at zero and at their defaults.\<close>

definition requested_format :: "output_format \<Rightarrow> v4l_format" where
  "requested_format format =
     (let requested = \<lparr>vf_width = WIDTH, vf_height = HEIGHT, vf_fourcc = output_fourcc format,
            vf_stride = 0, vf_size = 0, vf_colorspace = None, vf_quantization = None\<rparr>
      in case format of
           Mjpeg \<Rightarrow> requested\<lparr>vf_size := 256 * 1024, vf_colorspace := Some ColorJPEG,
             vf_quantization := Some FullRange\<rparr>
         | Yuyv \<Rightarrow> requested\<lparr>vf_stride := WIDTH * 2, vf_size := WIDTH * HEIGHT * 2,
             vf_colorspace := Some ColorSMPTE170M, vf_quantization := Some LimitedRange\<rparr>)"

fun v4l2_frames ::
  "jpeg_decoder \<Rightarrow> 'w v4l_ops \<Rightarrow> output_format \<Rightarrow> compressed_frame list \<Rightarrow> 'w
   \<Rightarrow> (sink_error + unit) \<times> 'w" where
  "v4l2_frames decoder ops format [] w = (Inr (), w)"
| "v4l2_frames decoder ops format (frame # frames) w =
     sink_bind (converted decoder frame format w) (\<lambda>data w.
     sink_bind (sink_io (vo_write ops data w)) (\<lambda>written w.
     if written \<noteq> length data then (Inl (ShortWrite written (length data)), w)
     else v4l2_frames decoder ops format frames w))"

definition run_v4l2 ::
  "jpeg_decoder \<Rightarrow> 'w v4l_ops \<Rightarrow> string \<Rightarrow> output_format \<Rightarrow> compressed_frame list \<Rightarrow> 'w
   \<Rightarrow> (sink_error + unit) \<times> 'w" where
  "run_v4l2 decoder ops path format frames w =
     sink_bind (sink_io (vo_open ops path w)) (\<lambda>_ w.
     sink_bind (sink_io (vo_query_caps ops w)) (\<lambda>capabilities w.
     let required = VIDEO_OUTPUT OR READ_WRITE
     in if capabilities AND required \<noteq> required then (Inl NotOutputDevice, w)
        else
          sink_bind (sink_io (vo_set_format ops (requested_format format) w)) (\<lambda>accepted w.
          if vf_width accepted \<noteq> WIDTH \<or> vf_height accepted \<noteq> HEIGHT
             \<or> vf_fourcc accepted \<noteq> output_fourcc format
          then (Inl (FormatRejected (vf_width accepted) (vf_height accepted) (vf_fourcc accepted)), w)
          else
            sink_bind (sink_io (vo_set_params ops FPS w)) (\<lambda>_ w.
            v4l2_frames decoder ops format frames (vo_status ops SinkReady w)))))"

subsection \<open>The thread\<close>

text \<open>The closing status of the worker; \<open>message\<close> is the text of an error.\<close>

definition closing_status :: "(sink_error \<Rightarrow> string) \<Rightarrow> sink_error + unit \<Rightarrow> sink_status" where
  "closing_status message result =
     (case result of
        Inr _ \<Rightarrow> SinkClosed
      | Inl (SinkIo (BrokenPipe _)) \<Rightarrow> SinkClosed
      | Inl error \<Rightarrow> SinkFailed (message error))"

definition sink_worker ::
  "(sink_error \<Rightarrow> string) \<Rightarrow> jpeg_decoder \<Rightarrow> 'w stdout_ops \<Rightarrow> 'w v4l_ops \<Rightarrow> sink_target \<Rightarrow> output_format
   \<Rightarrow> compressed_frame list \<Rightarrow> 'w \<Rightarrow> 'w" where
  "sink_worker message decoder out device target format frames w =
     (case target of
        Stdout \<Rightarrow>
          (case run_stdout decoder out format frames w of
             (result, w) \<Rightarrow> so_status out (closing_status message result) w)
      | V4l2 path \<Rightarrow>
          (case run_v4l2 decoder device path format frames w of
             (result, w) \<Rightarrow> vo_status device (closing_status message result) w))"

lemma sink_bind_simps [simp]:
  "sink_bind (Inl e, w) k = (Inl e, w)" "sink_bind (Inr a, w) k = k a w"
  by (simp_all add: sink_bind_def)

lemma sink_io_simps [simp]:
  "sink_io (Inl e, w) = (Inl (SinkIo e), w)" "sink_io (Inr a, w) = (Inr a, w)"
  by (simp_all add: sink_io_def)

lemma converted_simps [simp]:
  "frame_data decoder frame format = Inl e \<Longrightarrow> converted decoder frame format w = (Inl (SinkConversion e), w)"
  "frame_data decoder frame format = Inr d \<Longrightarrow> converted decoder frame format w = (Inr d, w)"
  by (simp_all add: converted_def)

lemma closing_status_cases:
  "closing_status message (Inr u) = SinkClosed"
  "closing_status message (Inl (SinkConversion e)) = SinkFailed (message (SinkConversion e))"
  "closing_status message r \<noteq> SinkReady"
  by (auto simp: closing_status_def split: sum.split sink_error.split sink_io_error.split)

subsection \<open>Frames on a pipe\<close>

text \<open>A reader that takes everything, and the status channel.\<close>

record pipe =
  pi_bytes :: bytes
  pi_statuses :: "sink_status list"

definition pipe_ops :: "pipe stdout_ops" where
  "pipe_ops =
     \<lparr>so_write_all = (\<lambda>data p. (Inr (), p\<lparr>pi_bytes := pi_bytes p @ data\<rparr>)),
      so_flush = (\<lambda>p. (Inr (), p)),
      so_status = (\<lambda>s p. p\<lparr>pi_statuses := pi_statuses p @ [s]\<rparr>)\<rparr>"

text \<open>The data of the frames before the first that cannot be converted, and that error.\<close>

fun convertible :: "(frame_conversion_error + bytes) list \<Rightarrow> bytes \<times> frame_conversion_error option" where
  "convertible [] = ([], None)"
| "convertible (Inl e # rs) = ([], Some e)"
| "convertible (Inr d # rs) = (case convertible rs of (ds, e) \<Rightarrow> (d @ ds, e))"

lemma stdout_frames_pipe:
  "stdout_frames decoder pipe_ops format frames p =
     (case convertible (map (\<lambda>f. frame_data decoder f format) frames) of
        (data, e) \<Rightarrow>
          ((case e of None \<Rightarrow> Inr () | Some e \<Rightarrow> Inl (SinkConversion e)), p\<lparr>pi_bytes := pi_bytes p @ data\<rparr>))"
proof (induction frames arbitrary: p)
  case Nil
  then show ?case by (simp add: pipe_ops_def)
next
  case (Cons f frames)
  show ?case
  proof (cases "frame_data decoder f format")
    case (Inl e)
    then show ?thesis by simp
  next
    case (Inr d)
    then show ?thesis using Cons.IH by (simp add: pipe_ops_def split: prod.split)
  qed
qed

lemma stdout_worker_pipe:
  "sink_worker message decoder pipe_ops device Stdout format frames \<lparr>pi_bytes = [], pi_statuses = []\<rparr> =
     (case convertible (map (\<lambda>f. frame_data decoder f format) frames) of
        (data, e) \<Rightarrow> \<lparr>pi_bytes = data, pi_statuses = [SinkReady,
          (case e of None \<Rightarrow> SinkClosed | Some e \<Rightarrow> SinkFailed (message (SinkConversion e)))]\<rparr>)"
proof -
  have status: "so_status pipe_ops s p = p\<lparr>pi_statuses := pi_statuses p @ [s]\<rparr>" for s p
    by (simp add: pipe_ops_def)
  show ?thesis
    by (simp add: sink_worker_def run_stdout_def stdout_frames_pipe status closing_status_cases
        split: prod.split option.split)
qed

text \<open>
  On a pipe whose reader takes everything, the worker announces that it is ready,
  writes exactly the data of the frames in order, without any framing, up to the first frame
  that cannot be converted, and then reports once that it closed or that this conversion
  failed.
\<close>

theorem stdout_worker_writes_frames:
  "sink_worker message decoder pipe_ops device Stdout format frames \<lparr>pi_bytes = [], pi_statuses = []\<rparr> =
     (case convertible (map (\<lambda>f. frame_data decoder f format) frames) of
        (data, e) \<Rightarrow> \<lparr>pi_bytes = data, pi_statuses = [SinkReady,
          (case e of None \<Rightarrow> SinkClosed | Some e \<Rightarrow> SinkFailed (message (SinkConversion e)))]\<rparr>)"
  by (rule stdout_worker_pipe)

lemma convertible_mjpeg:
  "convertible (map (\<lambda>f. frame_data decoder f Mjpeg) frames) = (concat (map fr_jpeg frames), None)"
  by (induction frames) (simp_all add: frame_data_def)

subsection \<open>Frames on a device\<close>

datatype sink_log =
    FormatSet v4l_format
  | Wrote "bytes \<times> nat"
  | StatusSent sink_status

text \<open>The device with a log of the formats it accepted, the writes and the statuses.\<close>

definition device_log :: "'w v4l_ops \<Rightarrow> ('w \<times> sink_log list) v4l_ops" where
  "device_log ops =
     \<lparr>vo_open = (\<lambda>path. keep_log (vo_open ops path)), vo_query_caps = keep_log (vo_query_caps ops),
      vo_set_format = (\<lambda>f (w, l). case vo_set_format ops f w of
         (Inr a, w) \<Rightarrow> (Inr a, w, l @ [FormatSet a]) | (Inl e, w) \<Rightarrow> (Inl e, w, l)),
      vo_set_params = (\<lambda>fps. keep_log (vo_set_params ops fps)),
      vo_write = (\<lambda>d (w, l). case vo_write ops d w of
         (Inr n, w) \<Rightarrow> (Inr n, w, l @ [Wrote (d, n)]) | (Inl e, w) \<Rightarrow> (Inl e, w, l)),
      vo_status = (\<lambda>s (w, l). (vo_status ops s w, l @ [StatusSent s]))\<rparr>"

text \<open>
  What the writes for some frames may be: each is the data of its frame, all but the last
  are complete, and the run ends with success after the last frame or with the error of the
  first frame that was not written completely.
\<close>

fun frames_written ::
  "(compressed_frame \<Rightarrow> frame_conversion_error + bytes) \<Rightarrow> compressed_frame list \<Rightarrow> (bytes \<times> nat) list
   \<Rightarrow> sink_error + unit \<Rightarrow> bool" where
  "frames_written data [] ws r \<longleftrightarrow> ws = [] \<and> r = Inr ()"
| "frames_written data (f # fs) [] r \<longleftrightarrow>
     (case data f of Inl e \<Rightarrow> r = Inl (SinkConversion e) | Inr _ \<Rightarrow> \<exists>e. r = Inl (SinkIo e))"
| "frames_written data (f # fs) ((d, n) # ws) r \<longleftrightarrow>
     data f = Inr d
     \<and> (if n = length d then frames_written data fs ws r
        else ws = [] \<and> r = Inl (ShortWrite n (length d)))"

lemma frames_written_complete:
  "frames_written data fs ws (Inr ()) \<Longrightarrow>
     map (\<lambda>(d, n). Inr d) ws = map data fs \<and> (\<forall>(d, n) \<in> set ws. n = length d)"
  by (induction data fs ws "Inr () :: sink_error + unit" rule: frames_written.induct)
    (auto split: sum.splits if_splits)

lemma v4l2_frames_log:
  "v4l2_frames decoder (device_log ops) format frames (w, l) = (r, w', l') \<Longrightarrow>
     \<exists>ws. l' = l @ map Wrote ws \<and> frames_written (\<lambda>f. frame_data decoder f format) frames ws r"
proof (induction frames arbitrary: w l)
  case Nil
  then show ?case by simp
next
  case (Cons f frames)
  show ?case
  proof (cases "frame_data decoder f format")
    case (Inl e)
    then show ?thesis using Cons.prems by (intro exI [of _ "[]"]) simp
  next
    case (Inr d)
    obtain n w1 where wr: "vo_write ops d w = (n, w1)" by fastforce
    then consider e where "n = Inl e" | k where "n = Inr k" "k = length d" | k where "n = Inr k" "k \<noteq> length d"
      by (cases n) auto
    then show ?thesis
    proof cases
      case 1
      then show ?thesis
        using Cons.prems Inr wr by (intro exI [of _ "[]"]) (auto simp: device_log_def)
    next
      case 2
      then have "v4l2_frames decoder (device_log ops) format frames (w1, l @ [Wrote (d, length d)]) = (r, w', l')"
        using Cons.prems Inr wr by (simp add: device_log_def)
      from Cons.IH [OF this] obtain ws where
        "l' = (l @ [Wrote (d, length d)]) @ map Wrote ws"
        "frames_written (\<lambda>f. frame_data decoder f format) frames ws r" by auto
      then show ?thesis using Inr by (intro exI [of _ "(d, length d) # ws"]) simp
    next
      case 3
      then show ?thesis
        using Cons.prems Inr wr by (intro exI [of _ "[(d, k)]"]) (auto simp: device_log_def)
    qed
  qed
qed

text \<open>
  Property C29. Whatever the device answers, the worker writes no frame before the device has
  accepted exactly the camera's size and the requested pixel format and the worker has
  reported that it is ready; the writes are the data of the frames in order, and the worker
  stops at the first that the device does not take completely; its last and only other
  status says how it ended.
\<close>

theorem v4l2_worker_log:
  assumes "sink_worker message decoder out (device_log ops) (V4l2 path) format frames (w, []) = (w', l)"
  shows "\<exists>r before. l = before @ [StatusSent (closing_status message r)] \<and>
    (before = [] \<and> isl r
     \<or> (\<exists>accepted. before = [FormatSet accepted] \<and> isl r)
     \<or> (\<exists>accepted ws. before = [FormatSet accepted, StatusSent SinkReady] @ map Wrote ws
          \<and> vf_width accepted = 320 \<and> vf_height accepted = 240 \<and> vf_fourcc accepted = output_fourcc format
          \<and> frames_written (\<lambda>f. frame_data decoder f format) frames ws r))"
proof -
  let ?ops = "device_log ops"
  let ?data = "\<lambda>f. frame_data decoder f format"
  obtain r w1 l1 where run: "run_v4l2 decoder ?ops path format frames (w, []) = (r, w1, l1)"
    by (metis prod_cases3)
  have l: "l = l1 @ [StatusSent (closing_status message r)]"
    using assms run by (simp add: sink_worker_def device_log_def)
  obtain op w2 where op: "vo_open ops path w = (op, w2)" by fastforce
  obtain caps w3 where caps: "vo_query_caps ops w2 = (caps, w3)" by fastforce
  obtain acc w4 where acc: "vo_set_format ops (requested_format format) w3 = (acc, w4)" by fastforce
  obtain par w5 where par: "vo_set_params ops FPS w4 = (par, w5)" by fastforce
  have "(l1 = [] \<and> isl r) \<or> (\<exists>accepted. l1 = [FormatSet accepted] \<and> isl r)
     \<or> (\<exists>accepted ws. l1 = [FormatSet accepted, StatusSent SinkReady] @ map Wrote ws
          \<and> vf_width accepted = 320 \<and> vf_height accepted = 240 \<and> vf_fourcc accepted = output_fourcc format
          \<and> frames_written ?data frames ws r)"
  proof (cases "isl op \<or> isl caps \<or> isl acc \<or> isl par
      \<or> projr caps AND (VIDEO_OUTPUT OR READ_WRITE) \<noteq> VIDEO_OUTPUT OR READ_WRITE
      \<or> vf_width (projr acc) \<noteq> WIDTH \<or> vf_height (projr acc) \<noteq> HEIGHT
      \<or> vf_fourcc (projr acc) \<noteq> output_fourcc format")
    case True
    then show ?thesis
      using run op caps acc par
      by (cases op; cases caps; cases acc; cases par)
        (auto simp: run_v4l2_def device_log_def Let_def split: if_splits)
  next
    case False
    then obtain c a where ok: "op = Inr ()" "caps = Inr c" "acc = Inr a" "par = Inr ()"
      "c AND (VIDEO_OUTPUT OR READ_WRITE) = VIDEO_OUTPUT OR READ_WRITE"
      "vf_width a = WIDTH" "vf_height a = HEIGHT" "vf_fourcc a = output_fourcc format"
      by (cases op; cases caps; cases acc; cases par) auto
    have ready: "vo_status ?ops SinkReady (w5, [FormatSet a])
        = (vo_status ops SinkReady w5, [FormatSet a, StatusSent SinkReady])"
      by (simp add: device_log_def)
    have "v4l2_frames decoder ?ops format frames
        (vo_status ops SinkReady w5, [FormatSet a, StatusSent SinkReady]) = (r, w1, l1)"
      unfolding ready [symmetric] using run ok op caps acc par
      by (simp add: run_v4l2_def Let_def) (simp add: device_log_def)
    from v4l2_frames_log [OF this] show ?thesis
      using ok by (auto simp: WIDTH_def HEIGHT_def)
  qed
  then show ?thesis using l by blast
qed

text \<open>A device that takes at most 4 bytes at once.\<close>

definition narrow_device :: "unit v4l_ops" where
  "narrow_device =
     \<lparr>vo_open = (\<lambda>path w. (Inr (), w)), vo_query_caps = (\<lambda>w. (Inr 0x05000002, w)),
      vo_set_format = (\<lambda>f w. (Inr f, w)), vo_set_params = (\<lambda>fps w. (Inr (), w)),
      vo_write = (\<lambda>d w. (Inr (min 4 (length d)), w)), vo_status = (\<lambda>s w. w)\<rparr>"

definition no_decoder :: jpeg_decoder where
  "no_decoder = \<lparr>decode_jpeg = \<lambda>_. Inl ''none'', image_info = \<lambda>_. None, rgb24 = ''RGB24''\<rparr>"

definition frame_of :: "bytes \<Rightarrow> compressed_frame" where
  "frame_of jpeg =
     \<lparr>fr_sequence = 0, timestamp_11bit_ms = 0, timestamp_unwrapped_ms = 0,
      timestamp_delta_to_next_ms = 40, fr_flags = 0, fr_jpeg = jpeg\<rparr>"

definition closed_stdout :: "'w stdout_ops" where
  "closed_stdout =
     \<lparr>so_write_all = (\<lambda>_ w. (Inl (BrokenPipe ''closed''), w)), so_flush = (\<lambda>w. (Inr (), w)), so_status = (\<lambda>_ w. w)\<rparr>"

theorem v4l2_worker_log_witness:
  "\<exists>l r. snd (sink_worker (\<lambda>e. ''short'') no_decoder closed_stdout (device_log narrow_device) (V4l2 ''video0'') Mjpeg
      [frame_of [1, 2, 3, 4], frame_of [1, 2, 3, 4, 5], frame_of [1]] ((), [])) = l
    \<and> length l = 5 \<and> last l = StatusSent (closing_status (\<lambda>e. ''short'') r)
    \<and> last l = StatusSent (SinkFailed ''short'')"
proof -
  let ?run = "sink_worker (\<lambda>e. ''short'') no_decoder closed_stdout (device_log narrow_device) (V4l2 ''video0'') Mjpeg
      [frame_of [1, 2, 3, 4], frame_of [1, 2, 3, 4, 5], frame_of [1]] ((), [])"
  have "length (snd ?run) = 5" "last (snd ?run) = StatusSent (SinkFailed ''short'')"
    by (simp_all add: sink_worker_def run_v4l2_def device_log_def narrow_device_def requested_format_def
        VIDEO_OUTPUT_def READ_WRITE_def frame_of_def frame_data_def Let_def output_fourcc_def closing_status_def)
  moreover obtain w' l where run: "?run = (w', l)" by (cases ?run)
  moreover obtain r before where "l = before @ [StatusSent (closing_status (\<lambda>e. ''short'') r)]"
    using v4l2_worker_log [OF run] by blast
  ultimately have "snd ?run = l \<and> length l = 5 \<and> last l = StatusSent (closing_status (\<lambda>e. ''short'') r)
    \<and> last l = StatusSent (SinkFailed ''short'')"
    by (metis last_snoc snd_conv)
  then show ?thesis by (intro exI)
qed

end
