(* ===== verification/Audio_Clock.thy ===== *)
theory Audio_Clock
  imports Prelude
begin

section \<open>The device-audio clock\<close>

text \<open>
  Model of \<open>crates/handycam-core/src/audio.rs\<close>: PCM chunks positioned on a counter of
  stereo sample frames.
\<close>

subsection \<open>Model\<close>

definition AUDIO_CHANNELS :: u8 where
  "AUDIO_CHANNELS = 2"

definition AUDIO_SAMPLE_RATE_HZ :: u32 where
  "AUDIO_SAMPLE_RATE_HZ = 16000"

definition AUDIO_BYTES_PER_SAMPLE :: nat where
  "AUDIO_BYTES_PER_SAMPLE = 2"

definition AUDIO_BYTES_PER_SAMPLE_FRAME :: nat where
  "AUDIO_BYTES_PER_SAMPLE_FRAME = unat AUDIO_CHANNELS * AUDIO_BYTES_PER_SAMPLE"

definition AUDIO_SAMPLE_FRAMES_PER_USB_FRAME :: nat where
  "AUDIO_SAMPLE_FRAMES_PER_USB_FRAME = 16"

definition AUDIO_BYTES_PER_USB_FRAME :: nat where
  "AUDIO_BYTES_PER_USB_FRAME = AUDIO_SAMPLE_FRAMES_PER_USB_FRAME * AUDIO_BYTES_PER_SAMPLE_FRAME"

record audio_chunk =
  pcm :: bytes
  start_sample_frame :: u64
  sample_frames :: u32

definition start_timestamp_us :: "audio_chunk \<Rightarrow> u64" where
  "start_timestamp_us c = start_sample_frame c * 1000000 div ucast AUDIO_SAMPLE_RATE_HZ"

record audio_clock =
  next_sample_frame :: u64

definition audio_clock_new :: audio_clock where
  "audio_clock_new = \<lparr>next_sample_frame = 0\<rparr>"

definition audio_clock_reset :: "audio_clock \<Rightarrow> audio_clock" where
  "audio_clock_reset c = c\<lparr>next_sample_frame := 0\<rparr>"

datatype audio_packet_error =
    MisalignedLength nat
  | TooLarge nat

definition push_pcm ::
  "audio_clock \<Rightarrow> bytes \<Rightarrow> (audio_packet_error + audio_chunk) \<times> audio_clock" where
  "push_pcm c data =
     (if length data mod AUDIO_BYTES_PER_SAMPLE_FRAME \<noteq> 0
      then (Inl (MisalignedLength (length data)), c)
      else
        let frames = length data div AUDIO_BYTES_PER_SAMPLE_FRAME
        in if frames \<ge> 2 ^ 32 then (Inl (TooLarge (length data)), c)
           else
             (Inr \<lparr>pcm = data, start_sample_frame = next_sample_frame c,
                   sample_frames = of_nat frames\<rparr>,
              c\<lparr>next_sample_frame := next_sample_frame c + ucast (of_nat frames :: u32)\<rparr>))"

definition audio_sample_frames_for_video_delta :: "u16 \<Rightarrow> u32" where
  "audio_sample_frames_for_video_delta delta_ms = ucast delta_ms * (AUDIO_SAMPLE_RATE_HZ div 1000)"

subsection \<open>Lemmas\<close>

lemma bytes_per_sample_frame [simp]: "AUDIO_BYTES_PER_SAMPLE_FRAME = 4"
  by (simp add: AUDIO_BYTES_PER_SAMPLE_FRAME_def AUDIO_CHANNELS_def AUDIO_BYTES_PER_SAMPLE_def)

definition accepts :: "bytes \<Rightarrow> bool" where
  "accepts data \<longleftrightarrow> 4 dvd length data \<and> length data < 2 ^ 34"

lemma push_pcm_accepts:
  "accepts data \<Longrightarrow> push_pcm c data =
     (Inr \<lparr>pcm = data, start_sample_frame = next_sample_frame c,
           sample_frames = of_nat (length data div 4)\<rparr>,
      c\<lparr>next_sample_frame := next_sample_frame c + of_nat (length data div 4)\<rparr>)"
proof -
  assume acc: "accepts data"
  then have "length data div 4 < 2 ^ 32" by (auto simp: accepts_def)
  moreover from this have "(ucast (of_nat (length data div 4) :: u32) :: u64) = of_nat (length data div 4)"
    by (simp add: word_unat_eq_iff unat_of_nat)
  ultimately show ?thesis using acc
    by (auto simp: push_pcm_def accepts_def Let_def dvd_eq_mod_eq_0)
qed

lemma push_pcm_rejects:
  "\<not> accepts data \<Longrightarrow> \<exists>e. push_pcm c data = (Inl e, c)
     \<and> e = (if 4 dvd length data then TooLarge (length data) else MisalignedLength (length data))"
  by (auto simp: push_pcm_def accepts_def Let_def dvd_eq_mod_eq_0)

lemma start_timestamp_us_unat:
  "unat (start_sample_frame c) * 1000000 < 2 ^ 64 \<Longrightarrow>
   unat (start_timestamp_us c) = unat (start_sample_frame c) * 125 div 2"
  by (simp add: start_timestamp_us_def AUDIO_SAMPLE_RATE_HZ_def unat_div unat_word_ariths)

subsection \<open>Properties\<close>

text \<open>The chunks of a run of pushes.\<close>

fun push_all :: "audio_clock \<Rightarrow> bytes list \<Rightarrow> (audio_packet_error + audio_chunk) list \<times> audio_clock" where
  "push_all c [] = ([], c)"
| "push_all c (d # ds) =
     (case push_pcm c d of (r, c') \<Rightarrow> case push_all c' ds of (rs, c'') \<Rightarrow> (r # rs, c''))"

definition counted :: "bytes list \<Rightarrow> nat" where
  "counted ds = (\<Sum>d \<leftarrow> filter accepts ds. length d div 4)"

lemma counted_simps [simp]:
  "counted [] = 0"
  "counted (d # ds) = (if accepts d then length d div 4 + counted ds else counted ds)"
  by (simp_all add: counted_def)

lemma push_all_clock:
  "snd (push_all c ds) = c\<lparr>next_sample_frame := next_sample_frame c + of_nat (counted ds)\<rparr>"
proof (induction ds arbitrary: c)
  case (Cons d ds)
  then show ?case
    using push_pcm_rejects [of d c]
    by (cases "accepts d") (auto simp: push_pcm_accepts case_prod_unfold algebra_simps)
qed simp

text \<open>
  The clock counts exactly the sample frames of the accepted packets, whatever
  rejected packets come between: the packet at position \<open>i\<close> of a run is accepted if and
  only if it consists of whole stereo frames whose number fits 32 bits, and then its chunk
  carries its bytes, starts where the accepted packets before it end and counts its frames;
  otherwise the error names its length.
\<close>
theorem audio_clock_counts:
  assumes "i < length ds"
  shows "fst (push_all c ds) ! i =
      (if accepts (ds ! i)
       then Inr \<lparr>pcm = ds ! i, start_sample_frame = next_sample_frame c + of_nat (counted (take i ds)),
                 sample_frames = of_nat (length (ds ! i) div 4)\<rparr>
       else Inl (if 4 dvd length (ds ! i) then TooLarge (length (ds ! i)) else MisalignedLength (length (ds ! i))))
    \<and> snd (push_all c ds) = c\<lparr>next_sample_frame := next_sample_frame c + of_nat (counted ds)\<rparr>"
  using assms
proof (induction ds arbitrary: c i)
  case Nil
  then show ?case by simp
next
  case (Cons d ds)
  then show ?case
    using push_pcm_rejects [of d c] push_all_clock [of c "d # ds"]
    by (cases i; cases "accepts d") (auto simp: push_pcm_accepts case_prod_unfold algebra_simps)
qed

theorem audio_clock_counts_witness:
  "fst (push_all audio_clock_new [replicate 8 1, [1, 2, 3], replicate 64 0]) ! 2
     = Inr \<lparr>pcm = replicate 64 0, start_sample_frame = 2, sample_frames = 16\<rparr>"
  using audio_clock_counts [of 2 "[replicate 8 1, [1, 2, 3], replicate 64 0]" audio_clock_new]
  by (simp add: accepts_def audio_clock_new_def)

text \<open>
  Audio and video spans agree: \<open>audio_sample_frames_for_video_delta\<close> of an
  interval of \<open>d\<close> milliseconds is the number of sample frames after which the clock's
  timestamp is exactly \<open>1000 d\<close> microseconds later, as long as the timestamp does not
  overflow.
\<close>
theorem audio_span_of_video_delta:
  assumes "unat (start_sample_frame a) * 1000000 < 2 ^ 63"
    and "start_sample_frame b = start_sample_frame a + ucast (audio_sample_frames_for_video_delta d)"
  shows "unat (start_timestamp_us b) = unat (start_timestamp_us a) + 1000 * unat d"
proof -
  have d: "unat (audio_sample_frames_for_video_delta d) = 16 * unat d"
    using u16_bound [of d]
    by (simp add: audio_sample_frames_for_video_delta_def AUDIO_SAMPLE_RATE_HZ_def unat_word_ariths)
  have b: "unat (start_sample_frame b) = unat (start_sample_frame a) + 16 * unat d"
    using assms u16_bound [of d] by (simp add: unat_word_ariths d)
  have small: "unat (start_sample_frame b) * 1000000 < 2 ^ 64"
    unfolding b using assms(1) u16_bound [of d] by simp
  have "(unat (start_sample_frame a) + 16 * unat d) * 125 div 2
      = unat (start_sample_frame a) * 125 div 2 + 1000 * unat d"
    by presburger
  then show ?thesis
    using start_timestamp_us_unat [of a] start_timestamp_us_unat [OF small] assms(1) b by simp
qed

theorem audio_span_of_video_delta_witness:
  "unat (start_timestamp_us \<lparr>pcm = [], start_sample_frame = 641, sample_frames = 0\<rparr>)
     = unat (start_timestamp_us \<lparr>pcm = [], start_sample_frame = 1, sample_frames = 0\<rparr>) + 1000 * unat (40 :: u16)"
  by (rule audio_span_of_video_delta)
    (simp_all add: audio_sample_frames_for_video_delta_def AUDIO_SAMPLE_RATE_HZ_def)

end
