(* ===== verification/Media.thy ===== *)
theory Media
  imports Stream_Decoder Audio_Clock
begin

section \<open>Timed media events\<close>

text \<open>
  Model of \<open>crates/handycam-core/src/media.rs\<close>: the monotonic timestamp with its
  derived order, the validated audio format and the timed events that capture backends
  deliver.
\<close>

subsection \<open>Monotonic timestamps\<close>

datatype monotonic_timestamp = MonotonicTimestamp (as_micros: u64)

definition timestamp_ZERO :: monotonic_timestamp where
  "timestamp_ZERO = MonotonicTimestamp 0"

definition from_micros :: "u64 \<Rightarrow> monotonic_timestamp" where
  "from_micros microseconds = MonotonicTimestamp microseconds"

definition duration_since :: "monotonic_timestamp \<Rightarrow> monotonic_timestamp \<Rightarrow> u64 option" where
  "duration_since t earlier = checked_sub (as_micros t) (as_micros earlier)"

text \<open>The derived order compares the microseconds.\<close>

instantiation monotonic_timestamp :: linorder
begin

definition less_eq_monotonic_timestamp :: "monotonic_timestamp \<Rightarrow> monotonic_timestamp \<Rightarrow> bool" where
  "a \<le> b \<longleftrightarrow> as_micros a \<le> as_micros b"

definition less_monotonic_timestamp :: "monotonic_timestamp \<Rightarrow> monotonic_timestamp \<Rightarrow> bool" where
  "a < b \<longleftrightarrow> as_micros a < as_micros b"

instance
  by standard
    (auto simp: less_eq_monotonic_timestamp_def less_monotonic_timestamp_def
      monotonic_timestamp.expand)

end

lemma timestamp_le_iff [simp]: "MonotonicTimestamp a \<le> MonotonicTimestamp b \<longleftrightarrow> a \<le> b"
  by (simp add: less_eq_monotonic_timestamp_def)

lemma duration_since_Some_iff:
  "duration_since t earlier = Some d
     \<longleftrightarrow> earlier \<le> t \<and> unat d = unat (as_micros t) - unat (as_micros earlier)"
  by (auto simp: duration_since_def checked_sub_Some_iff less_eq_monotonic_timestamp_def word_le_nat_alt)

lemma duration_since_None_iff: "duration_since t earlier = None \<longleftrightarrow> t < earlier"
  by (auto simp: duration_since_def checked_sub_None_iff less_monotonic_timestamp_def word_less_nat_alt)

subsection \<open>Audio formats\<close>

text \<open>\<open>NonZeroU32\<close>: the value invariant is in the type, as in the standard library.\<close>

typedef nonzero_u32 = "{w :: u32. w \<noteq> 0}"
  morphisms nonzero_get Abs_nonzero
  by (rule exI [of _ 1]) simp

definition nonzero_or_one :: "u32 \<Rightarrow> nonzero_u32" where
  "nonzero_or_one w = Abs_nonzero (if w = 0 then 1 else w)"

lemma nonzero_abstype [code abstype]: "Abs_nonzero (nonzero_get r) = r"
  by (rule nonzero_get_inverse)

lemma nonzero_get_or_one [simp, code abstract]: "nonzero_get (nonzero_or_one w) = (if w = 0 then 1 else w)"
  by (simp add: nonzero_or_one_def Abs_nonzero_inverse)

definition nonzero_new :: "u32 \<Rightarrow> nonzero_u32 option" where
  "nonzero_new w = (if w = 0 then None else Some (nonzero_or_one w))"

instantiation nonzero_u32 :: equal
begin

definition equal_nonzero_u32 :: "nonzero_u32 \<Rightarrow> nonzero_u32 \<Rightarrow> bool" where
  "equal_nonzero_u32 a b \<longleftrightarrow> nonzero_get a = nonzero_get b"

instance
  by standard (simp add: equal_nonzero_u32_def nonzero_get_inject)

end

lemma nonzero_get_pos [simp]: "nonzero_get r \<noteq> 0" "0 < unat (nonzero_get r)"
  using nonzero_get [of r] by (auto simp: unat_gt_0)

lemma nonzero_new_Some_iff: "nonzero_new w = Some r \<longleftrightarrow> w \<noteq> 0 \<and> nonzero_get r = w"
  by (auto simp: nonzero_new_def nonzero_get_inject [symmetric])

datatype pcm_encoding = Signed16LittleEndian

datatype timestamp_accuracy = Hardware | Estimated

record audio_format =
  sample_rate_hz :: nonzero_u32
  af_channels :: nonzero_u32
  af_encoding :: pcm_encoding

datatype audio_format_error = ZeroSampleRate | ZeroChannels

definition pcm_s16le :: "u32 \<Rightarrow> u32 \<Rightarrow> audio_format_error + audio_format" where
  "pcm_s16le rate channels =
     rbind (ok_or ZeroSampleRate (nonzero_new rate)) (\<lambda>r.
     rbind (ok_or ZeroChannels (nonzero_new channels)) (\<lambda>c.
     Inr \<lparr>sample_rate_hz = r, af_channels = c, af_encoding = Signed16LittleEndian\<rparr>))"

lemma pcm_s16le_Inr_iff:
  "pcm_s16le rate channels = Inr f
     \<longleftrightarrow> rate \<noteq> 0 \<and> channels \<noteq> 0 \<and> nonzero_get (sample_rate_hz f) = rate
       \<and> nonzero_get (af_channels f) = channels"
  by (cases f; cases "af_encoding f") (auto simp: pcm_s16le_def nonzero_new_Some_iff)

subsection \<open>Events\<close>

record timed_video_frame =
  observed_at :: monotonic_timestamp
  tv_frame :: compressed_frame
  tv_discontinuity :: bool

record timed_audio_chunk =
  observed_start :: monotonic_timestamp
  ta_accuracy :: timestamp_accuracy
  ta_format :: audio_format
  ta_chunk :: audio_chunk
  ta_discontinuity :: bool

datatype timed_media_event =
    VideoEvent timed_video_frame
  | AudioEvent timed_audio_chunk

end
