(* ===== verification/Linux_Audio.thy ===== *)
theory Linux_Audio
  imports Media
begin

section \<open>Linux audio capture\<close>

text \<open>
  Model of \<open>crates/handycam-linux-audio/src/lib.rs\<close>: the ALSA configuration and capture
  loop, the \<open>arecord\<close> capture loop, and the handles that stop them. The \<open>alsa\<close> crate, the
  child process, the clock and the channel are the operations of a record over a world
  \<open>'w\<close>. An \<open>Instant\<close> is a natural number of nanoseconds since the earliest instant.
\<close>

definition PERIOD_SAMPLE_FRAMES :: nat where
  "PERIOD_SAMPLE_FRAMES = 640"

definition PERIOD_BYTES :: nat where
  "PERIOD_BYTES = PERIOD_SAMPLE_FRAMES * AUDIO_BYTES_PER_SAMPLE_FRAME"

datatype audio_capture_event =
    Chunk timed_audio_chunk
  | Failed string
  | Closed

type_synonym alsa_error = int

datatype audio_capture_error =
    Spawn string
  | MissingStdout
  | WorkerPanicked
  | Alsa alsa_error
  | UnexpectedRate u32 u32
  | UnexpectedPeriod i64 i64

text \<open>The format of the camera: \<open>expect\<close> on the constants.\<close>

definition camera_audio_format :: "audio_format option" where
  "camera_audio_format =
     (case pcm_s16le AUDIO_SAMPLE_RATE_HZ (ucast AUDIO_CHANNELS) of Inr f \<Rightarrow> Some f | Inl _ \<Rightarrow> None)"

subsection \<open>Time\<close>

text \<open>\<open>Instant::checked_sub\<close>, \<open>Instant::checked_duration_since\<close> and \<open>Duration::as_micros\<close>.\<close>

definition instant_checked_sub :: "nat \<Rightarrow> nat \<Rightarrow> nat option" where
  "instant_checked_sub t d = (if d \<le> t then Some (t - d) else None)"

definition micros_since :: "nat \<Rightarrow> nat \<Rightarrow> u64" where
  "micros_since origin t =
     of_nat (min ((if origin \<le> t then t - origin else 0) div 1000) (2 ^ 64 - 1))"

record timespec =
  tv_sec :: i64
  tv_nsec :: i64

definition u64_try_from :: "i64 \<Rightarrow> u64 option" where
  "u64_try_from x = (if sint x < 0 then None else Some x)"

definition timespec_ns :: "timespec \<Rightarrow> u64" where
  "timespec_ns timestamp =
     sat_add
       (sat_mul (case u64_try_from (tv_sec timestamp) of None \<Rightarrow> 0 | Some s \<Rightarrow> s) 1000000000)
       (case u64_try_from (tv_nsec timestamp) of None \<Rightarrow> 0 | Some n \<Rightarrow> n)"

text \<open>\<open>clock_gettime\<close>: its result and what it stored.\<close>

definition monotonic_now_ns :: "int \<times> timespec \<Rightarrow> u64" where
  "monotonic_now_ns clock =
     (case clock of (result, timestamp) \<Rightarrow> if result \<noteq> 0 then 0 else timespec_ns timestamp)"

definition estimate_monotonic_origin_ns :: "nat \<Rightarrow> nat \<Rightarrow> int \<times> timespec \<Rightarrow> u64" where
  "estimate_monotonic_origin_ns session_origin now clock =
     (let elapsed_ns = of_nat (min (now - session_origin) (2 ^ 64 - 1))
      in sat_sub (monotonic_now_ns clock) elapsed_ns)"

definition first_sample_timestamp_ns :: "u64 \<Rightarrow> u64 \<Rightarrow> u64 \<Rightarrow> u32 \<Rightarrow> u64" where
  "first_sample_timestamp_ns status_ns available_frames period_frames sample_rate_hz' =
     (let frames_before_hardware = sat_add available_frames period_frames
      in sat_sub status_ns
           (sat_mul frames_before_hardware 1000000000 div ucast sample_rate_hz'))"

subsection \<open>The arecord loop\<close>

text \<open>The world of \<open>run_capture\<close>: the reader, the clock and the channel's sender.\<close>

datatype read_error =
    UnexpectedEof
  | ReadError string

record 'w reader_ops =
  rd_read_exact :: "nat \<Rightarrow> 'w \<Rightarrow> (read_error + bytes) \<times> 'w"
  rd_now :: "'w \<Rightarrow> nat \<times> 'w"
  rd_send :: "audio_capture_event \<Rightarrow> 'w \<Rightarrow> bool \<times> 'w"

text \<open>How a run ends: the loop returned, a call panicked, or the given steps are used up.\<close>

datatype run_end = Returned | Panicked | Running

fun capture_loop ::
  "'w reader_ops \<Rightarrow> audio_format \<Rightarrow> nat \<Rightarrow> nat \<Rightarrow> audio_clock \<Rightarrow> 'w \<Rightarrow> run_end \<times> 'w" where
  "capture_loop ops format session_origin 0 clock w = (Running, w)"
| "capture_loop ops format session_origin (Suc steps) clock w =
     (case rd_read_exact ops PERIOD_BYTES w of
        (Inl e, w) \<Rightarrow>
          let event = (case e of UnexpectedEof \<Rightarrow> Closed | ReadError message \<Rightarrow> Failed message)
          in (Returned, snd (rd_send ops event w))
      | (Inr data, w) \<Rightarrow>
          (case rd_now ops w of (observed_end, w) \<Rightarrow>
             let observed_start' = (case instant_checked_sub observed_end 40000000 of
                   None \<Rightarrow> observed_end | Some t \<Rightarrow> t);
                 observed_us = micros_since session_origin observed_start'
             in case push_pcm clock data of
                  (Inl _, _) \<Rightarrow> (Panicked, w)
                | (Inr chunk, clock) \<Rightarrow>
                    (case rd_send ops (Chunk \<lparr>observed_start = from_micros observed_us,
                         ta_accuracy = Estimated, ta_format = format, ta_chunk = chunk,
                         ta_discontinuity = False\<rparr>) w of
                       (delivered, w) \<Rightarrow>
                         if delivered then capture_loop ops format session_origin steps clock w
                         else (Returned, w))))"

definition arecord_run_capture :: "'w reader_ops \<Rightarrow> nat \<Rightarrow> nat \<Rightarrow> 'w \<Rightarrow> run_end \<times> 'w" where
  "arecord_run_capture ops session_origin steps w =
     (case camera_audio_format of
        None \<Rightarrow> (Panicked, w)
      | Some format \<Rightarrow> capture_loop ops format session_origin steps audio_clock_new w)"

subsection \<open>Periods read from a byte stream\<close>

text \<open>
  The contract of a reader on a finite stream with a listening receiver: \<open>read_exact\<close> takes
  bytes from the front or reports the end, the clock does not touch the stream, and a sent
  event arrives. \<open>times\<close> are the instants the clock has shown.
\<close>

locale pcm_reader =
  fixes ops :: "'w reader_ops"
    and stream :: "'w \<Rightarrow> bytes"
    and times :: "'w \<Rightarrow> nat list"
    and sent :: "'w \<Rightarrow> audio_capture_event list"
  assumes read_full: "n \<le> length (stream w) \<Longrightarrow>
      \<exists>w'. rd_read_exact ops n w = (Inr (take n (stream w)), w')
        \<and> stream w' = drop n (stream w) \<and> times w' = times w \<and> sent w' = sent w"
    and read_end: "length (stream w) < n \<Longrightarrow>
      \<exists>w'. rd_read_exact ops n w = (Inl UnexpectedEof, w') \<and> times w' = times w \<and> sent w' = sent w"
    and show_time: "\<exists>t w'. rd_now ops w = (t, w')
        \<and> stream w' = stream w \<and> times w' = times w @ [t] \<and> sent w' = sent w"
    and deliver_event: "\<exists>w'. rd_send ops e w = (True, w')
        \<and> stream w' = stream w \<and> times w' = times w \<and> sent w' = sent w @ [e]"

definition arecord_chunk :: "audio_format \<Rightarrow> nat \<Rightarrow> u64 \<Rightarrow> nat \<Rightarrow> bytes \<Rightarrow> timed_audio_chunk" where
  "arecord_chunk format session_origin start t data =
     \<lparr>observed_start = from_micros (micros_since session_origin
        (if 40000000 \<le> t then t - 40000000 else t)),
      ta_accuracy = Estimated, ta_format = format,
      ta_chunk = \<lparr>pcm = data, start_sample_frame = start, sample_frames = 640\<rparr>,
      ta_discontinuity = False\<rparr>"

text \<open>The reference: one chunk for every whole period of the stream.\<close>

fun periods :: "nat \<Rightarrow> bytes \<Rightarrow> bytes list" where
  "periods 0 bs = []"
| "periods (Suc n) bs = take PERIOD_BYTES bs # periods n (drop PERIOD_BYTES bs)"

fun arecord_chunks ::
  "audio_format \<Rightarrow> nat \<Rightarrow> u64 \<Rightarrow> nat list \<Rightarrow> bytes list \<Rightarrow> timed_audio_chunk list" where
  "arecord_chunks format origin' start (t # ts) (p # ps) =
     arecord_chunk format origin' start t p # arecord_chunks format origin' (start + 640) ts ps"
| "arecord_chunks format origin' start ts ps = []"

lemma PERIOD_BYTES_value [simp]: "PERIOD_BYTES = 2560"
  by (simp add: PERIOD_BYTES_def PERIOD_SAMPLE_FRAMES_def)

lemma push_period:
  "length data = 2560 \<Longrightarrow> push_pcm clock data =
     (Inr \<lparr>pcm = data, start_sample_frame = next_sample_frame clock, sample_frames = 640\<rparr>,
      clock\<lparr>next_sample_frame := next_sample_frame clock + 640\<rparr>)"
  by (subst push_pcm_accepts) (simp_all add: accepts_def)

lemma length_periods [simp]: "length (periods n bs) = n"
  by (induction n bs rule: periods.induct) auto

context pcm_reader begin

lemma capture_loop_reads:
  "length (stream w) div 2560 < steps \<Longrightarrow>
   \<exists>w' ts. capture_loop ops format origin' steps clock w = (Returned, w')
     \<and> times w' = times w @ ts \<and> length ts = length (stream w) div 2560
     \<and> sent w' = sent w @ map Chunk (arecord_chunks format origin' (next_sample_frame clock) ts
          (periods (length (stream w) div 2560) (stream w))) @ [Closed]"
proof (induction steps arbitrary: clock w)
  case 0
  then show ?case by simp
next
  case (Suc steps)
  show ?case
  proof (cases "2560 \<le> length (stream w)")
    case False
    then obtain w1 where w1: "rd_read_exact ops 2560 w = (Inl UnexpectedEof, w1)" "times w1 = times w"
      "sent w1 = sent w"
      using read_end [of w 2560] by auto
    obtain w2 where w2: "rd_send ops Closed w1 = (True, w2)" "times w2 = times w1"
      "sent w2 = sent w1 @ [Closed]"
      using deliver_event [of Closed w1] by auto
    show ?thesis using False w1 w2 by simp
  next
    case True
    define n where "n = length (stream w) div 2560 - 1"
    have n: "length (stream w) div 2560 = Suc n" using True by (simp add: n_def div_greater_zero_iff)
    let ?data = "take 2560 (stream w)"
    obtain w1 where w1: "rd_read_exact ops 2560 w = (Inr ?data, w1)" "stream w1 = drop 2560 (stream w)"
      "times w1 = times w" "sent w1 = sent w"
      using read_full [OF True] by auto
    obtain t w2 where w2: "rd_now ops w1 = (t, w2)" "stream w2 = stream w1" "times w2 = times w1 @ [t]"
      "sent w2 = sent w1"
      using show_time [of w1] by auto
    let ?chunk = "arecord_chunk format origin' (next_sample_frame clock) t ?data"
    let ?clock = "clock\<lparr>next_sample_frame := next_sample_frame clock + 640\<rparr>"
    obtain w3 where w3: "rd_send ops (Chunk ?chunk) w2 = (True, w3)" "stream w3 = stream w2"
      "times w3 = times w2" "sent w3 = sent w2 @ [Chunk ?chunk]"
      using deliver_event [of "Chunk ?chunk" w2] by auto
    have stream3: "stream w3 = drop 2560 (stream w)" using w1 w2 w3 by simp
    have n3: "length (stream w3) div 2560 = n" using stream3 n True by (simp add: le_div_geq)
    have "length (stream w3) div 2560 < steps" using Suc.prems n n3 by simp
    from Suc.IH [OF this, of ?clock] obtain w' ts where w':
      "capture_loop ops format origin' steps ?clock w3 = (Returned, w')"
      "times w' = times w3 @ ts" "length ts = n"
      "sent w' = sent w3 @ map Chunk (arecord_chunks format origin' (next_sample_frame clock + 640) ts
          (periods n (stream w3))) @ [Closed]"
      using n3 by auto
    have sent_chunk: "(let observed_start' = (case instant_checked_sub t 40000000 of None \<Rightarrow> t | Some t \<Rightarrow> t);
           observed_us = micros_since origin' observed_start'
         in rd_send ops (Chunk \<lparr>observed_start = from_micros observed_us, ta_accuracy = Estimated,
           ta_format = format, ta_chunk = \<lparr>pcm = ?data, start_sample_frame = next_sample_frame clock,
           sample_frames = 640\<rparr>, ta_discontinuity = False\<rparr>) w2) = (True, w3)"
      using w3(1) by (simp add: arecord_chunk_def instant_checked_sub_def split: if_splits)
    have "capture_loop ops format origin' (Suc steps) clock w
        = capture_loop ops format origin' steps ?clock w3"
      using True sent_chunk by (simp add: w1(1) w2(1) push_period Let_def)
    then show ?thesis
      using w' w1 w2 w3 stream3 n by (intro exI [of _ w'] exI [of _ "t # ts"]) simp
  qed
qed

end

text \<open>
  \<open>Read\<close> for a byte slice, a clock that advances by one period for every reading, and an
  unbounded channel.
\<close>

record slice_reader =
  sl_stream :: bytes
  sl_now :: nat
  sl_times :: "nat list"
  sl_sent :: "audio_capture_event list"

definition slice_ops :: "slice_reader reader_ops" where
  "slice_ops =
     \<lparr>rd_read_exact = (\<lambda>n w. if n \<le> length (sl_stream w)
        then (Inr (take n (sl_stream w)), w\<lparr>sl_stream := drop n (sl_stream w)\<rparr>)
        else (Inl UnexpectedEof, w\<lparr>sl_stream := []\<rparr>)),
      rd_now = (\<lambda>w. (sl_now w, w\<lparr>sl_now := sl_now w + 40000000, sl_times := sl_times w @ [sl_now w]\<rparr>)),
      rd_send = (\<lambda>e w. (True, w\<lparr>sl_sent := sl_sent w @ [e]\<rparr>))\<rparr>"

interpretation slice: pcm_reader slice_ops sl_stream sl_times sl_sent
  by unfold_locales (auto simp: slice_ops_def)

definition camera_format :: audio_format where
  "camera_format =
     \<lparr>sample_rate_hz = nonzero_or_one 16000, af_channels = nonzero_or_one 2,
      af_encoding = Signed16LittleEndian\<rparr>"

lemma camera_audio_format_value [simp]: "camera_audio_format = Some camera_format"
  by (simp add: camera_audio_format_def pcm_s16le_def nonzero_new_def camera_format_def
      AUDIO_SAMPLE_RATE_HZ_def AUDIO_CHANNELS_def)

subsection \<open>Properties\<close>

text \<open>
  With enough steps the arecord loop returns, and it has sent one chunk for every
  whole period of the stream, with consecutive sample positions and the instant of its
  reading less 40 milliseconds, and then \<open>Closed\<close>. The loop never panics.
\<close>

theorem arecord_chunks_of_stream:
  assumes "length (sl_stream w) div PERIOD_BYTES < steps"
  shows "\<exists>w' ts. arecord_run_capture slice_ops session_origin steps w = (Returned, w')
    \<and> sl_times w' = sl_times w @ ts \<and> length ts = length (sl_stream w) div PERIOD_BYTES
    \<and> sl_sent w' = sl_sent w
        @ map Chunk (arecord_chunks camera_format session_origin 0 ts
            (periods (length (sl_stream w) div PERIOD_BYTES) (sl_stream w)))
        @ [Closed]"
  using slice.capture_loop_reads [of w steps camera_format session_origin audio_clock_new] assms
  by (simp add: arecord_run_capture_def audio_clock_new_def)

lemma arecord_chunks_of_stream_witness:
  "\<exists>w'. arecord_run_capture slice_ops 0 2
      \<lparr>sl_stream = replicate 2600 7, sl_now = 50000000, sl_times = [], sl_sent = []\<rparr> = (Returned, w')
    \<and> (\<exists>t. sl_sent w' = [Chunk (arecord_chunk camera_format 0 0 t (replicate 2560 7)), Closed])"
proof -
  let ?w = "\<lparr>sl_stream = replicate 2600 7, sl_now = 50000000, sl_times = [], sl_sent = []\<rparr> :: slice_reader"
  obtain w' ts where "arecord_run_capture slice_ops 0 2 ?w = (Returned, w')" "length ts = 1"
    "sl_sent w' = map Chunk (arecord_chunks camera_format 0 0 ts (periods 1 (replicate 2600 7))) @ [Closed]"
    using arecord_chunks_of_stream [of ?w 2 0] by auto
  moreover from this(2) obtain t where "ts = [t]" by (auto simp: length_Suc_conv)
  moreover have "periods 1 (replicate 2600 (7 :: u8)) = [replicate 2560 7]" by (simp add: min_def)
  ultimately show ?thesis by auto
qed

section \<open>Direct ALSA capture\<close>

text \<open>
  The operations of the \<open>alsa\<close> crate that the capture loop uses, the stop flag and the
  channel: \<open>al_wait\<close> is \<open>pcm.wait(Some(100))\<close>, \<open>al_readi n\<close> is \<open>io.readi\<close> into a slice of
  \<open>n\<close> samples and returns the samples it stored, \<open>al_status\<close> is the hardware timestamp and
  the available frames of \<open>pcm.status\<close>, \<open>al_message\<close> is the error's text. An error is its
  \<open>errno\<close>.
\<close>

record 'w alsa_ops =
  al_io :: "'w \<Rightarrow> (alsa_error + unit) \<times> 'w"
  al_running :: "'w \<Rightarrow> bool \<times> 'w"
  al_wait :: "'w \<Rightarrow> (alsa_error + bool) \<times> 'w"
  al_readi :: "nat \<Rightarrow> 'w \<Rightarrow> (alsa_error + u16 list) \<times> 'w"
  al_recover :: "alsa_error \<Rightarrow> 'w \<Rightarrow> (alsa_error + unit) \<times> 'w"
  al_status :: "'w \<Rightarrow> (alsa_error + timespec \<times> i64) \<times> 'w"
  al_drop :: "'w \<Rightarrow> 'w"
  al_send :: "audio_capture_event \<Rightarrow> 'w \<Rightarrow> bool \<times> 'w"
  al_message :: "alsa_error \<Rightarrow> string"

definition EAGAIN :: alsa_error where
  "EAGAIN = 11"

definition send_failure :: "'w alsa_ops \<Rightarrow> alsa_error \<Rightarrow> 'w \<Rightarrow> 'w" where
  "send_failure ops e w = snd (al_send ops (Failed (al_message ops e)) w)"

datatype period_end =
    PeriodRead "u16 list" nat bool
  | PeriodFailed
  | PeriodRunning

text \<open>
  The inner loop, for at most the given number of reads: the sample buffer, the frames read
  so far and \<open>source_discontinuity\<close>.
\<close>

fun read_period ::
  "'w alsa_ops \<Rightarrow> nat \<Rightarrow> u16 list \<Rightarrow> nat \<Rightarrow> bool \<Rightarrow> 'w \<Rightarrow> period_end \<times> 'w" where
  "read_period ops 0 samples frames_read lost w = (PeriodRunning, w)"
| "read_period ops (Suc steps) samples frames_read lost w =
     (if frames_read < PERIOD_SAMPLE_FRAMES then
        (case al_running ops w of (going, w) \<Rightarrow>
          if \<not> going then (PeriodRead samples frames_read lost, w)
          else
            let channels = unat AUDIO_CHANNELS
            in case al_readi ops (length samples - frames_read * channels) w of
                 (Inr stored, w) \<Rightarrow>
                   let frames = length stored div channels
                   in if frames = 0 then read_period ops steps samples frames_read lost w
                      else
                        let at = frames_read * channels
                        in read_period ops steps
                             (take at samples @ stored @ drop (at + length stored) samples)
                             (frames_read + frames) lost w
               | (Inl e, w) \<Rightarrow>
                   if e = EAGAIN then
                     (case al_wait ops w of
                        (Inr _, w) \<Rightarrow> read_period ops steps samples frames_read lost w
                      | (Inl wait_error, w) \<Rightarrow> (PeriodFailed, send_failure ops wait_error w))
                   else
                     (case al_recover ops e w of
                        (Inr _, w) \<Rightarrow> read_period ops steps samples 0 True w
                      | (Inl e, w) \<Rightarrow> (PeriodFailed, send_failure ops e w)))
      else (PeriodRead samples frames_read lost, w))"

definition to_le_bytes :: "u16 \<Rightarrow> bytes" where
  "to_le_bytes sample = rev (be_bytes 2 sample)"

fun alsa_loop ::
  "'w alsa_ops \<Rightarrow> audio_format \<Rightarrow> u64 \<Rightarrow> nat \<Rightarrow> nat \<Rightarrow> audio_clock \<Rightarrow> bool \<Rightarrow> 'w \<Rightarrow> run_end \<times> 'w"
  where
  "alsa_loop ops format origin_ns reads 0 clock lost w = (Running, w)"
| "alsa_loop ops format origin_ns reads (Suc steps) clock lost w =
     (case al_running ops w of
        (False, w) \<Rightarrow> (Returned, snd (al_send ops Closed (al_drop ops w)))
      | (True, w) \<Rightarrow>
        (case al_wait ops w of
           (Inr False, w) \<Rightarrow> alsa_loop ops format origin_ns reads steps clock lost w
         | (Inl e, w) \<Rightarrow> (Returned, send_failure ops e w)
         | (Inr True, w) \<Rightarrow>
           (case read_period ops reads (replicate (PERIOD_SAMPLE_FRAMES * unat AUDIO_CHANNELS) 0) 0 lost w of
              (PeriodRunning, w) \<Rightarrow> (Running, w)
            | (PeriodFailed, w) \<Rightarrow> (Returned, w)
            | (PeriodRead samples frames_read lost, w) \<Rightarrow>
              if frames_read \<noteq> PERIOD_SAMPLE_FRAMES
              then alsa_loop ops format origin_ns reads steps clock lost w
              else
                (case al_status ops w of
                   (Inl e, w) \<Rightarrow> (Returned, send_failure ops e w)
                 | (Inr (htstamp, avail), w) \<Rightarrow>
                   let status_ns = timespec_ns htstamp;
                       available_frames = (if sint avail < 0 then 0 else avail);
                       first_sample_ns = first_sample_timestamp_ns status_ns available_frames
                         (of_nat PERIOD_SAMPLE_FRAMES) AUDIO_SAMPLE_RATE_HZ;
                       observed_us = sat_sub first_sample_ns origin_ns div 1000;
                       pcm_bytes = concat (map to_le_bytes samples)
                   in case push_pcm clock pcm_bytes of
                        (Inl _, _) \<Rightarrow> (Panicked, w)
                      | (Inr chunk, clock) \<Rightarrow>
                        (case al_send ops (Chunk \<lparr>observed_start = from_micros observed_us,
                             ta_accuracy = Hardware, ta_format = format, ta_chunk = chunk,
                             ta_discontinuity = lost\<rparr>) w of
                           (delivered, w) \<Rightarrow>
                             if delivered
                             then alsa_loop ops format origin_ns reads steps clock False w
                             else (Returned, w))))))"

definition run_alsa_capture ::
  "'w alsa_ops \<Rightarrow> u64 \<Rightarrow> nat \<Rightarrow> nat \<Rightarrow> 'w \<Rightarrow> run_end \<times> 'w" where
  "run_alsa_capture ops origin_ns reads steps w =
     (case camera_audio_format of
        None \<Rightarrow> (Panicked, w)
      | Some format \<Rightarrow>
          (case al_io ops w of
             (Inl e, w) \<Rightarrow> (Returned, send_failure ops e w)
           | (Inr _, w) \<Rightarrow> alsa_loop ops format origin_ns reads steps audio_clock_new False w))"

subsection \<open>The log of a run\<close>

text \<open>The same operations on a world with a log of the reads, recoveries and sent events.\<close>

datatype alsa_log = Stored "u16 list" | Recovered | SentEvent audio_capture_event

definition with_log :: "'w alsa_ops \<Rightarrow> ('w \<times> alsa_log list) alsa_ops" where
  "with_log ops =
     \<lparr>al_io = keep_log (al_io ops), al_running = keep_log (al_running ops),
      al_wait = keep_log (al_wait ops),
      al_readi = (\<lambda>n (w, l). case al_readi ops n w of
         (Inr stored, w) \<Rightarrow> (Inr stored, w, l @ [Stored stored]) | (Inl e, w) \<Rightarrow> (Inl e, w, l)),
      al_recover = (\<lambda>e (w, l). case al_recover ops e w of
         (Inr u, w) \<Rightarrow> (Inr u, w, l @ [Recovered]) | (Inl e, w) \<Rightarrow> (Inl e, w, l)),
      al_status = keep_log (al_status ops),
      al_drop = (\<lambda>(w, l). (al_drop ops w, l)),
      al_send = (\<lambda>e (w, l). case al_send ops e w of (b, w) \<Rightarrow> (b, w, l @ [SentEvent e])),
      al_message = al_message ops\<rparr>"

text \<open>
  What a log may be: chunk \<open>n\<close> starts at sample frame \<open>640 n\<close>, carries the last 1280 samples
  stored since the last recovery or chunk, and is marked exactly when there was a recovery
  since the last chunk; a failure or \<open>Closed\<close> ends the log.
\<close>

record log_state =
  lg_chunks :: nat
  lg_lost :: bool
  lg_samples :: "u16 list"
  lg_ended :: bool

definition log_initial :: log_state where
  "log_initial = \<lparr>lg_chunks = 0, lg_lost = False, lg_samples = [], lg_ended = False\<rparr>"

definition chunk_allowed :: "log_state \<Rightarrow> timed_audio_chunk \<Rightarrow> bool" where
  "chunk_allowed s c \<longleftrightarrow>
     start_sample_frame (ta_chunk c) = of_nat (640 * lg_chunks s)
     \<and> sample_frames (ta_chunk c) = 640 \<and> 1280 \<le> length (lg_samples s)
     \<and> pcm (ta_chunk c) = concat (map to_le_bytes (drop (length (lg_samples s) - 1280) (lg_samples s)))
     \<and> ta_discontinuity c = lg_lost s \<and> ta_accuracy c = Hardware \<and> ta_format c = camera_format"

definition log_step :: "log_state \<Rightarrow> alsa_log \<Rightarrow> log_state option" where
  "log_step s e =
     (if lg_ended s then None
      else case e of
        Stored xs \<Rightarrow> Some (s\<lparr>lg_samples := lg_samples s @ xs\<rparr>)
      | Recovered \<Rightarrow> Some (s\<lparr>lg_lost := True, lg_samples := []\<rparr>)
      | SentEvent (Chunk c) \<Rightarrow>
          if chunk_allowed s c
          then Some (s\<lparr>lg_chunks := lg_chunks s + 1, lg_lost := False, lg_samples := []\<rparr>) else None
      | SentEvent _ \<Rightarrow> Some (s\<lparr>lg_ended := True\<rparr>))"

fun log_run :: "log_state \<Rightarrow> alsa_log list \<Rightarrow> log_state option" where
  "log_run s [] = Some s"
| "log_run s (e # es) = (case log_step s e of None \<Rightarrow> None | Some s' \<Rightarrow> log_run s' es)"

lemma log_run_append:
  "log_run s (xs @ ys) = (case log_run s xs of None \<Rightarrow> None | Some s' \<Rightarrow> log_run s' ys)"
  by (induction xs arbitrary: s) (auto split: option.splits)

text \<open>\<open>io.readi\<close> stores whole frames into the slice it is given.\<close>

definition reads_frames :: "'w alsa_ops \<Rightarrow> bool" where
  "reads_frames ops \<longleftrightarrow>
     (\<forall>n w xs w'. al_readi ops n w = (Inr xs, w') \<longrightarrow> length xs \<le> n \<and> even (length xs))"

definition period_inv :: "log_state \<Rightarrow> nat \<Rightarrow> u16 list \<Rightarrow> nat \<Rightarrow> bool \<Rightarrow> bool" where
  "period_inv s chunks samples frames_read lost \<longleftrightarrow>
     \<not> lg_ended s \<and> lg_lost s = lost \<and> lg_chunks s = chunks \<and> length samples = 1280
     \<and> frames_read \<le> 640 \<and> 2 * frames_read \<le> length (lg_samples s)
     \<and> take (2 * frames_read) samples = drop (length (lg_samples s) - 2 * frames_read) (lg_samples s)"

lemma with_log_simps [simp]:
  "al_running (with_log ops) (w, l) = (case al_running ops w of (r, w) \<Rightarrow> (r, w, l))"
  "al_wait (with_log ops) (w, l) = (case al_wait ops w of (r, w) \<Rightarrow> (r, w, l))"
  "al_io (with_log ops) (w, l) = (case al_io ops w of (r, w) \<Rightarrow> (r, w, l))"
  "al_status (with_log ops) (w, l) = (case al_status ops w of (r, w) \<Rightarrow> (r, w, l))"
  "al_drop (with_log ops) (w, l) = (al_drop ops w, l)"
  "al_send (with_log ops) ev (w, l) = (case al_send ops ev w of (b, w) \<Rightarrow> (b, w, l @ [SentEvent ev]))"
  "al_readi (with_log ops) n (w, l) = (case al_readi ops n w of
         (Inr stored, w) \<Rightarrow> (Inr stored, w, l @ [Stored stored]) | (Inl e, w) \<Rightarrow> (Inl e, w, l))"
  "al_recover (with_log ops) e (w, l) = (case al_recover ops e w of
         (Inr u, w) \<Rightarrow> (Inr u, w, l @ [Recovered]) | (Inl e, w) \<Rightarrow> (Inl e, w, l))"
  by (simp_all add: with_log_def keep_log_def)

lemma send_failure_log:
  "\<exists>w'. send_failure (with_log ops) e (w, l) = (w', l @ [SentEvent (Failed (al_message ops e))])"
  by (cases "al_send ops (Failed (al_message ops e)) w") (simp add: send_failure_def with_log_def)

lemma failure_allowed:
  "log_run log_initial l = Some s \<Longrightarrow> \<not> lg_ended s \<Longrightarrow>
     log_run log_initial (snd (send_failure (with_log ops) e (w, l))) \<noteq> None"
  using send_failure_log [of ops e w l] by (auto simp: log_run_append log_step_def)

lemma period_inv_stored:
  assumes "period_inv s chunks samples frames_read lost"
    and "length stored \<le> 1280 - 2 * frames_read" and "even (length stored)"
  shows "period_inv (s\<lparr>lg_samples := lg_samples s @ stored\<rparr>) chunks
    (take (2 * frames_read) samples @ stored @ drop (2 * frames_read + length stored) samples)
    (frames_read + length stored div 2) lost"
proof -
  have "2 * (frames_read + length stored div 2) = 2 * frames_read + length stored"
    using assms(3) by auto
  then show ?thesis
    using assms unfolding period_inv_def by (auto simp: min_def)
qed

fun period_end_ok :: "nat \<Rightarrow> period_end \<times> 'w \<times> alsa_log list \<Rightarrow> bool" where
  "period_end_ok chunks (PeriodRead samples frames_read lost, _, l) \<longleftrightarrow>
     (\<exists>s. log_run log_initial l = Some s \<and> period_inv s chunks samples frames_read lost)"
| "period_end_ok chunks (_, _, l) \<longleftrightarrow> log_run log_initial l \<noteq> None"

lemma failure_period_end:
  "log_run log_initial l = Some s \<Longrightarrow> \<not> lg_ended s \<Longrightarrow>
     period_end_ok chunks (PeriodFailed, send_failure (with_log ops) e (w, l))"
  using failure_allowed [of l s ops e w] by (cases "send_failure (with_log ops) e (w, l)") simp

lemma channels_value [simp]: "unat AUDIO_CHANNELS = 2"
  by (simp add: AUDIO_CHANNELS_def)

lemma read_period_ok:
  assumes "reads_frames ops" and "log_run log_initial l = Some s"
    and "period_inv s chunks samples frames_read lost"
  shows "period_end_ok chunks (read_period (with_log ops) steps samples frames_read lost (w, l))"
  using assms(2,3)
proof (induction steps arbitrary: s samples frames_read lost w l)
  case 0
  then show ?case by simp
next
  case (Suc steps)
  have open_log: "\<not> lg_ended s" and size: "length samples = 1280"
    using Suc.prems(2) by (simp_all add: period_inv_def)
  note failure = failure_period_end [OF Suc.prems(1) open_log, of chunks ops]
  obtain going w1 where w1: "al_running ops w = (going, w1)" by fastforce
  obtain res w2 where w2: "al_readi ops (1280 - frames_read * 2) w1 = (res, w2)" by fastforce
  show ?case
  proof (cases "frames_read < 640 \<and> going")
    case False
    then show ?thesis using Suc.prems w1 by (auto simp: PERIOD_SAMPLE_FRAMES_def)
  next
    case going: True
    show ?thesis
    proof (cases res)
      case (Inr stored)
      have stored: "length stored \<le> 1280 - 2 * frames_read" "even (length stored)"
        using assms(1) w2 Inr by (auto simp: reads_frames_def mult.commute)
      let ?s = "s\<lparr>lg_samples := lg_samples s @ stored\<rparr>"
      have log: "log_run log_initial (l @ [Stored stored]) = Some ?s"
        using Suc.prems(1) open_log by (simp add: log_run_append log_step_def)
      note inv = period_inv_stored [OF Suc.prems(2) stored]
      show ?thesis
      proof (cases "length stored div 2 = 0")
        case True
        then have "stored = []" using stored(2) by (cases stored) auto
        then show ?thesis
          using Suc.IH [OF log inv, of w2] going size Inr w1 w2 by (simp add: PERIOD_SAMPLE_FRAMES_def)
      next
        case False
        then show ?thesis
          using Suc.IH [OF log inv, of w2] going size Inr w1 w2
          by (simp add: PERIOD_SAMPLE_FRAMES_def Let_def mult.commute)
      qed
    next
      case (Inl e)
      show ?thesis
      proof (cases "e = EAGAIN")
        case True
        obtain r w3 where w3: "al_wait ops w2 = (r, w3)" by fastforce
        then show ?thesis
          using Suc.IH [OF Suc.prems, of w3] failure [of _ w3] going size Inl w1 w2 True
          by (cases r) (simp_all add: PERIOD_SAMPLE_FRAMES_def)
      next
        case False
        obtain r w3 where w3: "al_recover ops e w2 = (r, w3)" by fastforce
        let ?s = "s\<lparr>lg_lost := True, lg_samples := []\<rparr>"
        have log: "log_run log_initial (l @ [Recovered]) = Some ?s"
          using Suc.prems(1) open_log by (simp add: log_run_append log_step_def)
        have inv: "period_inv ?s chunks samples 0 True"
          using Suc.prems(2) by (simp add: period_inv_def)
        show ?thesis
          using Suc.IH [OF log inv, of w3] failure [of _ w3] going size Inl w1 w2 w3 False
          by (cases r) (simp_all add: PERIOD_SAMPLE_FRAMES_def)
      qed
    qed
  qed
qed


definition log_open :: "alsa_log list \<Rightarrow> audio_clock \<Rightarrow> bool \<Rightarrow> bool" where
  "log_open l clock lost \<longleftrightarrow>
     (\<exists>s. log_run log_initial l = Some s \<and> \<not> lg_ended s \<and> lg_lost s = lost
       \<and> next_sample_frame clock = of_nat (640 * lg_chunks s))"

lemma length_le_samples: "length (concat (map to_le_bytes samples)) = 2 * length samples"
  by (induction samples) (simp_all add: to_le_bytes_def)

fun run_end_ok :: "run_end \<times> 'w \<times> alsa_log list \<Rightarrow> bool" where
  "run_end_ok (e, _, l) \<longleftrightarrow> e \<noteq> Panicked \<and> log_run log_initial l \<noteq> None"

lemma log_openE:
  assumes "log_open l clock lost"
  obtains s where "log_run log_initial l = Some s" "\<not> lg_ended s" "lg_lost s = lost"
    "next_sample_frame clock = of_nat (640 * lg_chunks s)"
  using assms by (auto simp: log_open_def)

lemma failure_run_end:
  assumes "log_open l clock lost"
  shows "run_end_ok (Returned, send_failure (with_log ops) e (w, l))"
  using assms
proof (rule log_openE)
  fix s assume "log_run log_initial l = Some s" "\<not> lg_ended s"
  from failure_allowed [OF this, of ops e w] show ?thesis
    by (cases "send_failure (with_log ops) e (w, l)") simp
qed

lemma closed_run_end: "log_open l clock lost \<Longrightarrow> run_end_ok (Returned, w, l @ [SentEvent Closed])"
  by (auto simp: log_open_def log_run_append log_step_def)

lemma period_chunk:
  assumes "log_run log_initial l = Some s" and "period_inv s chunks samples 640 lost"
    and "next_sample_frame clock = of_nat (640 * chunks)"
  shows "log_open (l @ [SentEvent (Chunk \<lparr>observed_start = t, ta_accuracy = Hardware, ta_format = camera_format,
      ta_chunk = \<lparr>pcm = concat (map to_le_bytes samples), start_sample_frame = next_sample_frame clock,
        sample_frames = 640\<rparr>, ta_discontinuity = lost\<rparr>)])
      (clock\<lparr>next_sample_frame := next_sample_frame clock + 640\<rparr>) False"
  using assms by (auto simp: log_open_def log_run_append log_step_def chunk_allowed_def period_inv_def)

text \<open>The rest of an iteration, after the inner loop.\<close>

definition after_period ::
  "'w alsa_ops \<Rightarrow> u64 \<Rightarrow> nat \<Rightarrow> nat \<Rightarrow> audio_clock \<Rightarrow> period_end \<times> 'w \<Rightarrow> run_end \<times> 'w" where
  "after_period ops origin_ns reads steps clock r =
     (case r of
        (PeriodRunning, w) \<Rightarrow> (Running, w)
      | (PeriodFailed, w) \<Rightarrow> (Returned, w)
      | (PeriodRead samples frames_read lost, w) \<Rightarrow>
        if frames_read \<noteq> PERIOD_SAMPLE_FRAMES
        then alsa_loop ops camera_format origin_ns reads steps clock lost w
        else
          (case al_status ops w of
             (Inl e, w) \<Rightarrow> (Returned, send_failure ops e w)
           | (Inr (htstamp, avail), w) \<Rightarrow>
             (case push_pcm clock (concat (map to_le_bytes samples)) of
                (Inl _, _) \<Rightarrow> (Panicked, w)
              | (Inr chunk, clock) \<Rightarrow>
                (case al_send ops (Chunk \<lparr>observed_start = from_micros
                       (sat_sub (first_sample_timestamp_ns (timespec_ns htstamp)
                          (if sint avail < 0 then 0 else avail) (of_nat PERIOD_SAMPLE_FRAMES)
                          AUDIO_SAMPLE_RATE_HZ) origin_ns div 1000),
                     ta_accuracy = Hardware, ta_format = camera_format, ta_chunk = chunk,
                     ta_discontinuity = lost\<rparr>) w of
                   (delivered, w) \<Rightarrow>
                     if delivered
                     then alsa_loop ops camera_format origin_ns reads steps clock False w
                     else (Returned, w)))))"

lemma alsa_loop_log:
  assumes "reads_frames ops" and "log_open l clock lost"
  shows "run_end_ok (alsa_loop (with_log ops) camera_format origin_ns reads steps clock lost (w, l))"
  using assms(2)
proof (induction steps arbitrary: clock lost w l)
  case 0
  then show ?case by (auto simp: log_open_def)
next
  case (Suc steps)
  obtain s where s: "log_run log_initial l = Some s" "\<not> lg_ended s" "lg_lost s = lost"
    "next_sample_frame clock = of_nat (640 * lg_chunks s)"
    using Suc.prems by (rule log_openE)
  obtain going w1 where w1: "al_running ops w = (going, w1)" by fastforce
  obtain ready w2 where w2: "al_wait ops w1 = (ready, w2)" by fastforce
  show ?case
  proof (cases "going \<and> ready = Inr True")
    case False
    then consider "\<not> going" | e where "going" "ready = Inl e" | "going" "ready = Inr False"
      by (cases ready) auto
    then show ?thesis
      by cases (use Suc w1 w2 failure_run_end [OF Suc.prems] closed_run_end [OF Suc.prems]
          in \<open>auto split: prod.split\<close>)
  next
    case True
    have inv: "period_inv s (lg_chunks s) (replicate 1280 0) 0 lost"
      using s by (simp add: period_inv_def)
    obtain res w3 l3 where period: "read_period (with_log ops) reads (replicate 1280 0) 0 lost (w2, l)
        = (res, w3, l3)" by (metis prod_cases3)
    have ok: "period_end_ok (lg_chunks s) (res, w3, l3)"
      using read_period_ok [OF assms(1) s(1) inv, of reads w2] period by simp
    have enter: "alsa_loop (with_log ops) camera_format origin_ns reads (Suc steps) clock lost (w, l) =
        after_period (with_log ops) origin_ns reads steps clock (res, w3, l3)"
      unfolding after_period_def alsa_loop.simps Let_def PERIOD_SAMPLE_FRAMES_def channels_value
      using True w1 w2 period by simp
    have "run_end_ok (after_period (with_log ops) origin_ns reads steps clock (res, w3, l3))"
    proof (cases res)
      case (PeriodRead samples frames_read lost')
      then obtain s' where s': "log_run log_initial l3 = Some s'"
        "period_inv s' (lg_chunks s) samples frames_read lost'"
        using ok by auto
      then have open3: "log_open l3 clock lost'"
        using s(4) by (auto simp: log_open_def period_inv_def)
      obtain st w4 where w4: "al_status ops w3 = (st, w4)" by fastforce
      show ?thesis
      proof (cases "frames_read = 640 \<and> \<not> isl st")
        case False
        then show ?thesis
          using PeriodRead Suc.IH [OF open3, of w3] failure_run_end [OF open3, of ops _ w4] w4
          by (cases st) (auto simp: after_period_def PERIOD_SAMPLE_FRAMES_def)
      next
        case full: True
        then have inv': "period_inv s' (lg_chunks s) samples 640 lost'" using s'(2) by simp
        obtain htstamp avail where st: "st = Inr (htstamp, avail)"
          using full by (cases st) auto
        have "length samples = 1280" using inv' by (simp add: period_inv_def)
        then have push: "push_pcm clock (concat (map to_le_bytes samples)) =
            (Inr \<lparr>pcm = concat (map to_le_bytes samples), start_sample_frame = next_sample_frame clock,
               sample_frames = 640\<rparr>, clock\<lparr>next_sample_frame := next_sample_frame clock + 640\<rparr>)"
          by (intro push_period) (simp add: length_le_samples)
        let ?t = "from_micros (sat_sub (first_sample_timestamp_ns (timespec_ns htstamp)
            (if sint avail < 0 then 0 else avail) (of_nat 640) AUDIO_SAMPLE_RATE_HZ) origin_ns div 1000)"
        let ?c = "\<lparr>observed_start = ?t, ta_accuracy = Hardware, ta_format = camera_format,
            ta_chunk = \<lparr>pcm = concat (map to_le_bytes samples), start_sample_frame = next_sample_frame clock,
              sample_frames = 640\<rparr>, ta_discontinuity = lost'\<rparr>"
        obtain delivered w5 where w5: "al_send ops (Chunk ?c) w4 = (delivered, w5)" by fastforce
        have step: "after_period (with_log ops) origin_ns reads steps clock (res, w3, l3) =
            (if delivered
             then alsa_loop (with_log ops) camera_format origin_ns reads steps
               (clock\<lparr>next_sample_frame := next_sample_frame clock + 640\<rparr>) False (w5, l3 @ [SentEvent (Chunk ?c)])
             else (Returned, w5, l3 @ [SentEvent (Chunk ?c)]))"
          using PeriodRead full w4 st push w5 by (simp add: after_period_def PERIOD_SAMPLE_FRAMES_def)
        note open5 = period_chunk [OF s'(1) inv' s(4), of ?t]
        show ?thesis
          unfolding step using Suc.IH [OF open5] open5 by (auto simp: log_open_def)
      qed
    qed (use ok in \<open>auto simp: after_period_def\<close>)
    then show ?thesis by (simp only: enter)
  qed
qed


subsection \<open>Properties\<close>

text \<open>
  Property C22. However the device answers, run for any number of steps, the ALSA loop never
  panics and its log is allowed: chunk \<open>n\<close> starts at sample frame \<open>640 n\<close>, holds exactly the
  1280 samples stored last, none of them from before a recovery, and is marked as
  discontinuous exactly when there was a recovery since the last chunk; nothing follows a
  failure or \<open>Closed\<close>. (The positions do not advance by the samples that an overrun lost.)
\<close>

theorem alsa_capture_log:
  assumes "reads_frames ops" and "run_alsa_capture (with_log ops) origin_ns reads steps (w, []) = (e, w', l)"
  shows "e \<noteq> Panicked \<and> log_run log_initial l \<noteq> None"
proof -
  have opened: "log_open [] audio_clock_new False"
    by (simp add: log_open_def log_initial_def audio_clock_new_def)
  obtain io w1 where "al_io ops w = (io, w1)" by fastforce
  then have "run_end_ok (run_alsa_capture (with_log ops) origin_ns reads steps (w, []))"
    using alsa_loop_log [OF assms(1) opened, of origin_ns reads steps w1]
      failure_run_end [OF opened, of ops _ w1]
    by (cases io) (simp_all add: run_alsa_capture_def)
  then show ?thesis using assms(2) by simp
qed

text \<open>A device whose first read fails with an overrun and that is stopped after one chunk.\<close>

definition overrun_device :: "nat alsa_ops" where
  "overrun_device =
     \<lparr>al_io = (\<lambda>n. (Inr (), n)), al_running = (\<lambda>n. (n < 2, n)), al_wait = (\<lambda>n. (Inr True, n)),
      al_readi = (\<lambda>k n. if n = 0 then (Inl 32, 1) else (Inr (replicate (k div 2 * 2) 1), n)),
      al_recover = (\<lambda>e n. (Inr (), n)),
      al_status = (\<lambda>n. (Inr (\<lparr>tv_sec = 2, tv_nsec = 0\<rparr>, 160), n)), al_drop = (\<lambda>n. n),
      al_send = (\<lambda>e n. (True, n + 1)), al_message = (\<lambda>e. ''overrun'')\<rparr>"

lemma overrun_device_frames: "reads_frames overrun_device"
  by (auto simp: reads_frames_def overrun_device_def split: if_splits)

lemma overrun_device_simps [simp]:
  "al_io overrun_device n = (Inr (), n)" "al_running overrun_device n = (n < 2, n)"
  "al_wait overrun_device n = (Inr True, n)"
  "al_readi overrun_device k n = (if n = 0 then (Inl 32, 1) else (Inr (replicate (k div 2 * 2) 1), n))"
  "al_recover overrun_device e n = (Inr (), n)"
  "al_status overrun_device n = (Inr (\<lparr>tv_sec = 2, tv_nsec = 0\<rparr>, 160), n)"
  "al_drop overrun_device n = n" "al_send overrun_device ev n = (True, n + 1)"
  by (simp_all add: overrun_device_def)

lemma overrun_run:
  "\<exists>w' c. run_alsa_capture (with_log overrun_device) 0 (Suc (Suc (Suc 0))) (Suc (Suc 0)) (0, [])
      = (Returned, w', [Recovered, Stored (replicate 1280 1), SentEvent (Chunk c), SentEvent Closed])"
proof -
  have period: "read_period (with_log overrun_device) (Suc (Suc (Suc 0))) (replicate 1280 0) 0 False (0, [])
      = (PeriodRead (replicate 1280 1) 640 True, 1, [Recovered, Stored (replicate 1280 1)])"
    by (simp add: PERIOD_SAMPLE_FRAMES_def EAGAIN_def)
  have "push_pcm audio_clock_new (concat (map to_le_bytes (replicate 1280 1))) =
      (Inr \<lparr>pcm = concat (map to_le_bytes (replicate 1280 1)), start_sample_frame = 0, sample_frames = 640\<rparr>,
       \<lparr>next_sample_frame = 640\<rparr>)"
    by (subst push_period) (simp_all only: length_le_samples length_replicate, simp_all add: audio_clock_new_def)
  with period show ?thesis
    by (simp add: run_alsa_capture_def PERIOD_SAMPLE_FRAMES_def Let_def)
qed

lemma alsa_capture_log_witness:
  "\<exists>w' l. run_alsa_capture (with_log overrun_device) 0 (Suc (Suc (Suc 0))) (Suc (Suc 0)) (0, [])
      = (Returned, w', l)
    \<and> length l = 4 \<and> hd l = Recovered \<and> log_run log_initial l \<noteq> None"
proof -
  obtain w' c where run: "run_alsa_capture (with_log overrun_device) 0 (Suc (Suc (Suc 0))) (Suc (Suc 0)) (0, [])
      = (Returned, w', [Recovered, Stored (replicate 1280 1), SentEvent (Chunk c), SentEvent Closed])"
    using overrun_run by blast
  from run alsa_capture_log [OF overrun_device_frames run] show ?thesis by simp
qed

subsection \<open>Configuration\<close>

text \<open>What the calls that configure a PCM answer, as functions of the requested values.\<close>

record pcm_device =
  cf_new :: "alsa_error + unit"
  cf_any :: "alsa_error + unit"
  cf_access :: "alsa_error + unit"
  cf_format :: "alsa_error + unit"
  cf_channels :: "u32 \<Rightarrow> alsa_error + unit"
  cf_rate_near :: "u32 \<Rightarrow> alsa_error + u32"
  cf_period_near :: "i64 \<Rightarrow> alsa_error + i64"
  cf_buffer :: "i64 \<Rightarrow> alsa_error + unit"
  cf_hw_params :: "alsa_error + unit"
  cf_sw_current :: "alsa_error + unit"
  cf_avail_min :: "i64 \<Rightarrow> alsa_error + unit"
  cf_tstamp_mode :: "bool \<Rightarrow> alsa_error + unit"
  cf_tstamp_monotonic :: "alsa_error + unit"
  cf_sw_params :: "alsa_error + unit"
  cf_prepare :: "alsa_error + unit"
  cf_start :: "alsa_error + unit"

definition alsa_result :: "alsa_error + 'a \<Rightarrow> audio_capture_error + 'a" where
  "alsa_result r = map_sum Alsa (\<lambda>a. a) r"

definition configure_pcm :: "pcm_device \<Rightarrow> audio_capture_error + unit" where
  "configure_pcm dev =
     rbind (alsa_result (cf_new dev)) (\<lambda>_.
     rbind (alsa_result (cf_any dev)) (\<lambda>_.
     rbind (alsa_result (cf_access dev)) (\<lambda>_.
     rbind (alsa_result (cf_format dev)) (\<lambda>_.
     rbind (alsa_result (cf_channels dev (ucast AUDIO_CHANNELS))) (\<lambda>_.
     rbind (alsa_result (cf_rate_near dev AUDIO_SAMPLE_RATE_HZ)) (\<lambda>rate.
     if rate \<noteq> AUDIO_SAMPLE_RATE_HZ then Inl (UnexpectedRate AUDIO_SAMPLE_RATE_HZ rate)
     else
     rbind (alsa_result (cf_period_near dev (of_nat PERIOD_SAMPLE_FRAMES))) (\<lambda>period.
     if period \<noteq> of_nat PERIOD_SAMPLE_FRAMES
     then Inl (UnexpectedPeriod (of_nat PERIOD_SAMPLE_FRAMES) period)
     else
     rbind (alsa_result (cf_buffer dev (of_nat (PERIOD_SAMPLE_FRAMES * 4)))) (\<lambda>_.
     rbind (alsa_result (cf_hw_params dev)) (\<lambda>_.
     rbind (alsa_result (cf_sw_current dev)) (\<lambda>_.
     rbind (alsa_result (cf_avail_min dev (of_nat PERIOD_SAMPLE_FRAMES))) (\<lambda>_.
     rbind (alsa_result (cf_tstamp_mode dev True)) (\<lambda>_.
     rbind (alsa_result (cf_tstamp_monotonic dev)) (\<lambda>_.
     rbind (alsa_result (cf_sw_params dev)) (\<lambda>_.
     rbind (alsa_result (cf_prepare dev)) (\<lambda>_.
     alsa_result (cf_start dev))))))))))))))))"

lemma alsa_result_simps [simp]:
  "alsa_result (Inl e) = Inl (Alsa e)" "alsa_result (Inr a) = Inr a"
  "alsa_result r = Inr a \<longleftrightarrow> r = Inr a"
  by (cases r; simp add: alsa_result_def)+

text \<open>A PCM that could be configured runs at the rate and period that the positions assume.\<close>

lemma configure_pcm_rate:
  "configure_pcm dev = Inr () \<Longrightarrow>
     cf_rate_near dev 16000 = Inr 16000 \<and> cf_period_near dev 640 = Inr 640 \<and> cf_start dev = Inr ()"
  by (auto simp: configure_pcm_def AUDIO_SAMPLE_RATE_HZ_def PERIOD_SAMPLE_FRAMES_def split: if_splits)

subsection \<open>Starting and stopping\<close>

text \<open>
  The handles: \<open>joined\<close> says whether joining the worker reports a panic. The second part of a
  started capture is the argument of its worker.
\<close>

record alsa_capture =
  ac_running :: bool
  ac_worker :: bool

definition alsa_spawn ::
  "pcm_device \<Rightarrow> nat \<Rightarrow> nat \<Rightarrow> int \<times> timespec \<Rightarrow> string + unit
   \<Rightarrow> audio_capture_error + alsa_capture \<times> u64" where
  "alsa_spawn dev session_origin now clock thread =
     rbind (configure_pcm dev) (\<lambda>_.
     let monotonic_origin_ns = estimate_monotonic_origin_ns session_origin now clock
     in case thread of
          Inl e \<Rightarrow> Inl (Spawn e)
        | Inr _ \<Rightarrow> Inr (\<lparr>ac_running = True, ac_worker = True\<rparr>, monotonic_origin_ns))"

definition alsa_stop_inner :: "bool \<Rightarrow> alsa_capture \<Rightarrow> (audio_capture_error + unit) \<times> alsa_capture" where
  "alsa_stop_inner joined cap =
     (let cap = cap\<lparr>ac_running := False\<rparr>
      in (if ac_worker cap \<and> joined then Inl WorkerPanicked else Inr (), cap\<lparr>ac_worker := False\<rparr>))"

definition alsa_stop :: "bool \<Rightarrow> alsa_capture \<Rightarrow> (audio_capture_error + unit) \<times> alsa_capture" where
  "alsa_stop joined cap = alsa_stop_inner joined cap"

definition alsa_drop :: "bool \<Rightarrow> alsa_capture \<Rightarrow> alsa_capture" where
  "alsa_drop joined cap = snd (alsa_stop_inner joined cap)"

text \<open>Dropping a stopped capture changes nothing.\<close>

lemma alsa_drop_after_stop: "alsa_drop j (snd (alsa_stop i cap)) = snd (alsa_stop i cap)"
  by (simp add: alsa_drop_def alsa_stop_def alsa_stop_inner_def)

record arecord_capture =
  ar_killed :: bool
  ar_waited :: bool
  ar_worker :: bool

definition reap_child :: "arecord_capture \<Rightarrow> arecord_capture" where
  "reap_child cap = cap\<lparr>ar_killed := True, ar_waited := True\<rparr>"

text \<open>
  \<open>child\<close> is the result of starting the process and whether its output is piped; the second
  part of the result is what became of the child.
\<close>

definition arecord_spawn ::
  "string + bool \<Rightarrow> string + unit \<Rightarrow> (audio_capture_error + unit) \<times> arecord_capture option" where
  "arecord_spawn child thread =
     (case child of
        Inl e \<Rightarrow> (Inl (Spawn e), None)
      | Inr piped \<Rightarrow>
          let cap = \<lparr>ar_killed = False, ar_waited = False, ar_worker = False\<rparr>
          in if \<not> piped then (Inl MissingStdout, Some cap)
             else case thread of
               Inl e \<Rightarrow> (Inl (Spawn e), Some (reap_child cap))
             | Inr _ \<Rightarrow> (Inr (), Some (cap\<lparr>ar_worker := True\<rparr>)))"

definition arecord_stop :: "bool \<Rightarrow> arecord_capture \<Rightarrow> (audio_capture_error + unit) \<times> arecord_capture" where
  "arecord_stop joined cap =
     (let cap = reap_child cap
      in (if ar_worker cap \<and> joined then Inl WorkerPanicked else Inr (), cap\<lparr>ar_worker := False\<rparr>))"

definition arecord_drop :: "arecord_capture \<Rightarrow> arecord_capture" where
  "arecord_drop cap = (reap_child cap)\<lparr>ar_worker := False\<rparr>"

lemma arecord_child_reaped:
  "arecord_spawn (Inr True) thread = (Inl e, Some cap) \<Longrightarrow> ar_killed cap \<and> ar_waited cap"
  "ar_killed (snd (arecord_stop j cap)) \<and> ar_waited (snd (arecord_stop j cap))"
  "arecord_drop (snd (arecord_stop j cap)) = snd (arecord_stop j cap)"
  by (auto simp: arecord_spawn_def arecord_stop_def arecord_drop_def reap_child_def Let_def split: sum.splits)

subsection \<open>Timestamps\<close>

lemma timespec_ns_exact:
  "0 \<le> sint (tv_sec t) \<Longrightarrow> 0 \<le> sint (tv_nsec t) \<Longrightarrow>
   unat (timespec_ns t) = min (unat (tv_sec t) * 1000000000 + unat (tv_nsec t)) (2 ^ 64 - 1)"
  by (simp add: timespec_ns_def u64_try_from_def sat_simps min_def)

text \<open>
  The derived start of a period is the status time less the duration of the
  period and of the frames still unread, rounded to nanoseconds, and never before time zero;
  it never lies after the status time.
\<close>

theorem first_sample_timestamp_exact:
  assumes "unat available + unat period < 2 ^ 34" and "unat rate \<noteq> 0"
  shows "unat (first_sample_timestamp_ns status available period rate)
      = unat status - (unat available + unat period) * 1000000000 div unat rate
    \<and> first_sample_timestamp_ns status available period rate \<le> status"
proof -
  have "unat (sat_add available period) = unat available + unat period"
    using assms(1) by (simp add: sat_simps)
  moreover from this have "unat (sat_mul (sat_add available period) 1000000000)
      = (unat available + unat period) * 1000000000"
    using assms(1) by (simp add: unat_sat_mul)
  ultimately show ?thesis
    by (simp add: first_sample_timestamp_ns_def unat_sat_sub unat_div word_le_nat_alt)
qed

lemma first_sample_timestamp_exact_witness:
  "unat (first_sample_timestamp_ns 2000000000 160 640 16000) = 1950000000"
  using first_sample_timestamp_exact [of 160 640 16000 2000000000] by simp

end
