(* ===== verification/Av_Sync.thy ===== *)
theory Av_Sync
  imports Media
begin

section \<open>Common audio and video timeline\<close>

text \<open>
  Model of \<open>crates/handycam-core/src/sync.rs\<close>. Both media have the same contract, the
  locale \<open>media_clock\<close>; the properties are proved once in it and hold for
  \<open>video_timing\<close> and \<open>audio_timing\<close> by interpretation.
\<close>

subsection \<open>Model\<close>

record media_timing =
  pts_us :: u64
  duration_us :: u64
  observed_drift_us :: i64
  discontinuity :: bool

datatype synchronization_error =
  ObservationBeforeStreamStart (error_start: monotonic_timestamp) (error_observed: monotonic_timestamp)

record clock_anchor =
  media_position_us :: u64
  anchor_pts_us :: u64

record av_synchronizer =
  stream_start :: monotonic_timestamp
  video_anchor :: "clock_anchor option"
  audio_anchor :: "clock_anchor option"
  last_video_position_us :: "u64 option"
  last_audio_end_us :: "u64 option"

definition synchronizer_new :: "monotonic_timestamp \<Rightarrow> av_synchronizer" where
  "synchronizer_new start =
     \<lparr>stream_start = start, video_anchor = None, audio_anchor = None,
      last_video_position_us = None, last_audio_end_us = None\<rparr>"

definition observed_pts ::
  "av_synchronizer \<Rightarrow> monotonic_timestamp \<Rightarrow> synchronization_error + u64" where
  "observed_pts s observed =
     ok_or (ObservationBeforeStreamStart (stream_start s) observed)
       (duration_since observed (stream_start s))"

definition anchored_pts :: "clock_anchor \<Rightarrow> u64 \<Rightarrow> u64" where
  "anchored_pts a position_us =
     (if position_us \<ge> media_position_us a
      then sat_add (anchor_pts_us a) (position_us - media_position_us a)
      else sat_sub (anchor_pts_us a) (media_position_us a - position_us))"

definition samples_to_us :: "u64 \<Rightarrow> u32 \<Rightarrow> u64" where
  "samples_to_us frames rate = sat_mul frames 1000000 div ucast rate"

definition signed_difference :: "u64 \<Rightarrow> u64 \<Rightarrow> i64" where
  "signed_difference left right =
     word_of_int (max (- (2 ^ 63)) (min (2 ^ 63 - 1) (uint left - uint right)))"

definition get_or_insert :: "'a option \<Rightarrow> 'a \<Rightarrow> 'a" where
  "get_or_insert x a = (case x of None \<Rightarrow> a | Some b \<Rightarrow> b)"

definition video_timing ::
  "av_synchronizer \<Rightarrow> timed_video_frame
   \<Rightarrow> (synchronization_error + media_timing) \<times> av_synchronizer" where
  "video_timing s event =
     (let position_us = sat_mul (timestamp_unwrapped_ms (tv_frame event)) 1000;
          duration = sat_mul (ucast (timestamp_delta_to_next_ms (tv_frame event))) 1000
      in case observed_pts s (observed_at event) of
           Inl e \<Rightarrow> (Inl e, s)
         | Inr observed_pts_us \<Rightarrow>
             let anchor = get_or_insert (video_anchor s)
                   \<lparr>media_position_us = position_us, anchor_pts_us = observed_pts_us\<rparr>;
                 s = s\<lparr>video_anchor := Some anchor\<rparr>;
                 pts = anchored_pts anchor position_us;
                 disc = (tv_discontinuity event
                   \<or> (case last_video_position_us s of None \<Rightarrow> False | Some l \<Rightarrow> position_us \<noteq> l));
                 s = s\<lparr>last_video_position_us := Some (sat_add position_us duration)\<rparr>
             in (Inr \<lparr>pts_us = pts, duration_us = duration,
                      observed_drift_us = signed_difference observed_pts_us pts,
                      discontinuity = disc\<rparr>, s))"

definition audio_timing ::
  "av_synchronizer \<Rightarrow> timed_audio_chunk
   \<Rightarrow> (synchronization_error + media_timing) \<times> av_synchronizer" where
  "audio_timing s event =
     (let rate = sample_rate_hz (ta_format event);
          position_us = samples_to_us (start_sample_frame (ta_chunk event)) (nonzero_get rate);
          duration = samples_to_us (ucast (sample_frames (ta_chunk event))) (nonzero_get rate)
      in case observed_pts s (observed_start event) of
           Inl e \<Rightarrow> (Inl e, s)
         | Inr observed_pts_us \<Rightarrow>
             let anchor = get_or_insert (audio_anchor s)
                   \<lparr>media_position_us = position_us, anchor_pts_us = observed_pts_us\<rparr>;
                 s = s\<lparr>audio_anchor := Some anchor\<rparr>;
                 pts = anchored_pts anchor position_us;
                 disc = (ta_discontinuity event
                   \<or> (case last_audio_end_us s of None \<Rightarrow> False | Some l \<Rightarrow> position_us \<noteq> l));
                 s = s\<lparr>last_audio_end_us := Some (sat_add position_us duration)\<rparr>
             in (Inr \<lparr>pts_us = pts, duration_us = duration,
                      observed_drift_us = signed_difference observed_pts_us pts,
                      discontinuity = disc\<rparr>, s))"

definition event_timing ::
  "av_synchronizer \<Rightarrow> timed_media_event
   \<Rightarrow> (synchronization_error + media_timing) \<times> av_synchronizer" where
  "event_timing s event =
     (case event of
        VideoEvent frame \<Rightarrow> video_timing s frame
      | AudioEvent chunk \<Rightarrow> audio_timing s chunk)"

subsection \<open>Arithmetic of the timeline\<close>

text \<open>Saturation as clamping of the exact value.\<close>

definition clamp_u64 :: "int \<Rightarrow> int" where
  "clamp_u64 x = max 0 (min (2 ^ 64 - 1) x)"

definition clamp_i64 :: "int \<Rightarrow> int" where
  "clamp_i64 x = max (- (2 ^ 63)) (min (2 ^ 63 - 1) x)"

lemma clamp_u64_id [simp]: "0 \<le> x \<Longrightarrow> x < 2 ^ 64 \<Longrightarrow> clamp_u64 x = x"
  by (simp add: clamp_u64_def)

lemma unat_anchored_pts:
  "unat (anchored_pts a p) =
     (if unat (media_position_us a) \<le> unat p
      then min (unat (anchor_pts_us a) + (unat p - unat (media_position_us a))) (2 ^ 64 - 1)
      else unat (anchor_pts_us a) - (unat (media_position_us a) - unat p))"
  by (simp add: anchored_pts_def word_le_nat_alt unat_sat_add unat_sat_sub unat_sub)

lemma clamp_u64_nat:
  "A < 2 ^ 64 \<Longrightarrow>
   int (if M \<le> P then min (A + (P - M)) (2 ^ 64 - 1) else A - (M - P)) = clamp_u64 (int A + (int P - int M))"
  by (auto simp: clamp_u64_def min_def max_def)

lemma uint_anchored_pts:
  "uint (anchored_pts a p) = clamp_u64 (uint (anchor_pts_us a) + (uint p - uint (media_position_us a)))"
  using clamp_u64_nat [of "unat (anchor_pts_us a)" "unat (media_position_us a)" "unat p"] u64_bound [of "anchor_pts_us a"]
  by (simp only: unat_anchored_pts [symmetric]) simp

lemma sint_signed_difference: "sint (signed_difference l r) = clamp_i64 (uint l - uint r)"
proof -
  have "sint (word_of_int (clamp_i64 x) :: i64) = clamp_i64 x" for x
    by (simp add: sint_sbintrunc' clamp_i64_def signed_take_bit_int_eq_self)
  then show ?thesis by (simp add: signed_difference_def clamp_i64_def)
qed

subsection \<open>The contract of a media clock\<close>

definition first_anchor :: "clock_anchor option \<Rightarrow> u64 \<Rightarrow> monotonic_timestamp \<Rightarrow> monotonic_timestamp
   \<Rightarrow> clock_anchor" where
  "first_anchor x position_us start observed =
     get_or_insert x \<lparr>media_position_us = position_us, anchor_pts_us = as_micros observed - as_micros start\<rparr>"

locale media_clock =
  fixes timing :: "'s \<Rightarrow> 'e \<Rightarrow> (synchronization_error + media_timing) \<times> 's"
    and origin :: "'s \<Rightarrow> monotonic_timestamp"
    and anchor_of :: "'s \<Rightarrow> clock_anchor option"
    and last_end :: "'s \<Rightarrow> u64 option"
    and observed :: "'e \<Rightarrow> monotonic_timestamp"
    and position_of :: "'e \<Rightarrow> u64"
    and duration_of :: "'e \<Rightarrow> u64"
    and lost :: "'e \<Rightarrow> bool"
  assumes too_early: "observed e < origin s \<Longrightarrow>
      timing s e = (Inl (ObservationBeforeStreamStart (origin s) (observed e)), s)"
    and timed: "origin s \<le> observed e \<Longrightarrow>
      fst (timing s e) =
        (let pts = anchored_pts (first_anchor (anchor_of s) (position_of e) (origin s) (observed e)) (position_of e)
         in Inr \<lparr>pts_us = pts, duration_us = duration_of e,
             observed_drift_us = signed_difference (as_micros (observed e) - as_micros (origin s)) pts,
             discontinuity = (lost e \<or> (\<exists>l. last_end s = Some l \<and> position_of e \<noteq> l))\<rparr>)"
    and timed_anchor: "origin s \<le> observed e \<Longrightarrow> anchor_of (snd (timing s e)) =
      Some (first_anchor (anchor_of s) (position_of e) (origin s) (observed e))"
    and timed_end: "origin s \<le> observed e \<Longrightarrow>
      last_end (snd (timing s e)) = Some (sat_add (position_of e) (duration_of e))"
    and timed_origin: "origin (snd (timing s e)) = origin s"
begin

lemma run_origin: "origin (snd (run_steps timing s es)) = origin s"
  by (induction es arbitrary: s) (auto simp: timed_origin)

text \<open>The timings of an accepted run, each from its event and the one before it.\<close>

lemma run_anchored:
  assumes "\<forall>e \<in> set es. origin s \<le> observed e" and "anchor_of s = Some a" and "i < length es"
  shows "fst (run_steps timing s es) ! i =
    (let e = es ! i; pts = anchored_pts a (position_of e)
     in Inr \<lparr>pts_us = pts, duration_us = duration_of e,
         observed_drift_us = signed_difference (as_micros (observed e) - as_micros (origin s)) pts,
         discontinuity = (lost e \<or>
           (if i = 0 then \<exists>l. last_end s = Some l \<and> position_of e \<noteq> l
            else position_of e \<noteq> sat_add (position_of (es ! (i - 1))) (duration_of (es ! (i - 1)))))\<rparr>)"
  using assms
proof (induction es arbitrary: s i)
  case Nil
  then show ?case by simp
next
  case (Cons e es)
  let ?s = "snd (timing s e)"
  have e: "origin s \<le> observed e" using Cons.prems by simp
  have a: "anchor_of ?s = Some a"
    using Cons.prems timed_anchor [OF e] by (simp add: first_anchor_def get_or_insert_def)
  show ?case
  proof (cases i)
    case 0
    then show ?thesis
      using Cons.prems timed [OF e] by (simp add: first_anchor_def get_or_insert_def)
  next
    case (Suc j)
    have step: "fst (run_steps timing ?s es) ! j =
      (let e = es ! j; pts = anchored_pts a (position_of e)
       in Inr \<lparr>pts_us = pts, duration_us = duration_of e,
         observed_drift_us = signed_difference (as_micros (observed e) - as_micros (origin s)) pts,
         discontinuity = (lost e \<or>
           (if j = 0 then \<exists>l. last_end ?s = Some l \<and> position_of e \<noteq> l
            else position_of e \<noteq> sat_add (position_of (es ! (j - 1))) (duration_of (es ! (j - 1)))))\<rparr>)"
      using Cons.prems Suc a Cons.IH [of ?s j] by (simp add: timed_origin)
    show ?thesis
      using step timed_end [OF e] Suc by (cases j) (auto simp: Let_def)
  qed
qed

text \<open>From a fresh state the first accepted event anchors the clock.\<close>

lemma run_fresh:
  assumes "\<forall>e \<in> set es. origin s \<le> observed e"
    and "anchor_of s = None" and "last_end s = None" and "i < length es"
  obtains t where "fst (run_steps timing s es) ! i = Inr t"
    and "uint (pts_us t) = clamp_u64 ((uint (as_micros (observed (es ! 0))) - uint (as_micros (origin s)))
           + (uint (position_of (es ! i)) - uint (position_of (es ! 0))))"
    and "duration_us t = duration_of (es ! i)"
    and "sint (observed_drift_us t) =
           clamp_i64 ((uint (as_micros (observed (es ! i))) - uint (as_micros (origin s))) - uint (pts_us t))"
    and "discontinuity t \<longleftrightarrow> lost (es ! i) \<or>
           (i > 0 \<and> position_of (es ! i) \<noteq> sat_add (position_of (es ! (i - 1))) (duration_of (es ! (i - 1))))"
proof -
  obtain e es' where es: "es = e # es'" using assms(4) by (cases es) auto
  let ?a = "\<lparr>media_position_us = position_of e, anchor_pts_us = as_micros (observed e) - as_micros (origin s)\<rparr>"
  have diff: "uint (as_micros (observed x) - as_micros (origin s)) = uint (as_micros (observed x)) - uint (as_micros (origin s))"
    if "x \<in> set es" for x
    using assms(1) that by (auto simp: less_eq_monotonic_timestamp_def uint_minus_simple_alt word_le_def)
  have e: "origin s \<le> observed e" using assms(1) es by simp
  have first: "fst (timing s e) = (let pts = anchored_pts ?a (position_of e)
         in Inr \<lparr>pts_us = pts, duration_us = duration_of e,
             observed_drift_us = signed_difference (as_micros (observed e) - as_micros (origin s)) pts,
             discontinuity = lost e\<rparr>)"
    using timed [OF e] assms(2,3) by (simp add: first_anchor_def get_or_insert_def)
  have anc: "anchor_of (snd (timing s e)) = Some ?a"
    using timed_anchor [OF e] assms(2) by (simp add: first_anchor_def get_or_insert_def)
  have all: "\<forall>x \<in> set es'. origin (snd (timing s e)) \<le> observed x"
    using assms(1) es by (simp add: timed_origin)
  have ith: "fst (run_steps timing s es) ! i = (let pts = anchored_pts ?a (position_of (es ! i))
       in Inr \<lparr>pts_us = pts, duration_us = duration_of (es ! i),
         observed_drift_us = signed_difference (as_micros (observed (es ! i)) - as_micros (origin s)) pts,
         discontinuity = (lost (es ! i) \<or> (i > 0 \<and> position_of (es ! i)
            \<noteq> sat_add (position_of (es ! (i - 1))) (duration_of (es ! (i - 1)))))\<rparr>)"
  proof (cases i)
    case 0
    then show ?thesis using first es by simp
  next
    case (Suc j)
    then show ?thesis
      using run_anchored [OF all anc, of j] timed_end [OF e] assms(4)
      by (cases j) (auto simp: es timed_origin Let_def)
  qed
  have "es ! i \<in> set es" "e \<in> set es" using assms(4) es by (simp_all only: nth_mem list.set_intros)
  then show ?thesis
    using that [OF ith [unfolded Let_def]]
    by (simp add: uint_anchored_pts sint_signed_difference diff es)
qed

text \<open>Early events cost nothing: the others are timed as if the early ones were absent.\<close>

lemma timed_Inr: "origin s \<le> observed e \<Longrightarrow> \<not> isl (fst (timing s e))"
  by (simp add: timed Let_def)

lemma run_early:
  "filter (\<lambda>r. \<not> isl r) (fst (run_steps timing s es))
     = fst (run_steps timing s (filter (\<lambda>e. origin s \<le> observed e) es))
   \<and> snd (run_steps timing s es) = snd (run_steps timing s (filter (\<lambda>e. origin s \<le> observed e) es))"
proof (induction es arbitrary: s)
  case (Cons e es)
  show ?case
  proof (cases "origin s \<le> observed e")
    case True
    with Cons.IH [of "snd (timing s e)"] timed_Inr [OF True] show ?thesis
      by (simp add: timed_origin)
  next
    case False
    then have "timing s e = (Inl (ObservationBeforeStreamStart (origin s) (observed e)), s)"
      by (simp add: too_early)
    with False Cons.IH [of s] show ?thesis by simp
  qed
qed simp

lemma run_error_iff:
  "i < length es \<Longrightarrow> isl (fst (run_steps timing s es) ! i) \<longleftrightarrow> observed (es ! i) < origin s"
proof (induction es arbitrary: s i)
  case (Cons e es)
  show ?case
  proof (cases i)
    case 0
    then show ?thesis
      using timed_Inr [of s e] too_early [of e s] by (cases "origin s \<le> observed e") auto
  next
    case (Suc j)
    with Cons show ?thesis by (simp add: timed_origin)
  qed
qed simp

end

text \<open>\<open>video_timing\<close> and \<open>audio_timing\<close> keep the contract.\<close>

abbreviation video_position :: "timed_video_frame \<Rightarrow> u64" where
  "video_position e \<equiv> sat_mul (timestamp_unwrapped_ms (tv_frame e)) 1000"

abbreviation video_duration :: "timed_video_frame \<Rightarrow> u64" where
  "video_duration e \<equiv> sat_mul (ucast (timestamp_delta_to_next_ms (tv_frame e))) 1000"

abbreviation audio_position :: "timed_audio_chunk \<Rightarrow> u64" where
  "audio_position e \<equiv> samples_to_us (start_sample_frame (ta_chunk e)) (nonzero_get (sample_rate_hz (ta_format e)))"

abbreviation audio_duration :: "timed_audio_chunk \<Rightarrow> u64" where
  "audio_duration e \<equiv> samples_to_us (ucast (sample_frames (ta_chunk e))) (nonzero_get (sample_rate_hz (ta_format e)))"

lemma observed_pts_cases:
  "observed < stream_start s \<Longrightarrow>
     observed_pts s observed = Inl (ObservationBeforeStreamStart (stream_start s) observed)"
  "stream_start s \<le> observed \<Longrightarrow>
     observed_pts s observed = Inr (as_micros observed - as_micros (stream_start s))"
  by (auto simp: observed_pts_def duration_since_None_iff)
    (simp add: duration_since_def checked_sub_def less_eq_monotonic_timestamp_def)

interpretation video_clock: media_clock video_timing stream_start video_anchor last_video_position_us
    observed_at video_position video_duration tv_discontinuity
  by unfold_locales
    (auto simp: video_timing_def observed_pts_cases first_anchor_def Let_def split: option.splits sum.splits)

interpretation audio_clock: media_clock audio_timing stream_start audio_anchor last_audio_end_us
    observed_start audio_position audio_duration ta_discontinuity
  by unfold_locales
    (auto simp: audio_timing_def observed_pts_cases first_anchor_def Let_def split: option.splits sum.splits)

lemma uint_sat_add: "uint a + uint b < 2 ^ 64 \<Longrightarrow> uint (sat_add a b) = uint a + uint b" for a b :: u64
  by (simp add: sat_code uint_word_ariths)

lemma successively_before: "successively P xs \<Longrightarrow> 0 < i \<Longrightarrow> i < length xs \<Longrightarrow> P (xs ! (i - Suc 0)) (xs ! i)"
  by (cases i) (simp_all add: successively_conv_nth)

context media_clock
begin

text \<open>
  A media clock whose events follow each other, up to one microsecond of rounding, gives a timeline
  that keeps every distance of the clock; the rounding is what is flagged.
\<close>

lemma run_steady:
  assumes accepted: "\<forall>e \<in> set es. origin s \<le> observed e"
    and fresh: "anchor_of s = None" "last_end s = None"
    and intact: "\<forall>e \<in> set es. \<not> lost e"
    and near: "successively (\<lambda>e f. uint (position_of f) - uint (position_of e) - uint (duration_of e) \<in> {0, 1}) es"
    and room: "\<forall>e \<in> set es. uint (as_micros (observed (hd es))) + uint (position_of e) + uint (duration_of e) < 2 ^ 64"
  obtains ts where "fst (run_steps timing s es) = map Inr ts"
    and "map duration_us ts = map duration_of es"
    and "\<And>i. i < length es \<Longrightarrow> uint (pts_us (ts ! i)) = uint (as_micros (observed (hd es))) - uint (as_micros (origin s))
           + (uint (position_of (es ! i)) - uint (position_of (hd es)))"
    and "\<And>i. i < length es \<Longrightarrow> discontinuity (ts ! i) \<longleftrightarrow>
           i > 0 \<and> uint (position_of (es ! i)) \<noteq> uint (position_of (es ! (i - 1))) + uint (duration_of (es ! (i - 1)))"
proof -
  let ?rs = "fst (run_steps timing s es)"
  define ts where "ts = map projr ?rs"
  have step: "uint (position_of (es ! Suc i)) - uint (position_of (es ! i)) - uint (duration_of (es ! i)) \<in> {0, 1}"
    if "Suc i < length es" for i
    using near that by (simp add: successively_conv_nth)
  have mono: "uint (position_of (es ! 0)) \<le> uint (position_of (es ! i))" if "i < length es" for i
    using that
  proof (induction i)
    case (Suc i)
    have nonneg: "0 \<le> uint (duration_of (es ! i))" by simp
    from Suc have "uint (position_of (es ! 0)) \<le> uint (position_of (es ! i))" by simp
    with nonneg show ?case using step [OF Suc.prems] by (elim insertE) (linarith, linarith, simp)
  qed simp
  have nth: "?rs ! i = Inr (ts ! i)
      \<and> uint (pts_us (ts ! i)) = uint (as_micros (observed (hd es))) - uint (as_micros (origin s))
           + (uint (position_of (es ! i)) - uint (position_of (hd es)))
      \<and> duration_us (ts ! i) = duration_of (es ! i)
      \<and> (discontinuity (ts ! i) \<longleftrightarrow>
           i > 0 \<and> uint (position_of (es ! i)) \<noteq> uint (position_of (es ! (i - 1))) + uint (duration_of (es ! (i - 1))))"
    if i: "i < length es" for i
  proof -
    have zero: "es ! 0 \<in> set es" "hd es = es ! 0" using i by (cases es; simp)+
    with accepted have o: "uint (as_micros (origin s)) \<le> uint (as_micros (observed (es ! 0)))"
      by (auto simp: less_eq_monotonic_timestamp_def word_le_def)
    have r: "uint (as_micros (observed (es ! 0))) + uint (position_of (es ! i)) + uint (duration_of (es ! i)) < 2 ^ 64"
      using room i zero by auto
    have nonneg: "0 \<le> uint (duration_of (es ! i))" "0 \<le> uint (position_of (es ! 0))" by simp_all
    have ends: "uint (sat_add (position_of (es ! (i - 1))) (duration_of (es ! (i - 1))))
        = uint (position_of (es ! (i - 1))) + uint (duration_of (es ! (i - 1)))"
    proof -
      have "es ! (i - 1) \<in> set es" using i by simp
      moreover have "0 \<le> uint (as_micros (observed (hd es)))" by simp
      ultimately have "uint (position_of (es ! (i - 1))) + uint (duration_of (es ! (i - 1))) < 2 ^ 64"
        using room by (smt (verit, best))
      then show ?thesis by (rule uint_sat_add)
    qed
    obtain t where t: "?rs ! i = Inr t"
      and pts: "uint (pts_us t) = clamp_u64 ((uint (as_micros (observed (es ! 0))) - uint (as_micros (origin s)))
           + (uint (position_of (es ! i)) - uint (position_of (es ! 0))))"
      and dur: "duration_us t = duration_of (es ! i)"
      and disc: "discontinuity t \<longleftrightarrow> lost (es ! i) \<or>
           (i > 0 \<and> position_of (es ! i) \<noteq> sat_add (position_of (es ! (i - 1))) (duration_of (es ! (i - 1))))"
      by (rule run_fresh [OF accepted fresh i])
    have "ts ! i = t" using t i by (simp add: ts_def)
    moreover have "discontinuity t \<longleftrightarrow>
        i > 0 \<and> uint (position_of (es ! i)) \<noteq> uint (position_of (es ! (i - 1))) + uint (duration_of (es ! (i - 1)))"
      using disc ends intact i by (simp add: word_uint_eq_iff)
    moreover have "clamp_u64 (uint (as_micros (observed (es ! 0))) - uint (as_micros (origin s))
          + (uint (position_of (es ! i)) - uint (position_of (es ! 0))))
        = uint (as_micros (observed (es ! 0))) - uint (as_micros (origin s))
          + (uint (position_of (es ! i)) - uint (position_of (es ! 0)))"
    proof (rule clamp_u64_id)
      have "0 \<le> uint (as_micros (origin s))" by simp
      then show "uint (as_micros (observed (es ! 0))) - uint (as_micros (origin s))
          + (uint (position_of (es ! i)) - uint (position_of (es ! 0))) < 2 ^ 64"
        using r nonneg by linarith
    qed (use o mono [OF i] in linarith)
    ultimately show ?thesis using t pts dur zero(2) by simp
  qed
  show ?thesis
  proof (rule that [of ts])
    show "?rs = map Inr ts" using nth by (auto intro!: nth_equalityI simp: ts_def)
    show "map duration_us ts = map duration_of es" using nth by (auto intro!: nth_equalityI simp: ts_def)
  qed (use nth in blast)+
qed

text \<open>A media clock without gaps gives a timeline without gaps.\<close>

lemma run_gap_free:
  assumes accepted: "\<forall>e \<in> set es. origin s \<le> observed e"
    and fresh: "anchor_of s = None" "last_end s = None"
    and intact: "\<forall>e \<in> set es. \<not> lost e"
    and contiguous: "successively (\<lambda>e f. uint (position_of f) = uint (position_of e) + uint (duration_of e)) es"
    and room: "\<forall>e \<in> set es. uint (as_micros (observed (hd es))) + uint (position_of e) + uint (duration_of e) < 2 ^ 64"
  obtains ts where "fst (run_steps timing s es) = map Inr ts"
    and "\<forall>t \<in> set ts. \<not> discontinuity t"
    and "map duration_us ts = map duration_of es"
    and "successively (\<lambda>t u. uint (pts_us u) = uint (pts_us t) + uint (duration_us t)) ts"
    and "es \<noteq> [] \<Longrightarrow> uint (pts_us (hd ts)) = uint (as_micros (observed (hd es))) - uint (as_micros (origin s))"
proof -
  have "successively (\<lambda>e f. uint (position_of f) - uint (position_of e) - uint (duration_of e) \<in> {0, 1}) es"
    by (rule successively_mono [OF contiguous]) simp_all
  from run_steady [OF accepted fresh intact this room] obtain ts where ts: "fst (run_steps timing s es) = map Inr ts"
    "map duration_us ts = map duration_of es"
    and pts: "\<And>i. i < length es \<Longrightarrow> uint (pts_us (ts ! i)) = uint (as_micros (observed (hd es))) - uint (as_micros (origin s))
           + (uint (position_of (es ! i)) - uint (position_of (hd es)))"
    and disc: "\<And>i. i < length es \<Longrightarrow> discontinuity (ts ! i) \<longleftrightarrow>
           i > 0 \<and> uint (position_of (es ! i)) \<noteq> uint (position_of (es ! (i - 1))) + uint (duration_of (es ! (i - 1)))"
    by metis
  have len: "length ts = length es" using arg_cong [OF ts(2), of length] by simp
  have dur: "duration_us (ts ! i) = duration_of (es ! i)" if "i < length es" for i
    using arg_cong [OF ts(2), of "\<lambda>xs. xs ! i"] that len by simp
  show ?thesis
  proof (rule that [OF ts(1) _ ts(2)])
    show "\<forall>t \<in> set ts. \<not> discontinuity t"
      using disc successively_before [OF contiguous] len by (auto simp: in_set_conv_nth)
    show "successively (\<lambda>t u. uint (pts_us u) = uint (pts_us t) + uint (duration_us t)) ts"
      using pts dur contiguous len by (auto simp: successively_conv_nth)
    show "uint (pts_us (hd ts)) = uint (as_micros (observed (hd es))) - uint (as_micros (origin s))" if "es \<noteq> []"
      using pts [of 0] len that by (cases es; cases ts) simp_all
  qed
qed

lemma run_errors: "map isl (fst (run_steps timing s es)) = map (\<lambda>e. observed e < origin s) es"
  by (rule nth_equalityI) (simp_all add: run_error_iff)

end

subsection \<open>Properties\<close>

lemma synchronizer_new_simps [simp]:
  "stream_start (synchronizer_new start) = start"
  "video_anchor (synchronizer_new start) = None" "audio_anchor (synchronizer_new start) = None"
  "last_video_position_us (synchronizer_new start) = None" "last_audio_end_us (synchronizer_new start) = None"
  by (simp_all add: synchronizer_new_def)

text \<open>
  The video timeline: in a run of frames observed after the stream start, every
  frame is timed, the first at its observation time, the others at the first one's time plus
  the distance of their camera positions (clamped to 64 bits), whatever their arrival jitter;
  the jitter is reported exactly as the drift, and a discontinuity exactly when the backend
  reported a loss or the camera position is not the end of the frame before.
\<close>
theorem video_timeline:
  assumes "\<forall>e \<in> set es. start \<le> observed_at e" and "i < length es"
  shows "\<exists>t. fst (run_steps video_timing (synchronizer_new start) es) ! i = Inr t
    \<and> uint (pts_us t) = clamp_u64 (uint (as_micros (observed_at (es ! 0))) - uint (as_micros start)
        + (uint (video_position (es ! i)) - uint (video_position (es ! 0))))
    \<and> duration_us t = video_duration (es ! i)
    \<and> sint (observed_drift_us t)
        = clamp_i64 (uint (as_micros (observed_at (es ! i))) - uint (as_micros start) - uint (pts_us t))
    \<and> (discontinuity t \<longleftrightarrow> tv_discontinuity (es ! i) \<or>
        (i > 0 \<and> video_position (es ! i) \<noteq> sat_add (video_position (es ! (i - 1))) (video_duration (es ! (i - 1)))))"
  using video_clock.run_fresh [of es "synchronizer_new start" i] assms by (metis synchronizer_new_simps)

text \<open>
  The audio timeline: the same for PCM blocks, positioned on the sample clock of
  their format.
\<close>
theorem audio_timeline:
  assumes "\<forall>e \<in> set es. start \<le> observed_start e" and "i < length es"
  shows "\<exists>t. fst (run_steps audio_timing (synchronizer_new start) es) ! i = Inr t
    \<and> uint (pts_us t) = clamp_u64 (uint (as_micros (observed_start (es ! 0))) - uint (as_micros start)
        + (uint (audio_position (es ! i)) - uint (audio_position (es ! 0))))
    \<and> duration_us t = audio_duration (es ! i)
    \<and> sint (observed_drift_us t)
        = clamp_i64 (uint (as_micros (observed_start (es ! i))) - uint (as_micros start) - uint (pts_us t))
    \<and> (discontinuity t \<longleftrightarrow> ta_discontinuity (es ! i) \<or>
        (i > 0 \<and> audio_position (es ! i) \<noteq> sat_add (audio_position (es ! (i - 1))) (audio_duration (es ! (i - 1)))))"
  using audio_clock.run_fresh [of es "synchronizer_new start" i] assms by (metis synchronizer_new_simps)

text \<open>A sample run: a late first frame, jitter, and a lost frame.\<close>

definition sample_video :: "u64 \<Rightarrow> u64 \<Rightarrow> timed_video_frame" where
  "sample_video ms observed =
     \<lparr>observed_at = MonotonicTimestamp observed,
      tv_frame = \<lparr>fr_sequence = 0, timestamp_11bit_ms = ucast ms, timestamp_unwrapped_ms = ms,
        timestamp_delta_to_next_ms = 40, fr_flags = 0, fr_jpeg = []\<rparr>,
      tv_discontinuity = False\<rparr>"

definition sample_audio :: "u64 \<Rightarrow> u32 \<Rightarrow> u32 \<Rightarrow> u64 \<Rightarrow> timed_audio_chunk" where
  "sample_audio start count rate observed =
     \<lparr>observed_start = MonotonicTimestamp observed, ta_accuracy = Hardware,
      ta_format = \<lparr>sample_rate_hz = nonzero_or_one rate, af_channels = nonzero_or_one 2,
        af_encoding = Signed16LittleEndian\<rparr>,
      ta_chunk = \<lparr>pcm = [], start_sample_frame = start, sample_frames = count\<rparr>,
      ta_discontinuity = False\<rparr>"

lemma sample_positions:
  "video_position (sample_video 0 x) = 0" "video_position (sample_video 40 x) = 40000"
  "video_position (sample_video 120 x) = 120000" "video_duration (sample_video ms x) = 40000"
  "audio_position (sample_audio 0 n 16000 x) = 0" "audio_position (sample_audio 640 n 16000 x) = 40000"
  "audio_duration (sample_audio s 640 16000 x) = 40000"
  by (simp_all add: sample_video_def sample_audio_def samples_to_us_def sat_mul_def)

lemma sample_observed [simp]:
  "observed_at (sample_video ms x) = MonotonicTimestamp x" "\<not> tv_discontinuity (sample_video ms x)"
  "observed_start (sample_audio s n r x) = MonotonicTimestamp x" "\<not> ta_discontinuity (sample_audio s n r x)"
  by (simp_all add: sample_video_def sample_audio_def)

theorem video_timeline_witness:
  "\<exists>t. fst (run_steps video_timing (synchronizer_new (MonotonicTimestamp 1000))
        [sample_video 0 11000, sample_video 40 54000, sample_video 120 130000]) ! 2 = Inr t
    \<and> uint (pts_us t) = 130000 \<and> sint (observed_drift_us t) = -1000 \<and> discontinuity t"
  using video_timeline [of "[sample_video 0 11000, sample_video 40 54000, sample_video 120 130000]" "MonotonicTimestamp 1000" 2]
  by (auto simp: sample_positions clamp_i64_def sat_add_def)

theorem audio_timeline_witness:
  "\<exists>t. fst (run_steps audio_timing (synchronizer_new (MonotonicTimestamp 1000))
        [sample_audio 0 640 16000 11000, sample_audio 640 640 16000 54000]) ! 1 = Inr t
    \<and> uint (pts_us t) = 50000 \<and> sint (observed_drift_us t) = 3000 \<and> \<not> discontinuity t"
  using audio_timeline [of "[sample_audio 0 640 16000 11000, sample_audio 640 640 16000 54000]" "MonotonicTimestamp 1000" 1]
  by (auto simp: sample_positions clamp_i64_def sat_add_def)

text \<open>
  Early events: a frame or block observed before the stream start, and no
  other, is an error, and it leaves the synchronizer as it was: the later ones get the timings,
  and the synchronizer the state, that they would have without the early ones.
\<close>
theorem early_events_ignored:
  "map isl (fst (run_steps video_timing s vs)) = map (\<lambda>e. observed_at e < stream_start s) vs
   \<and> filter (\<lambda>r. \<not> isl r) (fst (run_steps video_timing s vs))
       = fst (run_steps video_timing s (filter (\<lambda>e. stream_start s \<le> observed_at e) vs))
   \<and> snd (run_steps video_timing s vs)
       = snd (run_steps video_timing s (filter (\<lambda>e. stream_start s \<le> observed_at e) vs))
   \<and> map isl (fst (run_steps audio_timing s as)) = map (\<lambda>e. observed_start e < stream_start s) as
   \<and> filter (\<lambda>r. \<not> isl r) (fst (run_steps audio_timing s as))
       = fst (run_steps audio_timing s (filter (\<lambda>e. stream_start s \<le> observed_start e) as))
   \<and> snd (run_steps audio_timing s as)
       = snd (run_steps audio_timing s (filter (\<lambda>e. stream_start s \<le> observed_start e) as))"
  using video_clock.run_errors [of s vs] video_clock.run_early [of s vs]
    audio_clock.run_errors [of s as] audio_clock.run_early [of s as]
  by blast

subsection \<open>The two clocks are independent\<close>

fun videos :: "timed_media_event list \<Rightarrow> timed_video_frame list" where
  "videos [] = []"
| "videos (VideoEvent f # es) = f # videos es"
| "videos (AudioEvent c # es) = videos es"

fun audios :: "timed_media_event list \<Rightarrow> timed_audio_chunk list" where
  "audios [] = []"
| "audios (VideoEvent f # es) = audios es"
| "audios (AudioEvent c # es) = c # audios es"

primrec is_video :: "timed_media_event \<Rightarrow> bool" where
  "is_video (VideoEvent f) = True"
| "is_video (AudioEvent c) = False"

definition results_for :: "(timed_media_event \<Rightarrow> bool) \<Rightarrow> timed_media_event list \<Rightarrow> 'r list \<Rightarrow> 'r list" where
  "results_for P es rs = map snd (filter (\<lambda>(e, _). P e) (zip es rs))"

lemma results_for_simps [simp]:
  "results_for P [] rs = []"
  "results_for P (e # es) (r # rs) = (if P e then r # results_for P es rs else results_for P es rs)"
  by (simp_all add: results_for_def)

definition video_view :: "av_synchronizer \<Rightarrow> monotonic_timestamp \<times> clock_anchor option \<times> u64 option" where
  "video_view s = (stream_start s, video_anchor s, last_video_position_us s)"

definition audio_view :: "av_synchronizer \<Rightarrow> monotonic_timestamp \<times> clock_anchor option \<times> u64 option" where
  "audio_view s = (stream_start s, audio_anchor s, last_audio_end_us s)"

lemma video_timing_view:
  "video_view s = video_view s' \<Longrightarrow> fst (video_timing s e) = fst (video_timing s' e)
     \<and> video_view (snd (video_timing s e)) = video_view (snd (video_timing s' e))"
  "audio_view (snd (video_timing s e)) = audio_view s"
  by (auto simp: video_view_def audio_view_def video_timing_def observed_pts_def Let_def split: sum.splits)

lemma audio_timing_view:
  "audio_view s = audio_view s' \<Longrightarrow> fst (audio_timing s e) = fst (audio_timing s' e)
     \<and> audio_view (snd (audio_timing s e)) = audio_view (snd (audio_timing s' e))"
  "video_view (snd (audio_timing s e)) = video_view s"
  by (auto simp: video_view_def audio_view_def audio_timing_def observed_pts_def Let_def split: sum.splits)

lemma event_runs_video:
  "video_view s = video_view s' \<Longrightarrow>
   results_for is_video es (fst (run_steps event_timing s es)) = fst (run_steps video_timing s' (videos es))"
proof (induction es arbitrary: s s' rule: videos.induct)
  case (2 f es)
  then show ?case using video_timing_view(1) [of s s' f] by (simp add: event_timing_def)
next
  case (3 c es)
  then show ?case using audio_timing_view(2) [of s c] by (simp add: event_timing_def)
qed simp

lemma event_runs_audio:
  "audio_view s = audio_view s' \<Longrightarrow>
   results_for (\<lambda>e. \<not> is_video e) es (fst (run_steps event_timing s es)) = fst (run_steps audio_timing s' (audios es))"
proof (induction es arbitrary: s s' rule: audios.induct)
  case (2 f es)
  then show ?case using video_timing_view(2) [of s f] by (simp add: event_timing_def)
next
  case (3 c es)
  then show ?case using audio_timing_view(1) [of s s' c] by (simp add: event_timing_def)
qed simp

text \<open>
  The order in which video and audio events reach the synchronizer does not
  matter: in every interleaving the video events get the timings of the video events alone,
  and the audio events those of the audio events alone.
\<close>
theorem media_clocks_independent:
  "results_for is_video es (fst (run_steps event_timing s es)) = fst (run_steps video_timing s (videos es))
   \<and> results_for (\<lambda>e. \<not> is_video e) es (fst (run_steps event_timing s es))
       = fst (run_steps audio_timing s (audios es))"
  by (simp add: event_runs_video event_runs_audio)

subsection \<open>From the decoder and the sample clock to the timeline\<close>

lemma scaled_parts:
  fixes a b k m :: int
  assumes "k * (a + b) < m" and "0 \<le> a" and "0 \<le> b" and "0 \<le> k"
  shows "a * k < m" and "b * k < m" and "(a + b) * k < m"
proof -
  have "0 \<le> a * k" "0 \<le> b * k" using assms by simp_all
  then show "a * k < m" "b * k < m" "(a + b) * k < m"
    using assms(1) by (simp_all add: algebra_simps)
qed

lemma video_step_contiguous:
  assumes "contiguous (tv_frame e) (tv_frame f)"
    and "1000 * (uint (timestamp_unwrapped_ms (tv_frame e)) + uint (timestamp_delta_to_next_ms (tv_frame e))) < 2 ^ 64"
  shows "uint (video_position f) = uint (video_position e) + uint (video_duration e)"
proof -
  let ?t = "timestamp_unwrapped_ms (tv_frame e)" and ?d = "timestamp_delta_to_next_ms (tv_frame e)"
  have nonneg: "0 \<le> uint ?t" "0 \<le> uint ?d" by simp_all
  then have "uint (?t + ucast ?d) = uint ?t + uint ?d"
    using assms(2) by (subst uint_word_add) (simp_all)
  then have "uint (timestamp_unwrapped_ms (tv_frame f)) = uint ?t + uint ?d"
    using assms(1) by (simp add: contiguous_def)
  moreover have "uint ?t * 1000 < 2 ^ 64" "uint ?d * 1000 < 2 ^ 64" "(uint ?t + uint ?d) * 1000 < 2 ^ 64"
    using scaled_parts [OF assms(2) nonneg] by simp_all
  ultimately show ?thesis
    by (simp add: uint_sat_mul distrib_right)
qed

text \<open>
  Property C14. End to end for video: the frames that the decoder assembles from a packet
  sequence without errors, observed in any jitter after the stream start, get a timeline
  without discontinuities in which every frame is presented exactly when the frame before it
  ends, as long as the times fit 64 bits.
\<close>
theorem decoded_video_gap_free:
  assumes "fits maximum (camera_records ps)"
    and "fst (push_packets (with_max_record_size maximum) ps) = map Inr (map tv_frame es)"
    and "\<forall>e \<in> set es. start \<le> observed_at e \<and> \<not> tv_discontinuity e"
    and "\<forall>e \<in> set es. uint (as_micros (observed_at (hd es)))
        + 1000 * (uint (timestamp_unwrapped_ms (tv_frame e)) + uint (timestamp_delta_to_next_ms (tv_frame e))) < 2 ^ 64"
  shows "\<exists>ts. fst (run_steps video_timing (synchronizer_new start) es) = map Inr ts
    \<and> (\<forall>t \<in> set ts. \<not> discontinuity t)
    \<and> successively (\<lambda>t u. uint (pts_us u) = uint (pts_us t) + uint (duration_us t)) ts
    \<and> (es \<noteq> [] \<longrightarrow> uint (pts_us (hd ts)) = uint (as_micros (observed_at (hd es))) - uint (as_micros start))"
proof -
  have "outcomes_of 0 0 (tl (camera_records ps)) = map Inr (map tv_frame es)"
    using push_packets_resync [of "with_max_record_size maximum" ps] assms(1,2)
    by (simp add: with_max_record_size_def decoder_new_def)
  then have chain: "successively (\<lambda>e f. contiguous (tv_frame e) (tv_frame f)) es"
    using outcomes_contiguous by (fastforce simp: successively_map)
  have fit: "1000 * (uint (timestamp_unwrapped_ms (tv_frame e)) + uint (timestamp_delta_to_next_ms (tv_frame e))) < 2 ^ 64"
    if "e \<in> set es" for e
  proof -
    have "0 \<le> uint (as_micros (observed_at (hd es)))" by simp
    then show ?thesis using bspec [OF assms(4) that] by linarith
  qed
  have steps: "successively (\<lambda>e f. uint (video_position f) = uint (video_position e) + uint (video_duration e)) es"
    by (rule successively_mono [OF chain]) (blast intro: video_step_contiguous fit)
  have room: "\<forall>e \<in> set es. uint (as_micros (observed_at (hd es))) + uint (video_position e) + uint (video_duration e) < 2 ^ 64"
  proof
    fix e assume e: "e \<in> set es"
    have nonneg: "0 \<le> uint (timestamp_unwrapped_ms (tv_frame e))" "0 \<le> uint (timestamp_delta_to_next_ms (tv_frame e))"
      by simp_all
    then have "uint (video_position e) = uint (timestamp_unwrapped_ms (tv_frame e)) * 1000"
      "uint (video_duration e) = uint (timestamp_delta_to_next_ms (tv_frame e)) * 1000"
      using scaled_parts [OF fit [OF e] nonneg] by (simp_all add: uint_sat_mul)
    then show "uint (as_micros (observed_at (hd es))) + uint (video_position e) + uint (video_duration e) < 2 ^ 64"
      using assms(4) e by (simp add: algebra_simps)
  qed
  show ?thesis
    by (rule video_clock.run_gap_free [of es "synchronizer_new start"]) (use assms(3) steps room in auto)
qed

lemma nonzero_get_uint: "0 < uint (nonzero_get r)"
proof -
  have "uint (nonzero_get r) \<noteq> 0" "0 \<le> uint (nonzero_get r)" by (simp_all add: unsigned_eq_0_iff)
  then show ?thesis by linarith
qed

lemma sum_room: "x + k * (a + b) < m \<Longrightarrow> p \<le> a * k \<Longrightarrow> d \<le> b * k \<Longrightarrow> x + p + d < m" for a b d k m p x :: int
  by (simp add: algebra_simps)

lemma div_le_self: "0 \<le> a \<Longrightarrow> a div r \<le> a" if "0 < r" for a r :: int
  using zdiv_mono2 [of a 1 r] that by simp

definition sample_decoded :: "timed_video_frame list" where
  "sample_decoded =
     [\<lparr>observed_at = MonotonicTimestamp 5000, tv_frame = \<lparr>fr_sequence = 0, timestamp_11bit_ms = 0x7f0,
        timestamp_unwrapped_ms = 0, timestamp_delta_to_next_ms = 32, fr_flags = 0,
        fr_jpeg = JPEG_HEADER @ stuff_bytes ([1, 0xff, 0] @ replicate 6 0xff @ [1, 1, 5]) @ [0xff, 0xd9]\<rparr>,
        tv_discontinuity = False\<rparr>,
      \<lparr>observed_at = MonotonicTimestamp 39000, tv_frame = \<lparr>fr_sequence = 1, timestamp_11bit_ms = 0x10,
        timestamp_unwrapped_ms = 32, timestamp_delta_to_next_ms = 40, fr_flags = 0,
        fr_jpeg = JPEG_HEADER @ stuff_bytes [3] @ [0xff, 0xd9]\<rparr>, tv_discontinuity = False\<rparr>]"

theorem decoded_video_gap_free_witness:
  "\<exists>ts. fst (run_steps video_timing (synchronizer_new (MonotonicTimestamp 1000)) sample_decoded) = map Inr ts
    \<and> successively (\<lambda>t u. uint (pts_us u) = uint (pts_us t) + uint (duration_us t)) ts"
proof -
  have recs: "camera_records sample_packets
      = [(0x010, 0, [9]), (0x7f0, 0, [1, 0xff, 0] @ replicate 6 0xff @ [1, 1, 5]), (0x010, 0, [3]), (0x038, 0, [7])]"
    by code_simp
  have fits: "fits 64 (camera_records sample_packets)" by (simp add: recs)
  have deltas: "timestamp_delta 16 2032 = 32" "timestamp_delta 56 16 = 40" by code_simp+
  have frames: "fst (push_packets (with_max_record_size 64) sample_packets) = map Inr (map tv_frame sample_decoded)"
    using push_packets_resync [of "with_max_record_size 64" sample_packets] fits
    by (simp add: with_max_record_size_def decoder_new_def recs deltas sample_decoded_def reconstruct_jpeg_nonzero Let_def)
  have observed: "\<forall>e \<in> set sample_decoded. MonotonicTimestamp 1000 \<le> observed_at e \<and> \<not> tv_discontinuity e"
    by (simp add: sample_decoded_def)
  have room: "\<forall>e \<in> set sample_decoded. uint (as_micros (observed_at (hd sample_decoded)))
      + 1000 * (uint (timestamp_unwrapped_ms (tv_frame e)) + uint (timestamp_delta_to_next_ms (tv_frame e))) < 2 ^ 64"
    by (simp add: sample_decoded_def)
  show ?thesis
    using decoded_video_gap_free [OF fits frames observed room] by blast
qed

lemma samples_to_us_uint:
  assumes "uint n * 1000000 < 2 ^ 64"
  shows "uint (samples_to_us n r) = uint n * 1000000 div uint r"
  using assms uint_sat_mul [of n 1000000]
  by (simp add: samples_to_us_def uint_div)

lemma rounded_distance:
  fixes r a b :: int
  assumes "0 < r"
  shows "\<bar>r * (a * 1000000 div r - b * 1000000 div r) - 1000000 * (a - b)\<bar> < r"
proof -
  have "r * (x div r) = x - x mod r" for x :: int by (simp add: minus_mod_eq_mult_div)
  moreover have "0 \<le> x mod r" "x mod r < r" for x :: int using assms by simp_all
  ultimately show ?thesis by (simp add: right_diff_distrib) (smt (verit, best))
qed

lemma div_carry:
  fixes a b r :: int
  assumes "0 < r"
  shows "(a + b) div r - a div r - b div r \<in> {0, 1}"
    and "r dvd b \<Longrightarrow> (a + b) div r = a div r + b div r"
proof -
  have "0 \<le> a mod r + b mod r" "a mod r + b mod r < 2 * r"
    using assms pos_mod_bound [of r a] pos_mod_bound [of r b] by (simp, linarith)
  then have "(a mod r + b mod r) div r \<in> {0, 1}"
    using assms by (cases "a mod r + b mod r < r") (auto simp: div_pos_geq)
  then show "(a + b) div r - a div r - b div r \<in> {0, 1}" using div_add1_eq [of a b r] by auto
qed (rule div_plus_div_distrib_dvd_right)

text \<open>Contiguous blocks are contiguous in microseconds, but for the rounding.\<close>

lemma audio_step_rounded:
  assumes "start_sample_frame (ta_chunk f) = start_sample_frame (ta_chunk e) + ucast (sample_frames (ta_chunk e))"
    and "ta_format f = ta_format e"
    and "1000000 * (uint (start_sample_frame (ta_chunk e)) + uint (sample_frames (ta_chunk e))) < 2 ^ 64"
  shows "uint (audio_position f) - uint (audio_position e) - uint (audio_duration e) \<in> {0, 1}"
    and "uint (nonzero_get (sample_rate_hz (ta_format e))) dvd 1000000 * uint (sample_frames (ta_chunk e)) \<Longrightarrow>
      uint (audio_position f) = uint (audio_position e) + uint (audio_duration e)"
proof -
  let ?s = "start_sample_frame (ta_chunk e)" and ?n = "sample_frames (ta_chunk e)"
    and ?r = "uint (nonzero_get (sample_rate_hz (ta_format e)))"
  have nonneg: "0 \<le> uint ?s" "0 \<le> uint ?n" by simp_all
  then have next_start: "uint (?s + ucast ?n) = uint ?s + uint ?n"
    using assms(3) by (subst uint_word_add) (simp_all)
  have "uint ?s * 1000000 < 2 ^ 64" "uint ?n * 1000000 < 2 ^ 64" "(uint ?s + uint ?n) * 1000000 < 2 ^ 64"
    using scaled_parts [OF assms(3) nonneg] by simp_all
  then have parts: "uint (audio_position f) = (uint ?s * 1000000 + uint ?n * 1000000) div ?r"
    "uint (audio_position e) = uint ?s * 1000000 div ?r" "uint (audio_duration e) = uint ?n * 1000000 div ?r"
    using assms(1,2) by (simp_all add: samples_to_us_uint next_start distrib_right)
  have "0 < ?r" by (simp add: nonzero_get_uint)
  from div_carry [OF this] show "uint (audio_position f) - uint (audio_position e) - uint (audio_duration e) \<in> {0, 1}"
    "?r dvd 1000000 * uint ?n \<Longrightarrow> uint (audio_position f) = uint (audio_position e) + uint (audio_duration e)"
    unfolding parts by (simp_all only: mult.commute)
qed

lemma push_all_contiguous:
  "fst (push_all c ds) = map Inr cs \<Longrightarrow>
   successively (\<lambda>a b. start_sample_frame b = start_sample_frame a + ucast (sample_frames a)) cs
   \<and> (cs \<noteq> [] \<longrightarrow> start_sample_frame (hd cs) = next_sample_frame c)"
proof (induction ds arbitrary: c cs)
  case (Cons d ds)
  then obtain a cs' where cs: "cs = a # cs'" and a: "fst (push_pcm c d) = Inr a"
    and rest: "fst (push_all (snd (push_pcm c d)) ds) = map Inr cs'"
    by (cases cs) (auto simp: case_prod_unfold)
  from a have "start_sample_frame a = next_sample_frame c
      \<and> next_sample_frame (snd (push_pcm c d)) = next_sample_frame c + ucast (sample_frames a)"
    by (auto simp: push_pcm_def Let_def split: if_splits)
  with Cons.IH [OF rest] show ?case by (cases cs') (auto simp: cs)
qed simp



end
