(* ===== verification/Matroska.thy ===== *)
theory Matroska
  imports Av_Sync
begin

section \<open>The Matroska writer\<close>

text \<open>
  Model of \<open>crates/handycam-matroska/src/lib.rs\<close>: EBML elements, the file header and the
  cluster-per-packet writer with its duration patch. The output is a record of the
  operations of \<open>Write\<close> and \<open>Seek\<close> that the writer uses; \<open>Vec<u8>\<close> and
  \<open>Cursor<Vec<u8>>\<close> are the two instances from the standard library. Doubles are their
  64-bit patterns.
\<close>

subsection \<open>Outputs\<close>

type_synonym io_error = string

record 'w output_ops =
  out_write_all :: "bytes \<Rightarrow> 'w \<Rightarrow> (io_error + unit) \<times> 'w"
  out_seek_end :: "'w \<Rightarrow> (io_error + u64) \<times> 'w"
  out_seek_start :: "u64 \<Rightarrow> 'w \<Rightarrow> (io_error + unit) \<times> 'w"
  out_position :: "'w \<Rightarrow> (io_error + u64) \<times> 'w"
  out_flush :: "'w \<Rightarrow> (io_error + unit) \<times> 'w"

definition wbind ::
  "('e + 'a) \<times> 'w \<Rightarrow> ('a \<Rightarrow> 'w \<Rightarrow> ('e + 'b) \<times> 'w) \<Rightarrow> ('e + 'b) \<times> 'w" where
  "wbind r k = (case r of (Inl e, w) \<Rightarrow> (Inl e, w) | (Inr a, w) \<Rightarrow> k a w)"

text \<open>\<open>impl Write for Vec<u8>\<close>: every write appends.\<close>

definition vec_write_all :: "bytes \<Rightarrow> bytes \<Rightarrow> (io_error + unit) \<times> bytes" where
  "vec_write_all data v = (Inr (), v @ data)"

text \<open>
  \<open>Cursor<Vec<u8>>\<close>: a write overwrites from the position on and extends the vector, after
  filling a gap with zeros.
\<close>

record cursor =
  cur_content :: bytes
  cur_pos :: nat

definition cursor_write_all :: "bytes \<Rightarrow> cursor \<Rightarrow> (io_error + unit) \<times> cursor" where
  "cursor_write_all data c =
     (let content = cur_content c @ replicate (cur_pos c - length (cur_content c)) 0
      in (Inr (), \<lparr>cur_content = take (cur_pos c) content @ data
                     @ drop (cur_pos c + length data) content,
                   cur_pos = cur_pos c + length data\<rparr>))"

definition cursor_ops :: "cursor output_ops" where
  "cursor_ops =
     \<lparr>out_write_all = cursor_write_all,
      out_seek_end = (\<lambda>c. (Inr (of_nat (length (cur_content c))),
        c\<lparr>cur_pos := length (cur_content c)\<rparr>)),
      out_seek_start = (\<lambda>n c. (Inr (), c\<lparr>cur_pos := unat n\<rparr>)),
      out_position = (\<lambda>c. (Inr (of_nat (cur_pos c)), c)),
      out_flush = (\<lambda>c. (Inr (), c))\<rparr>"

subsection \<open>Doubles\<close>

text \<open>
  \<open>f64_round n d\<close> is the pattern of the double nearest to \<open>n / d\<close>, ties to even, for
  positive values in the normal range; zero is the zero pattern. \<open>f64_of_u64\<close> is the cast
  \<open>as f64\<close>, \<open>f64_parts\<close> reads a pattern as a fraction, and \<open>f64_div\<close> is division.
\<close>

function floor_log2 :: "int \<Rightarrow> nat" where
  "floor_log2 n = (if n < 2 then 0 else Suc (floor_log2 (n div 2)))"
  by auto
termination
  by (relation "measure nat") auto

declare floor_log2.simps [simp del]

definition round_half_even :: "int \<Rightarrow> int \<Rightarrow> int" where
  "round_half_even n d =
     (let q = n div d; r = n mod d
      in if 2 * r < d then q else if 2 * r > d then q + 1 else if even q then q else q + 1)"

text \<open>The exponent \<open>e\<close> with \<open>2 ^ e \<le> n / d < 2 ^ (e + 1)\<close>.\<close>

definition ratio_exponent :: "int \<Rightarrow> int \<Rightarrow> int" where
  "ratio_exponent n d =
     (let e = int (floor_log2 n) - int (floor_log2 d)
      in if (if 0 \<le> e then d * 2 ^ nat e \<le> n else d \<le> n * 2 ^ nat (- e)) then e else e - 1)"

definition f64_round :: "int \<Rightarrow> int \<Rightarrow> u64" where
  "f64_round n d =
     (if n = 0 then 0
      else
        let e = ratio_exponent n d;
            m = (if e \<le> 52 then round_half_even (n * 2 ^ nat (52 - e)) d
                 else round_half_even n (d * 2 ^ nat (e - 52)))
        in word_of_int ((e + 1022) * 2 ^ 52 + m))"

definition f64_of_u64 :: "u64 \<Rightarrow> u64" where
  "f64_of_u64 n = f64_round (uint n) 1"

definition f64_parts :: "u64 \<Rightarrow> int \<times> int" where
  "f64_parts bits =
     (if bits = 0 then (0, 1)
      else
        let e = uint bits div 2 ^ 52 - 1023; m = 2 ^ 52 + uint bits mod 2 ^ 52
        in if e \<ge> 52 then (m * 2 ^ nat (e - 52), 1) else (m, 2 ^ nat (52 - e)))"

definition f64_div :: "u64 \<Rightarrow> u64 \<Rightarrow> u64" where
  "f64_div a b =
     (case f64_parts a of (an, ad) \<Rightarrow> case f64_parts b of (bn, bd) \<Rightarrow>
      f64_round (an * bd) (ad * bn))"

subsection \<open>Elements\<close>

definition size_width :: "u64 \<Rightarrow> io_error + nat" where
  "size_width size' =
     ok_or ''EBML element is too large''
       (find (\<lambda>width. size' < push_bit (7 * width) 1 - 1) [1..<9])"

definition write_id ::
  "(bytes \<Rightarrow> 'w \<Rightarrow> (io_error + unit) \<times> 'w) \<Rightarrow> u32 \<Rightarrow> 'w \<Rightarrow> (io_error + unit) \<times> 'w" where
  "write_id write_all i w =
     (let bs = be_bytes 4 i;
          first = (case position (\<lambda>byte. byte \<noteq> 0) bs of None \<Rightarrow> 3 | Some p \<Rightarrow> p)
      in write_all (drop first bs) w)"

definition write_size ::
  "(bytes \<Rightarrow> 'w \<Rightarrow> (io_error + unit) \<times> 'w) \<Rightarrow> u64 \<Rightarrow> 'w \<Rightarrow> (io_error + unit) \<times> 'w" where
  "write_size write_all n w =
     (case size_width n of
        Inl e \<Rightarrow> (Inl e, w)
      | Inr width \<Rightarrow>
          let encoded = n OR push_bit (7 * width) 1
          in write_all (drop (8 - width) (be_bytes 8 encoded)) w)"

definition element ::
  "(bytes \<Rightarrow> 'w \<Rightarrow> (io_error + unit) \<times> 'w) \<Rightarrow> u32 \<Rightarrow> bytes \<Rightarrow> 'w \<Rightarrow> (io_error + unit) \<times> 'w"
  where
  "element write_all i payload w =
     wbind (write_id write_all i w) (\<lambda>_ w.
     wbind (write_size write_all (of_nat (length payload)) w) (\<lambda>_ w.
     write_all payload w))"

definition uint_element ::
  "(bytes \<Rightarrow> 'w \<Rightarrow> (io_error + unit) \<times> 'w) \<Rightarrow> u32 \<Rightarrow> u64 \<Rightarrow> 'w \<Rightarrow> (io_error + unit) \<times> 'w"
  where
  "uint_element write_all i v w =
     (let bs = be_bytes 8 v;
          first = (case position (\<lambda>byte. byte \<noteq> 0) bs of None \<Rightarrow> 7 | Some p \<Rightarrow> p)
      in element write_all i (drop first bs) w)"

definition float_element ::
  "(bytes \<Rightarrow> 'w \<Rightarrow> (io_error + unit) \<times> 'w) \<Rightarrow> u32 \<Rightarrow> u64 \<Rightarrow> 'w \<Rightarrow> (io_error + unit) \<times> 'w"
  where
  "float_element write_all i v w = element write_all i (be_bytes 8 v) w"

definition ascii :: "string \<Rightarrow> bytes" where
  "ascii s = map of_char s"

definition string_element ::
  "(bytes \<Rightarrow> 'w \<Rightarrow> (io_error + unit) \<times> 'w) \<Rightarrow> u32 \<Rightarrow> string \<Rightarrow> 'w \<Rightarrow> (io_error + unit) \<times> 'w"
  where
  "string_element write_all i v w = element write_all i (ascii v) w"

subsection \<open>Header and clusters\<close>

definition VIDEO_TRACK :: u8 where
  "VIDEO_TRACK = 1"

definition AUDIO_TRACK :: u8 where
  "AUDIO_TRACK = 2"

definition write_header ::
  "'w output_ops \<Rightarrow> audio_format \<Rightarrow> 'w \<Rightarrow> (io_error + u64) \<times> 'w" where
  "write_header ops fmt w =
     (let vec = vec_write_all; put = out_write_all ops
      in case
        wbind (uint_element vec 0x4286 1 []) (\<lambda>_ ebml.
        wbind (uint_element vec 0x42f7 1 ebml) (\<lambda>_ ebml.
        wbind (uint_element vec 0x42f2 4 ebml) (\<lambda>_ ebml.
        wbind (uint_element vec 0x42f3 8 ebml) (\<lambda>_ ebml.
        wbind (string_element vec 0x4282 ''matroska'' ebml) (\<lambda>_ ebml.
        wbind (uint_element vec 0x4287 4 ebml) (\<lambda>_ ebml.
        uint_element vec 0x4285 2 ebml)))))) of
        (Inl e, _) \<Rightarrow> (Inl e, w)
      | (Inr _, ebml) \<Rightarrow>
        wbind (element put 0x1a45dfa3 ebml w) (\<lambda>_ w.
        wbind (write_id put 0x18538067 w) (\<lambda>_ w.
        wbind (put [0x01, 0xff, 0xff, 0xff, 0xff, 0xff, 0xff, 0xff] w) (\<lambda>_ w.
        case uint_element vec 0x2ad7b1 1000000 [] of
          (Inl e, _) \<Rightarrow> (Inl e, w)
        | (Inr _, info) \<Rightarrow>
          let duration_payload_in_info = of_nat (length info) + 3 :: u64
          in case
            wbind (float_element vec 0x4489 0 info) (\<lambda>_ info.
            wbind (string_element vec 0x4d80 ''handycam'' info) (\<lambda>_ info.
            string_element vec 0x5741 ''handycam'' info)) of
            (Inl e, _) \<Rightarrow> (Inl e, w)
          | (Inr _, info) \<Rightarrow>
            wbind (out_position ops w) (\<lambda>info_start w.
            case size_width (of_nat (length info)) of
              Inl e \<Rightarrow> (Inl e, w)
            | Inr info_width \<Rightarrow>
              let info_header_size = 4 + of_nat info_width
              in wbind (element put 0x1549a966 info w) (\<lambda>_ w.
              let duration_offset = info_start + info_header_size + duration_payload_in_info
              in case
                wbind (uint_element vec 0xd7 (ucast VIDEO_TRACK) []) (\<lambda>_ video.
                wbind (uint_element vec 0x73c5 (ucast VIDEO_TRACK) video) (\<lambda>_ video.
                wbind (uint_element vec 0x83 1 video) (\<lambda>_ video.
                wbind (string_element vec 0x86 ''V_MJPEG'' video) (\<lambda>_ video.
                wbind (uint_element vec 0x23e383 40000000 video) (\<lambda>_ video.
                case
                  wbind (uint_element vec 0xb0 (ucast WIDTH) []) (\<lambda>_ settings.
                  uint_element vec 0xba (ucast HEIGHT) settings) of
                  (Inl e, _) \<Rightarrow> (Inl e, video)
                | (Inr _, settings) \<Rightarrow> element vec 0xe0 settings video))))) of
                (Inl e, _) \<Rightarrow> (Inl e, w)
              | (Inr _, video) \<Rightarrow>
              case element vec 0xae video [] of
                (Inl e, _) \<Rightarrow> (Inl e, w)
              | (Inr _, tracks) \<Rightarrow>
              case
                wbind (uint_element vec 0xd7 (ucast AUDIO_TRACK) []) (\<lambda>_ audio.
                wbind (uint_element vec 0x73c5 (ucast AUDIO_TRACK) audio) (\<lambda>_ audio.
                wbind (uint_element vec 0x83 2 audio) (\<lambda>_ audio.
                wbind (string_element vec 0x86 ''A_PCM/INT/LIT'' audio) (\<lambda>_ audio.
                case
                  wbind (float_element vec 0xb5
                    (f64_of_u64 (ucast (nonzero_get (sample_rate_hz fmt)))) []) (\<lambda>_ settings.
                  wbind (uint_element vec 0x9f
                    (ucast (nonzero_get (af_channels fmt))) settings) (\<lambda>_ settings.
                  uint_element vec 0x6264 16 settings)) of
                  (Inl e, _) \<Rightarrow> (Inl e, audio)
                | (Inr _, settings) \<Rightarrow> element vec 0xe1 settings audio)))) of
                (Inl e, _) \<Rightarrow> (Inl e, w)
              | (Inr _, audio) \<Rightarrow>
              case element vec 0xae audio tracks of
                (Inl e, _) \<Rightarrow> (Inl e, w)
              | (Inr _, tracks) \<Rightarrow>
                wbind (element put 0x1654ae6b tracks w) (\<lambda>_ w.
                (Inr duration_offset, w))))))))"

definition write_cluster ::
  "(bytes \<Rightarrow> 'w \<Rightarrow> (io_error + unit) \<times> 'w) \<Rightarrow> u64 \<Rightarrow> u8 \<Rightarrow> bytes \<Rightarrow> 'w
   \<Rightarrow> (io_error + unit) \<times> 'w" where
  "write_cluster write_all pts_ms track data w =
     (case
        wbind (uint_element vec_write_all 0xe7 pts_ms []) (\<lambda>_ cluster.
        let block = [0x80 OR track] @ be_bytes 2 (0 :: u16) @ [0x80] @ data
        in element vec_write_all 0xa3 block cluster) of
        (Inl e, _) \<Rightarrow> (Inl e, w)
      | (Inr _, cluster) \<Rightarrow> element write_all 0x1f43b675 cluster w)"

subsection \<open>The writer\<close>

datatype matroska_error =
    MatroskaIo io_error
  | AudioFormatChanged
  | InvalidPcmLength nat nat

record 'w matroska_writer =
  mw_output :: 'w
  mw_audio_format :: audio_format
  duration_offset :: u64
  maximum_end_us :: u64

definition matroska_new ::
  "'w output_ops \<Rightarrow> 'w \<Rightarrow> audio_format \<Rightarrow> matroska_error + 'w matroska_writer" where
  "matroska_new ops output fmt =
     (case write_header ops fmt output of
        (Inl e, _) \<Rightarrow> Inl (MatroskaIo e)
      | (Inr offset, output) \<Rightarrow>
          Inr \<lparr>mw_output = output, mw_audio_format = fmt, duration_offset = offset,
               maximum_end_us = 0\<rparr>)"

definition io_step ::
  "(io_error + 'a) \<times> 'w \<Rightarrow> 'w matroska_writer \<Rightarrow> ('a \<Rightarrow> 'w matroska_writer
   \<Rightarrow> (matroska_error + 'b) \<times> 'w matroska_writer) \<Rightarrow> (matroska_error + 'b) \<times> 'w matroska_writer"
  where
  "io_step r mw k =
     (case r of
        (Inl e, output) \<Rightarrow> (Inl (MatroskaIo e), mw\<lparr>mw_output := output\<rparr>)
      | (Inr a, output) \<Rightarrow> k a (mw\<lparr>mw_output := output\<rparr>))"

definition note_end :: "media_timing \<Rightarrow> 'w matroska_writer \<Rightarrow> 'w matroska_writer" where
  "note_end timing mw =
     mw\<lparr>maximum_end_us := max (maximum_end_us mw) (sat_add (pts_us timing) (duration_us timing))\<rparr>"

definition write_video ::
  "'w output_ops \<Rightarrow> 'w matroska_writer \<Rightarrow> timed_video_frame \<Rightarrow> media_timing
   \<Rightarrow> (matroska_error + unit) \<times> 'w matroska_writer" where
  "write_video ops mw event timing =
     io_step (write_cluster (out_write_all ops) (pts_us timing div 1000) VIDEO_TRACK
       (fr_jpeg (tv_frame event)) (mw_output mw)) mw (\<lambda>_ mw.
     (Inr (), note_end timing mw))"

definition usize_MAX :: nat where
  "usize_MAX = 2 ^ 64 - 1"

definition expected_pcm_length :: "timed_audio_chunk \<Rightarrow> nat" where
  "expected_pcm_length event =
     (let bytes_per_sample = (case af_encoding (ta_format event) of Signed16LittleEndian \<Rightarrow> 2)
      in min usize_MAX (min usize_MAX
           (unat (sample_frames (ta_chunk event)) * unat (nonzero_get (af_channels (ta_format event))))
         * bytes_per_sample))"

definition write_audio ::
  "'w output_ops \<Rightarrow> 'w matroska_writer \<Rightarrow> timed_audio_chunk \<Rightarrow> media_timing
   \<Rightarrow> (matroska_error + unit) \<times> 'w matroska_writer" where
  "write_audio ops mw event timing =
     (if ta_format event \<noteq> mw_audio_format mw then (Inl AudioFormatChanged, mw)
      else
        let expected = expected_pcm_length event
        in if length (pcm (ta_chunk event)) \<noteq> expected then
             (Inl (InvalidPcmLength expected (length (pcm (ta_chunk event)))), mw)
           else
             io_step (write_cluster (out_write_all ops) (pts_us timing div 1000) AUDIO_TRACK
               (pcm (ta_chunk event)) (mw_output mw)) mw (\<lambda>_ mw.
             (Inr (), note_end timing mw)))"

definition write_duration ::
  "'w output_ops \<Rightarrow> 'w matroska_writer \<Rightarrow> (matroska_error + unit) \<times> 'w matroska_writer" where
  "write_duration ops mw =
     io_step (out_seek_end ops (mw_output mw)) mw (\<lambda>end_position mw.
     io_step (out_seek_start ops (duration_offset mw) (mw_output mw)) mw (\<lambda>_ mw.
     let duration_ms = f64_div (f64_of_u64 (maximum_end_us mw)) (f64_of_u64 1000)
     in io_step (out_write_all ops (be_bytes 8 duration_ms) (mw_output mw)) mw (\<lambda>_ mw.
     io_step (out_seek_start ops end_position (mw_output mw)) mw (\<lambda>_ mw.
     (Inr (), mw)))))"

definition matroska_flush ::
  "'w output_ops \<Rightarrow> 'w matroska_writer \<Rightarrow> (matroska_error + unit) \<times> 'w matroska_writer" where
  "matroska_flush ops mw =
     (case write_duration ops mw of
        (Inl e, mw) \<Rightarrow> (Inl e, mw)
      | (Inr _, mw) \<Rightarrow> io_step (out_flush ops (mw_output mw)) mw (\<lambda>_ mw. (Inr (), mw)))"

subsection \<open>What an element looks like\<close>

definition id_bytes :: "u32 \<Rightarrow> bytes" where
  "id_bytes i =
     drop (case position (\<lambda>byte. byte \<noteq> 0) (be_bytes 4 i) of None \<Rightarrow> 3 | Some p \<Rightarrow> p) (be_bytes 4 i)"

definition size_bytes :: "nat \<Rightarrow> u64 \<Rightarrow> bytes" where
  "size_bytes width n = be_bytes width (n OR push_bit (7 * width) 1)"

definition element_bytes :: "u32 \<Rightarrow> bytes \<Rightarrow> bytes" where
  "element_bytes i payload =
     (case size_width (of_nat (length payload)) of
        Inl _ \<Rightarrow> []
      | Inr width \<Rightarrow> id_bytes i @ size_bytes width (of_nat (length payload)) @ payload)"

definition uint_bytes :: "u64 \<Rightarrow> bytes" where
  "uint_bytes v =
     drop (case position (\<lambda>byte. byte \<noteq> 0) (be_bytes 8 v) of None \<Rightarrow> 7 | Some p \<Rightarrow> p) (be_bytes 8 v)"

definition fits_element :: "bytes \<Rightarrow> bool" where
  "fits_element payload \<longleftrightarrow> \<not> isl (size_width (of_nat (length payload)))"

lemma drop_be_bytes: "w \<le> n \<Longrightarrow> drop (n - w) (be_bytes n x) = be_bytes w x"
proof (induction n)
  case (Suc n)
  then show ?case by (cases "w = Suc n") (auto simp: Suc_diff_le)
qed simp

lemma size_width_Inr:
  "size_width n = Inr w \<Longrightarrow> 1 \<le> w \<and> w \<le> 8 \<and> n < push_bit (7 * w) 1 - 1
     \<and> (\<forall>v. 1 \<le> v \<and> v < w \<longrightarrow> \<not> n < push_bit (7 * v) 1 - 1)"
proof -
  assume "size_width n = Inr w"
  then obtain i where i: "i < 8" "n < push_bit (7 * w) 1 - 1" "w = [1..<9] ! i"
    "\<forall>j < i. \<not> n < push_bit (7 * ([1..<9] ! j)) 1 - 1"
    by (auto simp: size_width_def find_Some_iff)
  then have w: "w = Suc i" by simp
  have "\<not> n < push_bit (7 * v) 1 - 1" if "1 \<le> v" "v < w" for v
  proof -
    have "v - 1 < i" "[1..<9] ! (v - 1) = v" using i(1) that w by (simp_all add: nth_upt del: upt_Suc)
    then show ?thesis using i(4) by metis
  qed
  with i w show ?thesis by simp
qed

lemma write_id_eq: "write_id write_all i w = write_all (id_bytes i) w"
  by (simp add: write_id_def id_bytes_def Let_def)

lemma write_size_eq:
  "write_size write_all n w =
     (case size_width n of Inl e \<Rightarrow> (Inl e, w) | Inr width \<Rightarrow> write_all (size_bytes width n) w)"
  using size_width_Inr [of n]
  by (auto simp: write_size_def size_bytes_def Let_def drop_be_bytes split: sum.split)

subsection \<open>Appending outputs\<close>

text \<open>
  The contract of an output that is written at its end: a successful write appends. The
  elements, the header and the clusters append their bytes to every such output.
\<close>

locale byte_sink =
  fixes write_all :: "bytes \<Rightarrow> 'w \<Rightarrow> (io_error + unit) \<times> 'w"
    and contents :: "'w \<Rightarrow> bytes"
    and at_end :: "'w \<Rightarrow> bool"
  assumes write_appends: "at_end w \<Longrightarrow> write_all data w = (Inr (), w') \<Longrightarrow>
      at_end w' \<and> contents w' = contents w @ data"
begin

lemma element_appends:
  assumes "at_end w" and "element write_all i payload w = (Inr (), w')"
  shows "at_end w' \<and> contents w' = contents w @ element_bytes i payload \<and> fits_element payload"
proof -
  obtain w1 where w1: "write_all (id_bytes i) w = (Inr (), w1)"
    using assms(2) by (auto simp: element_def wbind_def write_id_eq split: prod.splits sum.splits)
  then obtain width w2 where width: "size_width (of_nat (length payload)) = Inr width"
    and w2: "write_all (size_bytes width (of_nat (length payload))) w1 = (Inr (), w2)"
    and w3: "write_all payload w2 = (Inr (), w')"
    using assms(2) by (auto simp: element_def wbind_def write_id_eq write_size_eq split: prod.splits sum.splits)
  show ?thesis
    using write_appends [OF assms(1) w1] write_appends [OF _ w2] write_appends [OF _ w3] width
    by (simp add: element_bytes_def fits_element_def)
qed

end

text \<open>An output whose writes always succeed at the end.\<close>

locale reliable_sink = byte_sink +
  assumes write_succeeds: "at_end w \<Longrightarrow> fst (write_all data w) = Inr ()"
begin

lemma element_succeeds:
  assumes "at_end w" and "fits_element payload"
  obtains w' where "element write_all i payload w = (Inr (), w')" "at_end w'"
    "contents w' = contents w @ element_bytes i payload"
proof -
  obtain width where width: "size_width (of_nat (length payload)) = Inr width"
    using assms(2) by (auto simp: fits_element_def split: sum.splits) (metis isl_def sum.exhaust_sel)
  obtain w1 where w1: "write_all (id_bytes i) w = (Inr (), w1)"
    using write_succeeds [OF assms(1)] by (metis prod.collapse)
  then have a1: "at_end w1" using write_appends [OF assms(1)] by blast
  obtain w2 where w2: "write_all (size_bytes width (of_nat (length payload))) w1 = (Inr (), w2)"
    using write_succeeds [OF a1] by (metis prod.collapse)
  then have a2: "at_end w2" using write_appends [OF a1] by blast
  obtain w3 where w3: "write_all payload w2 = (Inr (), w3)"
    using write_succeeds [OF a2] by (metis prod.collapse)
  have "element write_all i payload w = (Inr (), w3)"
    by (simp add: element_def wbind_def write_id_eq write_size_eq w1 w2 w3 width)
  with element_appends [OF assms(1)] that show ?thesis by blast
qed

end

interpretation vec: reliable_sink vec_write_all "\<lambda>v. v" "\<lambda>v. True"
  by unfold_locales (auto simp: vec_write_all_def)

interpretation cur: reliable_sink cursor_write_all cur_content "\<lambda>c. cur_pos c = length (cur_content c)"
  by unfold_locales (auto simp: cursor_write_all_def Let_def)

lemma element_vec [simp]:
  "fits_element payload \<Longrightarrow> element vec_write_all i payload v = (Inr (), v @ element_bytes i payload)"
  using vec.element_succeeds [where w = v and payload = payload and i = i] by auto

lemma uint_element_eq: "uint_element write_all i v w = element write_all i (uint_bytes v) w"
  by (simp add: uint_element_def uint_bytes_def Let_def)

subsection \<open>Reading elements\<close>

text \<open>The width that the leading byte of an identifier or a size announces.\<close>

definition leading_width :: "u8 \<Rightarrow> nat option" where
  "leading_width b = find (\<lambda>w. 2 ^ (8 - w) \<le> unat b) [1..<9]"

definition read_id :: "bytes \<Rightarrow> (nat \<times> bytes) option" where
  "read_id bs =
     (case bs of [] \<Rightarrow> None
      | b # _ \<Rightarrow>
          (case leading_width b of
             None \<Rightarrow> None
           | Some w \<Rightarrow> if w \<le> length bs then Some (be_val (take w bs), drop w bs) else None))"

definition read_size :: "bytes \<Rightarrow> (nat \<times> bytes) option" where
  "read_size bs =
     (case bs of [] \<Rightarrow> None
      | b # _ \<Rightarrow>
          (case leading_width b of
             None \<Rightarrow> None
           | Some w \<Rightarrow>
               if w \<le> length bs then Some (be_val (take w bs) - 2 ^ (7 * w), drop w bs) else None))"

definition read_element :: "bytes \<Rightarrow> (nat \<times> bytes \<times> bytes) option" where
  "read_element bs =
     (case read_id bs of None \<Rightarrow> None
      | Some (i, rest) \<Rightarrow>
          (case read_size rest of None \<Rightarrow> None
           | Some (n, rest) \<Rightarrow>
               if n \<le> length rest then Some (i, take n rest, drop n rest) else None))"

fun read_elements :: "nat \<Rightarrow> bytes \<Rightarrow> (nat \<times> bytes) list option" where
  "read_elements fuel [] = Some []"
| "read_elements 0 bs = None"
| "read_elements (Suc fuel) bs =
     (case read_element bs of None \<Rightarrow> None
      | Some (i, payload, rest) \<Rightarrow> map_option (Cons (i, payload)) (read_elements fuel rest))"

lemma leading_width_bounds:
  assumes "1 \<le> w" and "w \<le> 8" and "2 ^ (8 - w) \<le> unat b" and "unat b < 2 ^ (9 - w)"
  shows "leading_width b = Some w"
proof -
  have "\<not> 2 ^ (7 - j) \<le> unat b" if "j < w - Suc 0" for j
  proof -
    have "(2 :: nat) ^ (9 - w) \<le> 2 ^ (7 - j)" using that assms(2) by (intro power_increasing) auto
    with assms(4) show ?thesis by linarith
  qed
  then show ?thesis
    using assms(1-3) by (auto simp: leading_width_def find_Some_iff intro!: exI [of _ "w - 1"])
qed

lemma unat_push_1: "k < 64 \<Longrightarrow> unat (push_bit k 1 :: u64) = 2 ^ k"
  by (simp only: unsigned_push_bit_eq unsigned_1 take_bit_push_bit) (simp add: push_bit_eq_mult)

lemma width_cases:
  assumes "1 \<le> w" and "w \<le> (8 :: nat)"
  obtains "w = 1" | "w = 2" | "w = 3" | "w = 4" | "w = 5" | "w = 6" | "w = 7" | "w = 8"
  using assms by linarith

lemma size_marker:
  assumes "w \<le> 8" and "unat n < 2 ^ (7 * w)"
  shows "unat (n OR push_bit (7 * w) 1 :: u64) = unat n + 2 ^ (7 * w)"
proof -
  have n: "n = take_bit (7 * w) n"
    using assms(2) by (simp add: word_unat_eq_iff unsigned_take_bit_eq take_bit_nat_eq_self)
  have "n AND push_bit (7 * w) 1 = 0"
    by (subst n, rule bit_word_eqI) (auto simp: bit_simps simp del: push_bit_of_1)
  then have "n OR push_bit (7 * w) 1 = n + push_bit (7 * w) 1"
    by (simp only: disjunctive_add_eq_or)
  moreover have "(2 :: nat) ^ (7 * w) \<le> 2 ^ 56" using assms(1) by (intro power_increasing) auto
  ultimately show ?thesis
    using assms unat_push_1 [of "7 * w"] by (simp add: unat_word_ariths del: push_bit_of_1)
qed

lemma read_size_bytes:
  assumes "size_width n = Inr w"
  shows "read_size (size_bytes w n @ rest) = Some (unat n, rest)"
proof -
  let ?x = "n OR push_bit (7 * w) 1"
  have w: "1 \<le> w" "w \<le> 8" and less: "n < push_bit (7 * w) 1 - 1"
    using size_width_Inr [OF assms] by auto
  have "unat (push_bit (7 * w) 1 - 1 :: u64) = 2 ^ (7 * w) - 1"
    using w unat_push_1 [of "7 * w"] by (simp add: unat_sub word_le_nat_alt del: push_bit_of_1)
  then have n: "unat n < 2 ^ (7 * w)"
    using less by (simp add: word_less_nat_alt)
  have x: "unat ?x = unat n + 2 ^ (7 * w)" by (rule size_marker [OF w(2) n])
  obtain k where k: "w = Suc k" using w(1) by (cases w) auto
  let ?b = "ucast (drop_bit (8 * k) ?x) :: u8"
  have b: "unat ?b = (unat n + 2 ^ (7 * w)) div 256 ^ k mod 256"
    by (simp only: unat_ucast_drop8 x)
  have "2 ^ (8 - w) \<le> unat ?b" "unat ?b < 2 ^ (9 - w)"
    unfolding b by (rule width_cases [OF w]; use n k in simp)+
  then have lead: "leading_width ?b = Some w" by (rule leading_width_bounds [OF w])
  have "be_val (be_bytes w ?x) = unat n + 2 ^ (7 * w)"
  proof -
    have "unat n + 2 ^ (7 * w) < 256 ^ w"
      by (rule width_cases [OF w]; use n in simp)
    then show ?thesis by (simp add: be_val_be_bytes x del: push_bit_of_1)
  qed
  then show ?thesis
    using lead by (simp add: read_size_def size_bytes_def k del: push_bit_of_1)
qed


lemma be_val_drop_zeros: "\<forall>x \<in> set (take n bs). x = 0 \<Longrightarrow> be_val (drop n bs) = be_val bs"
proof (induction n arbitrary: bs)
  case (Suc n)
  then show ?case by (cases bs) auto
qed simp

lemma be_val_drop_leading:
  "n < length bs \<Longrightarrow> n = length bs - 1 \<Longrightarrow>
     be_val (drop (case position (\<lambda>byte. byte \<noteq> 0) bs of None \<Rightarrow> n | Some p \<Rightarrow> p) bs) = be_val bs"
proof (cases "position (\<lambda>byte. byte \<noteq> 0) bs")
  assume n: "n = length bs - 1"
  case None
  then have "\<forall>x \<in> set (take (length bs - 1) bs). x = 0"
    by (auto simp: position_None_iff dest: in_set_takeD)
  then show ?thesis using None n by (simp add: be_val_drop_zeros)
next
  case (Some p)
  then show ?thesis using position_SomeD [OF Some] by (simp add: be_val_drop_zeros)
qed

lemma be_val_id_bytes: "be_val (id_bytes i) = unat i"
proof -
  have "be_val (id_bytes i) = be_val (be_bytes 4 i)"
    unfolding id_bytes_def by (rule be_val_drop_leading) (simp_all add: length_be_bytes del: be_bytes.simps)
  then show ?thesis using u32_bound [of i] by (simp only: be_val_be_bytes) simp
qed

lemma be_val_uint_bytes: "be_val (uint_bytes v) = unat v"
proof -
  have "be_val (uint_bytes v) = be_val (be_bytes 8 v)"
    unfolding uint_bytes_def by (rule be_val_drop_leading) (simp_all add: length_be_bytes del: be_bytes.simps)
  then show ?thesis using u64_bound [of v] by (simp only: be_val_be_bytes) simp
qed

text \<open>An identifier whose leading byte announces its width.\<close>

definition valid_id :: "u32 \<Rightarrow> bool" where
  "valid_id i \<longleftrightarrow> (case id_bytes i of [] \<Rightarrow> False | b # bs \<Rightarrow> leading_width b = Some (Suc (length bs)))"

lemma read_id_bytes: "valid_id i \<Longrightarrow> read_id (id_bytes i @ rest) = Some (unat i, rest)"
  using be_val_id_bytes [of i]
  by (auto simp: valid_id_def read_id_def split: list.splits)

lemma read_element_bytes:
  assumes "valid_id i" and "fits_element payload" and "length payload < 2 ^ 64"
  shows "read_element (element_bytes i payload @ rest) = Some (unat i, payload, rest)"
proof -
  obtain width where width: "size_width (of_nat (length payload)) = Inr width"
    using assms(2) by (cases "size_width (of_nat (length payload))") (auto simp: fits_element_def)
  have "unat (of_nat (length payload) :: u64) = length payload"
    using assms(3) by (simp add: unat_of_nat take_bit_nat_eq_self)
  then show ?thesis
    using read_size_bytes [OF width] read_id_bytes [OF assms(1)] width
    by (simp add: read_element_def element_bytes_def)
qed

lemma valid_ids [simp]:
  "valid_id 0x1a45dfa3" "valid_id 0x18538067" "valid_id 0x1549a966" "valid_id 0x1654ae6b"
  "valid_id 0x1f43b675" "valid_id 0xe7" "valid_id 0xa3" "valid_id 0x2ad7b1" "valid_id 0x4489"
  by code_simp+

subsection \<open>The bytes of a file\<close>

lemma fits_elementI: "length payload < 2 ^ 56 - 1 \<Longrightarrow> fits_element payload"
proof -
  assume less: "length payload < 2 ^ 56 - 1"
  have "unat (push_bit (7 * 8) 1 - 1 :: u64) = 2 ^ 56 - 1" by simp
  moreover have "unat (of_nat (length payload) :: u64) = length payload"
    using less by (simp add: unat_of_nat take_bit_nat_eq_self)
  ultimately have "(of_nat (length payload) :: u64) < push_bit (7 * 8) 1 - 1"
    using less by (simp add: word_less_nat_alt)
  moreover have "8 \<in> set [1..<9]" by simp
  ultimately have "find (\<lambda>w. (of_nat (length payload) :: u64) < push_bit (7 * w) 1 - 1) [1..<9] \<noteq> None"
    unfolding find_None_iff by blast
  then show ?thesis by (auto simp: fits_element_def size_width_def)
qed

lemma length_element_bytes: "length (element_bytes i payload) \<le> length payload + 12"
  using size_width_Inr [of "of_nat (length payload)"]
  by (auto simp: element_bytes_def id_bytes_def size_bytes_def split: sum.split)

lemma length_uint_bytes: "length (uint_bytes v) \<le> 8"
  by (simp add: uint_bytes_def)

lemma length_uint_element: "length (element_bytes i (uint_bytes v)) \<le> 20"
  using length_element_bytes [of i "uint_bytes v"] length_uint_bytes [of v] by simp

lemma fits_uint [simp]: "fits_element (uint_bytes v)"
  using length_uint_bytes [of v] by (intro fits_elementI) simp

lemma fits_be8 [simp]: "fits_element (be_bytes 8 v)"
  by (intro fits_elementI) simp

definition ebml_bytes :: bytes where
  "ebml_bytes =
     element_bytes 0x4286 (uint_bytes 1) @ element_bytes 0x42f7 (uint_bytes 1)
     @ element_bytes 0x42f2 (uint_bytes 4) @ element_bytes 0x42f3 (uint_bytes 8)
     @ element_bytes 0x4282 (ascii ''matroska'') @ element_bytes 0x4287 (uint_bytes 4)
     @ element_bytes 0x4285 (uint_bytes 2)"

definition info_bytes :: "u64 \<Rightarrow> bytes" where
  "info_bytes duration =
     element_bytes 0x2ad7b1 (uint_bytes 1000000) @ element_bytes 0x4489 (be_bytes 8 duration)
     @ element_bytes 0x4d80 (ascii ''handycam'') @ element_bytes 0x5741 (ascii ''handycam'')"

definition video_entry :: bytes where
  "video_entry =
     element_bytes 0xd7 (uint_bytes (ucast VIDEO_TRACK))
     @ element_bytes 0x73c5 (uint_bytes (ucast VIDEO_TRACK)) @ element_bytes 0x83 (uint_bytes 1)
     @ element_bytes 0x86 (ascii ''V_MJPEG'') @ element_bytes 0x23e383 (uint_bytes 40000000)
     @ element_bytes 0xe0 (element_bytes 0xb0 (uint_bytes (ucast WIDTH))
         @ element_bytes 0xba (uint_bytes (ucast HEIGHT)))"

definition audio_entry :: "audio_format \<Rightarrow> bytes" where
  "audio_entry fmt =
     element_bytes 0xd7 (uint_bytes (ucast AUDIO_TRACK))
     @ element_bytes 0x73c5 (uint_bytes (ucast AUDIO_TRACK)) @ element_bytes 0x83 (uint_bytes 2)
     @ element_bytes 0x86 (ascii ''A_PCM/INT/LIT'')
     @ element_bytes 0xe1
         (element_bytes 0xb5 (be_bytes 8 (f64_of_u64 (ucast (nonzero_get (sample_rate_hz fmt)))))
          @ element_bytes 0x9f (uint_bytes (ucast (nonzero_get (af_channels fmt))))
          @ element_bytes 0x6264 (uint_bytes 16))"

definition tracks_bytes :: "audio_format \<Rightarrow> bytes" where
  "tracks_bytes fmt = element_bytes 0xae video_entry @ element_bytes 0xae (audio_entry fmt)"

definition unknown_size :: bytes where
  "unknown_size = [0x01, 0xff, 0xff, 0xff, 0xff, 0xff, 0xff, 0xff]"

definition file_header :: "audio_format \<Rightarrow> u64 \<Rightarrow> bytes" where
  "file_header fmt duration =
     element_bytes 0x1a45dfa3 ebml_bytes @ id_bytes 0x18538067 @ unknown_size
     @ element_bytes 0x1549a966 (info_bytes duration) @ element_bytes 0x1654ae6b (tracks_bytes fmt)"

lemma ascii_lengths [simp]:
  "length (ascii s) = length s"
  by (simp add: ascii_def)

lemma settings_lengths:
  "length (element_bytes 0xb0 (uint_bytes a) @ element_bytes 0xba (uint_bytes b)) \<le> 40"
  "length (element_bytes 0xb5 (be_bytes 8 r) @ element_bytes 0x9f (uint_bytes a)
     @ element_bytes 0x6264 (uint_bytes b)) \<le> 60"
  using length_uint_element [of "0xb0" a] length_uint_element [of "0xba" b]
    length_uint_element [of "0x9f" a] length_uint_element [of "0x6264" b]
    length_element_bytes [of "0xb5" "be_bytes 8 r"]
  by simp_all

lemma length_video_entry: "length video_entry \<le> 200"
  using length_uint_element [of "0xd7" "ucast VIDEO_TRACK"] length_uint_element [of "0x73c5" "ucast VIDEO_TRACK"]
    length_uint_element [of "0x83" 1] length_uint_element [of "0x23e383" 40000000]
    length_element_bytes [of "0x86" "ascii ''V_MJPEG''"]
    length_element_bytes [of "0xe0" "element_bytes 0xb0 (uint_bytes (ucast WIDTH))
      @ element_bytes 0xba (uint_bytes (ucast HEIGHT))"]
    settings_lengths(1) [of "ucast WIDTH" "ucast HEIGHT"]
  by (simp add: video_entry_def)

lemma length_audio_entry: "length (audio_entry fmt) \<le> 200"
proof -
  let ?settings = "element_bytes 0xb5 (be_bytes 8 (f64_of_u64 (ucast (nonzero_get (sample_rate_hz fmt)))))
          @ element_bytes 0x9f (uint_bytes (ucast (nonzero_get (af_channels fmt))))
          @ element_bytes 0x6264 (uint_bytes 16)"
  show ?thesis
    using length_uint_element [of "0xd7" "ucast AUDIO_TRACK"] length_uint_element [of "0x73c5" "ucast AUDIO_TRACK"]
      length_uint_element [of "0x83" 2]
      length_element_bytes [of "0x86" "ascii ''A_PCM/INT/LIT''"] length_element_bytes [of "0xe1" ?settings]
      settings_lengths(2) [of "f64_of_u64 (ucast (nonzero_get (sample_rate_hz fmt)))"
        "ucast (nonzero_get (af_channels fmt))" 16]
    by (simp add: audio_entry_def)
qed

lemma length_tracks_bytes: "length (tracks_bytes fmt) \<le> 424"
  using length_element_bytes [of "0xae" video_entry] length_element_bytes [of "0xae" "audio_entry fmt"]
    length_video_entry length_audio_entry [of fmt]
  by (simp add: tracks_bytes_def)

lemma fits_entries [simp]:
  "fits_element video_entry" "fits_element (audio_entry fmt)" "fits_element (tracks_bytes fmt)"
  using length_video_entry length_audio_entry [of fmt] length_tracks_bytes [of fmt]
  by (auto intro!: fits_elementI)

lemma fits_settings [simp]:
  "fits_element (element_bytes 0xb0 (uint_bytes a) @ element_bytes 0xba (uint_bytes b))"
  "fits_element (element_bytes 0xb5 (be_bytes 8 r) @ element_bytes 0x9f (uint_bytes a)
     @ element_bytes 0x6264 (uint_bytes b))"
  using settings_lengths(1) [of a b] settings_lengths(2) [of r a b] by (auto intro!: fits_elementI simp del: length_append)

lemma fits_ascii [simp]: "length s < 2 ^ 56 - 1 \<Longrightarrow> fits_element (ascii s)"
  by (intro fits_elementI) simp


subsection \<open>The header that is written\<close>

lemma length_ebml: "length ebml_bytes \<le> 140"
  using length_uint_element [of "0x4286" 1] length_uint_element [of "0x42f7" 1]
    length_uint_element [of "0x42f2" 4] length_uint_element [of "0x42f3" 8]
    length_element_bytes [of "0x4282" "ascii ''matroska''"] length_uint_element [of "0x4287" 4]
    length_uint_element [of "0x4285" 2]
  by (simp add: ebml_bytes_def)

text \<open>The part of the header before the duration is a constant of 67 bytes.\<close>

definition header_prefix :: bytes where
  "header_prefix =
     element_bytes 0x1a45dfa3 ebml_bytes @ id_bytes 0x18538067 @ unknown_size
     @ id_bytes 0x1549a966 @ [0xa8] @ element_bytes 0x2ad7b1 (uint_bytes 1000000)
     @ id_bytes 0x4489 @ [0x88]"

definition header_suffix :: "audio_format \<Rightarrow> bytes" where
  "header_suffix fmt =
     element_bytes 0x4d80 (ascii ''handycam'') @ element_bytes 0x5741 (ascii ''handycam'')
     @ element_bytes 0x1654ae6b (tracks_bytes fmt)"

lemma length_header_prefix: "length header_prefix = 67"
  by code_simp

lemma info_parts:
  "size_width (8 :: u64) = Inr 1" "size_bytes 1 (8 :: u64) = [0x88]"
  "length (element_bytes 0x2ad7b1 (uint_bytes 1000000)) = 7" "length (id_bytes 0x4489) = 2"
  "length (element_bytes 0x4d80 (ascii ''handycam'')) = 11"
  "length (element_bytes 0x5741 (ascii ''handycam'')) = 11"
  "size_width (40 :: u64) = Inr 1" "size_bytes 1 (40 :: u64) = [0xa8]"
  "length (id_bytes 0x1549a966) = 4"
  by code_simp+

lemma length_info: "length (info_bytes d) = 40"
  using info_parts by (simp add: info_bytes_def element_bytes_def [of "0x4489"])

lemma file_header_parts: "file_header fmt d = header_prefix @ be_bytes 8 d @ header_suffix fmt"
  using info_parts length_info
  by (simp add: file_header_def header_prefix_def header_suffix_def element_bytes_def [of "0x1549a966"])
    (simp add: info_bytes_def element_bytes_def [of "0x4489"])

lemma length_file_header: "length (file_header fmt d) \<le> 600"
  using length_tracks_bytes [of fmt] length_element_bytes [of "0x1654ae6b" "tracks_bytes fmt"] info_parts
  by (simp add: file_header_parts header_suffix_def length_header_prefix)

lemma fits_constant [simp]: "fits_element ebml_bytes" "fits_element (info_bytes d)"
  using length_ebml length_info [of d] by (auto intro!: fits_elementI)

subsection \<open>Seekable outputs\<close>

text \<open>
  The contract of \<open>Write + Seek\<close>: a write replaces or extends the bytes from the position
  on, and the seeks only move the position.
\<close>

locale seekable_output =
  fixes ops :: "'w output_ops"
    and contents :: "'w \<Rightarrow> bytes"
    and pos :: "'w \<Rightarrow> nat"
  assumes put: "pos w \<le> length (contents w) \<Longrightarrow>
      \<exists>w'. out_write_all ops data w = (Inr (), w')
        \<and> contents w' = take (pos w) (contents w) @ data @ drop (pos w + length data) (contents w)
        \<and> pos w' = pos w + length data"
    and seek_end: "\<exists>w'. out_seek_end ops w = (Inr (of_nat (length (contents w))), w')
        \<and> contents w' = contents w \<and> pos w' = length (contents w)"
    and seek_start: "\<exists>w'. out_seek_start ops n w = (Inr (), w')
        \<and> contents w' = contents w \<and> pos w' = unat n"
    and stream_position: "\<exists>w'. out_position ops w = (Inr (of_nat (pos w)), w')
        \<and> contents w' = contents w \<and> pos w' = pos w"
    and flush: "\<exists>w'. out_flush ops w = (Inr (), w') \<and> contents w' = contents w \<and> pos w' = pos w"

sublocale seekable_output \<subseteq> sink: reliable_sink "out_write_all ops" contents "\<lambda>w. pos w = length (contents w)"
proof unfold_locales
  show "pos w' = length (contents w') \<and> contents w' = contents w @ data"
    if "pos w = length (contents w)" "out_write_all ops data w = (Inr (), w')" for w data w'
    using put [of w data] that by auto
  show "fst (out_write_all ops data w) = Inr ()" if "pos w = length (contents w)" for w data
    using put [of w data] that by auto
qed

lemma vec_ebml:
  "wbind (uint_element vec_write_all 0x4286 1 []) (\<lambda>_ ebml.
   wbind (uint_element vec_write_all 0x42f7 1 ebml) (\<lambda>_ ebml.
   wbind (uint_element vec_write_all 0x42f2 4 ebml) (\<lambda>_ ebml.
   wbind (uint_element vec_write_all 0x42f3 8 ebml) (\<lambda>_ ebml.
   wbind (string_element vec_write_all 0x4282 ''matroska'' ebml) (\<lambda>_ ebml.
   wbind (uint_element vec_write_all 0x4287 4 ebml) (\<lambda>_ ebml.
   uint_element vec_write_all 0x4285 2 ebml)))))) = (Inr (), ebml_bytes)"
  by (simp add: wbind_def uint_element_eq string_element_def ebml_bytes_def)

lemma vec_duration:
  "uint_element vec_write_all 0x2ad7b1 1000000 [] = (Inr (), element_bytes 0x2ad7b1 (uint_bytes 1000000))"
  by (simp add: uint_element_eq)

lemma vec_info:
  "wbind (float_element vec_write_all 0x4489 0 (element_bytes 0x2ad7b1 (uint_bytes 1000000))) (\<lambda>_ info.
   wbind (string_element vec_write_all 0x4d80 ''handycam'' info) (\<lambda>_ info.
   string_element vec_write_all 0x5741 ''handycam'' info)) = (Inr (), info_bytes 0)"
  by (simp add: wbind_def float_element_def string_element_def info_bytes_def)

lemma vec_video:
  "wbind (uint_element vec_write_all 0xd7 (ucast VIDEO_TRACK) []) (\<lambda>_ video.
   wbind (uint_element vec_write_all 0x73c5 (ucast VIDEO_TRACK) video) (\<lambda>_ video.
   wbind (uint_element vec_write_all 0x83 1 video) (\<lambda>_ video.
   wbind (string_element vec_write_all 0x86 ''V_MJPEG'' video) (\<lambda>_ video.
   wbind (uint_element vec_write_all 0x23e383 40000000 video) (\<lambda>_ video.
   case wbind (uint_element vec_write_all 0xb0 (ucast WIDTH) []) (\<lambda>_ settings.
        uint_element vec_write_all 0xba (ucast HEIGHT) settings) of
     (Inl e, _) \<Rightarrow> (Inl e, video)
   | (Inr _, settings) \<Rightarrow> element vec_write_all 0xe0 settings video))))) = (Inr (), video_entry)"
  by (simp add: wbind_def uint_element_eq string_element_def video_entry_def)

lemma vec_audio:
  "wbind (uint_element vec_write_all 0xd7 (ucast AUDIO_TRACK) []) (\<lambda>_ audio.
   wbind (uint_element vec_write_all 0x73c5 (ucast AUDIO_TRACK) audio) (\<lambda>_ audio.
   wbind (uint_element vec_write_all 0x83 2 audio) (\<lambda>_ audio.
   wbind (string_element vec_write_all 0x86 ''A_PCM/INT/LIT'' audio) (\<lambda>_ audio.
   case wbind (float_element vec_write_all 0xb5
          (f64_of_u64 (ucast (nonzero_get (sample_rate_hz fmt)))) []) (\<lambda>_ settings.
        wbind (uint_element vec_write_all 0x9f
          (ucast (nonzero_get (af_channels fmt))) settings) (\<lambda>_ settings.
        uint_element vec_write_all 0x6264 16 settings)) of
     (Inl e, _) \<Rightarrow> (Inl e, audio)
   | (Inr _, settings) \<Rightarrow> element vec_write_all 0xe1 settings audio)))) = (Inr (), audio_entry fmt)"
  by (simp add: wbind_def uint_element_eq string_element_def float_element_def audio_entry_def)

lemma vec_tracks:
  "element vec_write_all 0xae video_entry [] = (Inr (), element_bytes 0xae video_entry)"
  "element vec_write_all 0xae (audio_entry fmt) (element_bytes 0xae video_entry)
     = (Inr (), tracks_bytes fmt)"
  by (simp_all add: tracks_bytes_def)

lemma wbind_Inr: "wbind (Inr a, w) k = k a w"
  by (simp add: wbind_def)

context seekable_output begin

lemma write_header_appends:
  assumes "pos w = length (contents w)" and "contents w = []"
  obtains w' where "write_header ops fmt w = (Inr 67, w')" "contents w' = file_header fmt 0"
    "pos w' = length (contents w')"
proof -
  obtain w1 where w1: "element (out_write_all ops) 0x1a45dfa3 ebml_bytes w = (Inr (), w1)"
    "pos w1 = length (contents w1)" "contents w1 = element_bytes 0x1a45dfa3 ebml_bytes"
    using sink.element_succeeds [OF assms(1), of ebml_bytes "0x1a45dfa3"] assms(2) by auto
  obtain w2 where w2: "out_write_all ops (id_bytes 0x18538067) w1 = (Inr (), w2)"
    "pos w2 = length (contents w2)" "contents w2 = contents w1 @ id_bytes 0x18538067"
    using put [of w1 "id_bytes 0x18538067"] w1(2) by auto
  obtain w3 where w3: "out_write_all ops unknown_size w2 = (Inr (), w3)"
    "pos w3 = length (contents w3)" "contents w3 = contents w2 @ unknown_size"
    using put [of w2 unknown_size] w2(2) by auto
  obtain w4 where w4: "out_position ops w3 = (Inr (of_nat (pos w3)), w4)"
    "pos w4 = length (contents w4)" "contents w4 = contents w3"
    using stream_position [of w3] w3(2) by auto
  obtain w5 where w5: "element (out_write_all ops) 0x1549a966 (info_bytes 0) w4 = (Inr (), w5)"
    "pos w5 = length (contents w5)" "contents w5 = contents w4 @ element_bytes 0x1549a966 (info_bytes 0)"
    using sink.element_succeeds [OF w4(2), of "info_bytes 0" "0x1549a966"] by auto
  obtain w6 where w6: "element (out_write_all ops) 0x1654ae6b (tracks_bytes fmt) w5 = (Inr (), w6)"
    "pos w6 = length (contents w6)" "contents w6 = contents w5 @ element_bytes 0x1654ae6b (tracks_bytes fmt)"
    using sink.element_succeeds [OF w5(2), of "tracks_bytes fmt" "0x1654ae6b"] by auto
  have position: "pos w3 = 52"
  proof -
    have "length header_prefix = pos w3 + 15"
      using w3 w2 w1 info_parts by (simp add: header_prefix_def)
    then show ?thesis using length_header_prefix by simp
  qed
  have "write_header ops fmt w = (Inr 67, w6)"
    by (simp add: write_header_def Let_def vec_ebml vec_duration vec_info vec_video vec_audio vec_tracks
        write_id_eq w1(1) w2(1) w3(1) [unfolded unknown_size_def] w4(1) w5(1) w6(1) [unfolded tracks_bytes_def] wbind_Inr
        length_info info_parts position)
  moreover have "contents w6 = file_header fmt 0"
    using w1(3) w2(3) w3(3) w4(3) w5(3) w6(3) by (simp add: file_header_def)
  ultimately show ?thesis using that w6(2) by blast
qed

end

subsection \<open>Clusters\<close>

definition block_bytes :: "u8 \<Rightarrow> bytes \<Rightarrow> bytes" where
  "block_bytes track data = [0x80 OR track] @ be_bytes 2 (0 :: u16) @ [0x80] @ data"

definition cluster_payload :: "u64 \<Rightarrow> u8 \<Rightarrow> bytes \<Rightarrow> bytes" where
  "cluster_payload pts_ms track data =
     element_bytes 0xe7 (uint_bytes pts_ms) @ element_bytes 0xa3 (block_bytes track data)"

lemma length_cluster_payload: "length (cluster_payload pts_ms track data) \<le> length data + 36"
  using length_uint_element [of "0xe7" pts_ms] length_element_bytes [of "0xa3" "block_bytes track data"]
  by (simp add: cluster_payload_def block_bytes_def)

lemma fits_block [simp]: "length data < 2 ^ 55 \<Longrightarrow> fits_element (block_bytes track data)"
  by (intro fits_elementI) (simp add: block_bytes_def)

lemma fits_cluster [simp]: "length data < 2 ^ 55 \<Longrightarrow> fits_element (cluster_payload pts_ms track data)"
  using length_cluster_payload [of pts_ms track data] by (intro fits_elementI) simp

lemma write_cluster_eq:
  assumes "length data < 2 ^ 55"
  shows "write_cluster write_all pts_ms track data w
    = element write_all 0x1f43b675 (cluster_payload pts_ms track data) w"
  using assms fits_block [OF assms, of track]
  by (simp add: write_cluster_def wbind_def uint_element_eq cluster_payload_def block_bytes_def Let_def)

subsection \<open>Reading a file\<close>

text \<open>
  A reader for the files: the children of the information element and the clusters. The
  fuel of \<open>read_elements\<close> is the length of its input, because every element has a byte.
\<close>

definition lookup_element :: "nat \<Rightarrow> (nat \<times> bytes) list \<Rightarrow> bytes option" where
  "lookup_element i es = map_of es i"

definition read_cluster :: "bytes \<Rightarrow> (nat \<times> nat \<times> nat \<times> bytes) option" where
  "read_cluster payload =
     (case read_elements 2 payload of
        Some [(i, pts), (j, track # t1 # t2 # flags # data)] \<Rightarrow>
          if i = 0xe7 \<and> j = 0xa3
          then Some (be_val pts, unat (track AND 0x7f), be_val [t1, t2], data) else None
      | _ \<Rightarrow> None)"

definition read_clusters :: "(nat \<times> bytes) list \<Rightarrow> (nat \<times> nat \<times> nat \<times> bytes) option list" where
  "read_clusters es = map (\<lambda>(i, payload). if i = 0x1f43b675 then read_cluster payload else None) es"

definition read_file :: "bytes \<Rightarrow> (bytes option \<times> (nat \<times> nat \<times> nat \<times> bytes) option list) option" where
  "read_file bs =
     (case read_element bs of
        Some (i, _, rest) \<Rightarrow>
          if i \<noteq> 0x1a45dfa3 then None
          else (case read_id rest of
            Some (j, rest) \<Rightarrow>
              if j \<noteq> 0x18538067 \<or> take 8 rest \<noteq> unknown_size then None
              else (case read_elements (length rest) (drop 8 rest) of
                Some ((k, info) # (l, tracks) # clusters) \<Rightarrow>
                  if k \<noteq> 0x1549a966 \<or> l \<noteq> 0x1654ae6b then None
                  else (case read_elements (length info) info of
                    Some children \<Rightarrow> Some (lookup_element 0x4489 children, read_clusters clusters)
                  | None \<Rightarrow> None)
              | _ \<Rightarrow> None)
          | None \<Rightarrow> None)
      | None \<Rightarrow> None)"

definition elements_bytes :: "(u32 \<times> bytes) list \<Rightarrow> bytes" where
  "elements_bytes es = concat (map (\<lambda>(i, payload). element_bytes i payload) es)"

lemma elements_bytes_simps [simp]:
  "elements_bytes [] = []"
  "elements_bytes ((i, payload) # es) = element_bytes i payload @ elements_bytes es"
  by (simp_all add: elements_bytes_def)

definition good_element :: "u32 \<times> bytes \<Rightarrow> bool" where
  "good_element e \<longleftrightarrow> valid_id (fst e) \<and> fits_element (snd e) \<and> length (snd e) < 2 ^ 64"

lemma element_bytes_nonempty:
  "valid_id i \<Longrightarrow> fits_element payload \<Longrightarrow> element_bytes i payload \<noteq> []"
  by (auto simp: element_bytes_def valid_id_def fits_element_def split: sum.splits list.splits)

lemma read_elements_Cons:
  "bs \<noteq> [] \<Longrightarrow> read_elements (Suc fuel) bs =
     (case read_element bs of None \<Rightarrow> None
      | Some (i, payload, rest) \<Rightarrow> map_option (Cons (i, payload)) (read_elements fuel rest))"
  by (cases bs) auto

lemma read_elements_bytes:
  "\<forall>e \<in> set es. good_element e \<Longrightarrow> length es \<le> fuel \<Longrightarrow>
     read_elements fuel (elements_bytes es) = Some (map (\<lambda>(i, payload). (unat i, payload)) es)"
proof (induction es arbitrary: fuel)
  case (Cons e es)
  obtain i payload n where e: "e = (i, payload)" and n: "fuel = Suc n"
    using Cons.prems(2) by (cases e; cases fuel) auto
  have good: "valid_id i" "fits_element payload" "length payload < 2 ^ 64"
    using Cons.prems(1) e by (auto simp: good_element_def)
  show ?case
    using Cons.IH [of n] Cons.prems n e element_bytes_nonempty [OF good(1,2)] read_element_bytes [OF good]
    by (simp add: read_elements_Cons)
qed simp

lemma length_elements_bytes:
  "\<forall>e \<in> set es. good_element e \<Longrightarrow> length es \<le> length (elements_bytes es)"
proof (induction es)
  case (Cons e es)
  obtain i payload where e: "e = (i, payload)" by (cases e)
  have "element_bytes i payload \<noteq> []"
    using Cons.prems e by (simp add: good_element_def element_bytes_nonempty)
  then have "1 \<le> length (element_bytes i payload)" by (cases "element_bytes i payload") auto
  then show ?case using Cons e by simp
qed simp

lemma read_cluster_payload:
  assumes "length data < 2 ^ 55" and "track = VIDEO_TRACK \<or> track = AUDIO_TRACK"
  shows "read_cluster (cluster_payload pts_ms track data) = Some (unat pts_ms, unat track, 0, data)"
proof -
  have "\<forall>e \<in> set [(0xe7, uint_bytes pts_ms), (0xa3, block_bytes track data)]. good_element e"
    using assms(1) length_uint_bytes [of pts_ms] fits_block [OF assms(1), of track]
    by (simp add: good_element_def) (simp add: block_bytes_def)
  from read_elements_bytes [OF this, of 2]
  have "read_elements 2 (cluster_payload pts_ms track data)
      = Some [(0xe7, uint_bytes pts_ms), (0xa3, block_bytes track data)]"
    by (simp add: cluster_payload_def)
  moreover have "block_bytes track data = (0x80 OR track) # 0 # 0 # 0x80 # data"
    by (simp add: block_bytes_def numeral_2_eq_2)
  moreover have "unat ((0x80 OR track) AND 0x7f) = unat track"
    using assms(2) by (auto simp: VIDEO_TRACK_def AUDIO_TRACK_def)
  ultimately show ?thesis
    by (simp add: read_cluster_def be_val_uint_bytes)
qed

definition cluster_element :: "u64 \<times> u8 \<times> bytes \<Rightarrow> u32 \<times> bytes" where
  "cluster_element c = (0x1f43b675, cluster_payload (fst c) (fst (snd c)) (snd (snd c)))"

definition good_cluster :: "u64 \<times> u8 \<times> bytes \<Rightarrow> bool" where
  "good_cluster c \<longleftrightarrow> length (snd (snd c)) < 2 ^ 55
     \<and> (fst (snd c) = VIDEO_TRACK \<or> fst (snd c) = AUDIO_TRACK)"

definition file_bytes :: "audio_format \<Rightarrow> u64 \<Rightarrow> (u64 \<times> u8 \<times> bytes) list \<Rightarrow> bytes" where
  "file_bytes fmt duration cs = file_header fmt duration @ elements_bytes (map cluster_element cs)"

lemma good_cluster_element: "good_cluster c \<Longrightarrow> good_element (cluster_element c)"
  using length_cluster_payload [of "fst c" "fst (snd c)" "snd (snd c)"]
  by (auto simp: good_cluster_def good_element_def cluster_element_def)

lemma read_info: "read_elements 40 (info_bytes d) =
    Some [(0x2ad7b1, uint_bytes 1000000), (0x4489, be_bytes 8 d), (0x4d80, ascii ''handycam''),
      (0x5741, ascii ''handycam'')]"
proof -
  let ?es = "[(0x2ad7b1, uint_bytes 1000000), (0x4489, be_bytes 8 d), (0x4d80, ascii ''handycam''),
      (0x5741, ascii ''handycam'')] :: (u32 \<times> bytes) list"
  have "valid_id 0x4d80" "valid_id 0x5741" by code_simp+
  then have "\<forall>e \<in> set ?es. good_element e"
    using length_uint_bytes [of 1000000] by (auto simp: good_element_def)
  from read_elements_bytes [OF this, of 40] show ?thesis by (simp add: info_bytes_def)
qed


lemma read_file_bytes:
  assumes "\<forall>c \<in> set cs. good_cluster c"
  shows "read_file (file_bytes fmt d cs) =
    Some (Some (be_bytes 8 d),
      map (\<lambda>(pts_ms, track, data). Some (unat pts_ms, unat track, 0, data)) cs)"
proof -
  let ?es = "(0x1549a966, info_bytes d) # (0x1654ae6b, tracks_bytes fmt) # map cluster_element cs"
  have good: "\<forall>e \<in> set ?es. good_element e"
    using assms good_cluster_element length_info [of d] length_tracks_bytes [of fmt]
    by (auto simp: good_element_def [of "(0x1549a966, x)" for x] good_element_def [of "(0x1654ae6b, x)" for x])
  have bytes: "file_bytes fmt d cs = element_bytes 0x1a45dfa3 ebml_bytes @ id_bytes 0x18538067
      @ unknown_size @ elements_bytes ?es"
    by (simp add: file_bytes_def file_header_def)
  have "length ?es \<le> length (unknown_size @ elements_bytes ?es)"
    using length_elements_bytes [OF good] by simp
  from read_elements_bytes [OF good this]
  have elements: "read_elements (length (unknown_size @ elements_bytes ?es)) (elements_bytes ?es)
      = Some (map (\<lambda>(i, payload). (unat i, payload)) ?es)" .
  have "length ebml_bytes < 2 ^ 64" using length_ebml by simp
  then have ebml: "read_element (file_bytes fmt d cs) = Some (0x1a45dfa3, ebml_bytes,
      id_bytes 0x18538067 @ unknown_size @ elements_bytes ?es)"
    unfolding bytes by (subst read_element_bytes) simp_all
  have segment: "read_id (id_bytes 0x18538067 @ unknown_size @ elements_bytes ?es)
      = Some (0x18538067, unknown_size @ elements_bytes ?es)"
    by (subst read_id_bytes) simp_all
  have unknown: "length unknown_size = 8" "take 8 unknown_size = unknown_size" "drop 8 unknown_size = []"
    by (simp_all add: unknown_size_def)
  have clusters: "read_clusters (map (\<lambda>(i, payload). (unat i, payload)) (map cluster_element cs))
      = map (\<lambda>(pts_ms, track, data). Some (unat pts_ms, unat track, 0, data)) cs"
    using assms read_cluster_payload
    by (auto simp: read_clusters_def cluster_element_def good_cluster_def)
  show ?thesis
    by (simp add: read_file_def ebml segment unknown elements [simplified unknown length_append] clusters [unfolded map_map] read_info length_info lookup_element_def
        del: elements_bytes_simps)
qed

subsection \<open>The writer's states\<close>

text \<open>The calls of a capture session on its writer, and the clusters they add.\<close>

datatype writer_call =
    PutVideo timed_video_frame media_timing
  | PutAudio timed_audio_chunk media_timing
  | FlushFile

definition writer_call ::
  "'w output_ops \<Rightarrow> 'w matroska_writer \<Rightarrow> writer_call \<Rightarrow> (matroska_error + unit) \<times> 'w matroska_writer"
  where
  "writer_call ops mw c =
     (case c of
        PutVideo event timing \<Rightarrow> write_video ops mw event timing
      | PutAudio event timing \<Rightarrow> write_audio ops mw event timing
      | FlushFile \<Rightarrow> matroska_flush ops mw)"

definition accepts_audio :: "audio_format \<Rightarrow> timed_audio_chunk \<Rightarrow> bool" where
  "accepts_audio fmt event \<longleftrightarrow>
     ta_format event = fmt \<and> length (pcm (ta_chunk event)) = expected_pcm_length event"

definition call_clusters :: "audio_format \<Rightarrow> writer_call \<Rightarrow> (u64 \<times> u8 \<times> bytes) list" where
  "call_clusters fmt c =
     (case c of
        PutVideo event timing \<Rightarrow> [(pts_us timing div 1000, VIDEO_TRACK, fr_jpeg (tv_frame event))]
      | PutAudio event timing \<Rightarrow>
          if accepts_audio fmt event
          then [(pts_us timing div 1000, AUDIO_TRACK, pcm (ta_chunk event))] else []
      | FlushFile \<Rightarrow> [])"

definition call_end :: "audio_format \<Rightarrow> writer_call \<Rightarrow> u64" where
  "call_end fmt c =
     (case c of
        PutVideo event timing \<Rightarrow> sat_add (pts_us timing) (duration_us timing)
      | PutAudio event timing \<Rightarrow>
          if accepts_audio fmt event then sat_add (pts_us timing) (duration_us timing) else 0
      | FlushFile \<Rightarrow> 0)"

definition call_size :: "writer_call \<Rightarrow> nat" where
  "call_size c =
     (case c of
        PutVideo event timing \<Rightarrow> length (fr_jpeg (tv_frame event))
      | PutAudio event timing \<Rightarrow> length (pcm (ta_chunk event))
      | FlushFile \<Rightarrow> 0)"

definition duration_bits :: "u64 \<Rightarrow> u64" where
  "duration_bits end_us = f64_div (f64_of_u64 end_us) (f64_of_u64 1000)"

lemma write_audio_rejects:
  "\<not> accepts_audio (mw_audio_format mw) event \<Longrightarrow>
     snd (write_audio ops mw event timing) = mw \<and> isl (fst (write_audio ops mw event timing))"
  by (auto simp: write_audio_def accepts_audio_def Let_def)

lemma file_bytes_parts:
  "file_bytes fmt d cs = header_prefix @ be_bytes 8 d @ header_suffix fmt @ elements_bytes (map cluster_element cs)"
  by (simp add: file_bytes_def file_header_parts)

lemma elements_bytes_append: "elements_bytes (xs @ ys) = elements_bytes xs @ elements_bytes ys"
  by (simp add: elements_bytes_def)

lemma file_bytes_snoc: "file_bytes fmt d (cs @ [c]) = file_bytes fmt d cs
    @ element_bytes 0x1f43b675 (cluster_payload (fst c) (fst (snd c)) (snd (snd c)))"
  by (simp add: file_bytes_def elements_bytes_append cluster_element_def)

definition cluster_room :: "u64 \<times> u8 \<times> bytes \<Rightarrow> nat" where
  "cluster_room c = length (snd (snd c)) + 48"

lemma length_file_bytes: "length (file_bytes fmt d cs) \<le> 600 + sum_list (map cluster_room cs)"
proof -
  have "length (elements_bytes (map cluster_element cs)) \<le> sum_list (map cluster_room cs)"
  proof (induction cs)
    case (Cons c cs)
    then show ?case
      using length_element_bytes [of "0x1f43b675" "cluster_payload (fst c) (fst (snd c)) (snd (snd c))"]
        length_cluster_payload [of "fst c" "fst (snd c)" "snd (snd c)"]
      by (simp add: cluster_element_def cluster_room_def)
  qed simp
  then show ?thesis using length_file_header [of fmt d] by (simp add: file_bytes_def)
qed

context seekable_output begin

text \<open>
  What the writer keeps: the position is the end, the file is the header with some
  duration field followed by one cluster for every accepted packet, and the duration
  field is at the offset.
\<close>

definition writes :: "'w matroska_writer \<Rightarrow> audio_format \<Rightarrow> u64 \<Rightarrow> (u64 \<times> u8 \<times> bytes) list \<Rightarrow> u64 \<Rightarrow> bool"
  where
  "writes mw fmt d cs end_us \<longleftrightarrow>
     mw_audio_format mw = fmt \<and> duration_offset mw = 67 \<and> maximum_end_us mw = end_us
     \<and> pos (mw_output mw) = length (contents (mw_output mw))
     \<and> contents (mw_output mw) = file_bytes fmt d cs"

lemma matroska_new_writes:
  assumes "pos w = 0" and "contents w = []"
  obtains mw where "matroska_new ops w fmt = Inr mw" "writes mw fmt 0 [] 0"
proof -
  obtain w' where "write_header ops fmt w = (Inr 67, w')" "contents w' = file_header fmt 0"
    "pos w' = length (contents w')"
    using write_header_appends [of w fmt] assms by auto
  then show ?thesis
    using that by (simp add: matroska_new_def writes_def file_bytes_def)
qed

lemma write_cluster_writes:
  assumes "writes mw fmt d cs end_us" and "length data < 2 ^ 55"
  obtains w' where "write_cluster (out_write_all ops) pts_ms track data (mw_output mw) = (Inr (), w')"
    "writes (mw\<lparr>mw_output := w'\<rparr>) fmt d (cs @ [(pts_ms, track, data)]) end_us"
proof -
  have pos: "pos (mw_output mw) = length (contents (mw_output mw))"
    using assms(1) by (simp add: writes_def)
  obtain w' where w': "element (out_write_all ops) 0x1f43b675 (cluster_payload pts_ms track data) (mw_output mw) = (Inr (), w')"
    "pos w' = length (contents w')"
    "contents w' = contents (mw_output mw) @ element_bytes 0x1f43b675 (cluster_payload pts_ms track data)"
    by (rule sink.element_succeeds [OF pos fits_cluster [OF assms(2)]])
  have "writes (mw\<lparr>mw_output := w'\<rparr>) fmt d (cs @ [(pts_ms, track, data)]) end_us"
    using assms(1) w' by (simp add: writes_def file_bytes_snoc)
  moreover have "write_cluster (out_write_all ops) pts_ms track data (mw_output mw) = (Inr (), w')"
    using w'(1) by (simp only: write_cluster_eq [OF assms(2)])
  ultimately show ?thesis using that by blast
qed

lemma write_media_writes:
  assumes "writes mw fmt d cs end_us" and "length data < 2 ^ 55"
  obtains mw' where "io_step (write_cluster (out_write_all ops) pts_ms track data (mw_output mw)) mw
      (\<lambda>_ mw. (Inr (), note_end timing mw)) = (Inr (), mw')"
    "writes mw' fmt d (cs @ [(pts_ms, track, data)]) (max end_us (sat_add (pts_us timing) (duration_us timing)))"
proof -
  obtain w' where w': "write_cluster (out_write_all ops) pts_ms track data (mw_output mw) = (Inr (), w')"
    "writes (mw\<lparr>mw_output := w'\<rparr>) fmt d (cs @ [(pts_ms, track, data)]) end_us"
    by (rule write_cluster_writes [OF assms])
  show ?thesis
    by (rule that [of "note_end timing (mw\<lparr>mw_output := w'\<rparr>)"])
      (use w' in \<open>simp_all add: io_step_def note_end_def writes_def\<close>)
qed

lemma flush_writes:
  assumes "writes mw fmt d cs end_us" and "600 + sum_list (map cluster_room cs) < 2 ^ 64"
  obtains mw' where "matroska_flush ops mw = (Inr (), mw')"
    "writes mw' fmt (duration_bits end_us) cs end_us"
proof -
  let ?n = "length (contents (mw_output mw))"
  have "?n < 2 ^ 64"
    using assms length_file_bytes [of fmt d cs] by (simp add: writes_def)
  then have n: "unat (of_nat ?n :: u64) = ?n"
    by (simp add: unat_of_nat take_bit_nat_eq_self)
  obtain w1 where w1: "out_seek_end ops (mw_output mw) = (Inr (of_nat ?n), w1)"
    "contents w1 = contents (mw_output mw)"
    using seek_end [of "mw_output mw"] by auto
  obtain w2 where w2: "out_seek_start ops 67 w1 = (Inr (), w2)" "contents w2 = contents w1" "pos w2 = 67"
    using seek_start [of 67 w1] by auto
  have parts: "contents w2 = header_prefix @ be_bytes 8 d @ header_suffix fmt
      @ elements_bytes (map cluster_element cs)"
    using assms(1) w1 w2 by (simp add: writes_def file_bytes_parts)
  obtain w3 where w3: "out_write_all ops (be_bytes 8 (duration_bits end_us)) w2 = (Inr (), w3)"
    "contents w3 = file_bytes fmt (duration_bits end_us) cs"
    using put [of w2 "be_bytes 8 (duration_bits end_us)"] w2(3)
    by (auto simp: parts length_header_prefix file_bytes_parts)
  obtain w4 where w4: "out_seek_start ops (of_nat ?n) w3 = (Inr (), w4)" "contents w4 = contents w3"
    "pos w4 = ?n"
    using seek_start [of "of_nat ?n" w3] n by auto
  obtain w5 where w5: "out_flush ops w4 = (Inr (), w5)" "contents w5 = contents w4" "pos w5 = pos w4"
    using flush [of w4] by auto
  have "?n = length (file_bytes fmt (duration_bits end_us) cs)"
    using assms(1) by (simp add: writes_def file_bytes_parts)
  moreover have "matroska_flush ops mw = (Inr (), mw\<lparr>mw_output := w5\<rparr>)"
    using assms(1) w1(1) w2(1) w3(1) w4(1) w5(1)
    by (simp add: matroska_flush_def write_duration_def io_step_def writes_def duration_bits_def Let_def)
  ultimately show ?thesis
    using that [of "mw\<lparr>mw_output := w5\<rparr>"] assms(1) w3(2) w4(2,3) w5(2,3) by (simp add: writes_def)
qed

lemma writer_call_writes:
  assumes "writes mw fmt d cs end_us" and "call_size c < 2 ^ 55"
    and "600 + sum_list (map cluster_room cs) < 2 ^ 64"
  obtains d' where "writes (snd (writer_call ops mw c)) fmt d' (cs @ call_clusters fmt c)
      (max end_us (call_end fmt c))"
proof (cases c)
  case (PutVideo event timing)
  then have "length (fr_jpeg (tv_frame event)) < 2 ^ 55" using assms(2) by (simp add: call_size_def)
  then obtain mw' where "write_video ops mw event timing = (Inr (), mw')"
    "writes mw' fmt d (cs @ call_clusters fmt c) (max end_us (call_end fmt c))"
    unfolding PutVideo write_video_def call_clusters_def call_end_def writer_call.case
    by (rule write_media_writes [OF assms(1)])
  then show ?thesis using that PutVideo by (simp add: writer_call_def)
next
  case (PutAudio event timing)
  have fmt: "mw_audio_format mw = fmt" using assms(1) by (simp add: writes_def)
  show ?thesis
  proof (cases "accepts_audio fmt event")
    case True
    have size: "length (pcm (ta_chunk event)) < 2 ^ 55" using assms(2) PutAudio by (simp add: call_size_def)
    obtain mw' where mw': "io_step (write_cluster (out_write_all ops) (pts_us timing div 1000) AUDIO_TRACK
        (pcm (ta_chunk event)) (mw_output mw)) mw (\<lambda>_ mw. (Inr (), note_end timing mw)) = (Inr (), mw')"
      "writes mw' fmt d (cs @ call_clusters fmt c) (max end_us (call_end fmt c))"
      unfolding PutAudio call_clusters_def call_end_def writer_call.case if_P [OF True]
      by (rule write_media_writes [OF assms(1) size])
    have "write_audio ops mw event timing = (Inr (), mw')"
      using True fmt mw'(1) by (simp add: write_audio_def accepts_audio_def Let_def)
    then show ?thesis using that PutAudio mw'(2) by (simp add: writer_call_def)
  next
    case False
    then show ?thesis
      using PutAudio that assms(1) fmt write_audio_rejects [of mw event ops timing]
      by (auto simp: writer_call_def call_clusters_def call_end_def)
  qed
next
  case FlushFile
  obtain mw' where "matroska_flush ops mw = (Inr (), mw')" "writes mw' fmt (duration_bits end_us) cs end_us"
    by (rule flush_writes [OF assms(1,3)])
  then show ?thesis using that FlushFile by (simp add: writer_call_def call_clusters_def call_end_def)
qed

end

subsection \<open>Whole files\<close>

definition calls_end :: "audio_format \<Rightarrow> writer_call list \<Rightarrow> u64" where
  "calls_end fmt calls = foldl (\<lambda>e c. max e (call_end fmt c)) 0 calls"

definition calls_clusters :: "audio_format \<Rightarrow> writer_call list \<Rightarrow> (u64 \<times> u8 \<times> bytes) list" where
  "calls_clusters fmt calls = concat (map (call_clusters fmt) calls)"

text \<open>Room for the data of the packets and for what frames them.\<close>

definition call_room :: "writer_call \<Rightarrow> nat" where
  "call_room c = (if c = FlushFile then 0 else call_size c + 48)"

definition calls_room :: "writer_call list \<Rightarrow> nat" where
  "calls_room calls = sum_list (map call_room calls)"

lemma call_clusters_room: "sum_list (map cluster_room (call_clusters fmt c)) \<le> call_room c"
  by (cases c) (auto simp: call_clusters_def call_size_def cluster_room_def call_room_def)

lemma call_size_room: "call_size c \<le> call_room c"
  by (cases c) (auto simp: call_size_def call_room_def)

lemma call_clusters_good: "call_size c < 2 ^ 55 \<Longrightarrow> \<forall>x \<in> set (call_clusters fmt c). good_cluster x"
  by (cases c) (auto simp: call_clusters_def call_size_def good_cluster_def)

lemma calls_clusters_good: "calls_room calls < 2 ^ 55 \<Longrightarrow> \<forall>x \<in> set (calls_clusters fmt calls). good_cluster x"
proof (induction calls)
  case (Cons c calls)
  then have "call_size c < 2 ^ 55" "calls_room calls < 2 ^ 55"
    using call_size_room [of c] by (simp_all add: calls_room_def)
  then show ?case
    using Cons.IH call_clusters_good [of c fmt] by (simp only: calls_clusters_def) auto
qed (simp add: calls_clusters_def)

context seekable_output begin

lemma writer_calls_write:
  assumes "writes mw fmt d cs end_us" and "sum_list (map cluster_room cs) + calls_room calls < 2 ^ 55"
  obtains d' where "writes (snd (run_steps (writer_call ops) mw calls)) fmt d' (cs @ calls_clusters fmt calls)
      (foldl (\<lambda>e c. max e (call_end fmt c)) end_us calls)"
  using assms
proof (induction calls arbitrary: mw d cs end_us thesis)
  case Nil
  then show ?case by (simp add: calls_clusters_def)
next
  case (Cons c calls)
  have room: "sum_list (map cluster_room cs) + (call_room c + calls_room calls) < 2 ^ 55"
    using Cons.prems(3) by (simp add: calls_room_def)
  then have "call_size c < 2 ^ 55" "600 + sum_list (map cluster_room cs) < 2 ^ 64"
    using call_size_room [of c] by simp_all
  then obtain d1 where d1: "writes (snd (writer_call ops mw c)) fmt d1 (cs @ call_clusters fmt c)
      (max end_us (call_end fmt c))"
    by (rule writer_call_writes [OF Cons.prems(2)])
  have "sum_list (map cluster_room (cs @ call_clusters fmt c)) + calls_room calls < 2 ^ 55"
    using room call_clusters_room [of fmt c] by simp
  then obtain d2 where "writes (snd (run_steps (writer_call ops) (snd (writer_call ops mw c)) calls)) fmt d2
      ((cs @ call_clusters fmt c) @ calls_clusters fmt calls)
      (foldl (\<lambda>e c. max e (call_end fmt c)) (max end_us (call_end fmt c)) calls)"
    using Cons.IH [OF _ d1] by blast
  then show ?case using Cons.prems(1) [of d2] by (simp add: calls_clusters_def)
qed

end

definition into_inner :: "'w output_ops \<Rightarrow> 'w matroska_writer \<Rightarrow> matroska_error + 'w" where
  "into_inner ops mw =
     (case matroska_flush ops mw of (Inl e, mw) \<Rightarrow> Inl e | (Inr _, mw) \<Rightarrow> Inr (mw_output mw))"

text \<open>A writer on an output, its calls in order, and the output it gives back.\<close>

definition write_file :: "'w output_ops \<Rightarrow> 'w \<Rightarrow> audio_format \<Rightarrow> writer_call list \<Rightarrow> matroska_error + 'w" where
  "write_file ops w fmt calls =
     rbind (matroska_new ops w fmt) (\<lambda>mw. into_inner ops (snd (run_steps (writer_call ops) mw calls)))"

context seekable_output begin

lemma write_file_bytes:
  assumes "pos w = 0" and "contents w = []" and "calls_room calls < 2 ^ 55"
  shows "\<exists>w'. write_file ops w fmt calls = Inr w'
    \<and> contents w' = file_bytes fmt (duration_bits (calls_end fmt calls)) (calls_clusters fmt calls)"
proof -
  obtain mw where mw: "matroska_new ops w fmt = Inr mw" "writes mw fmt 0 [] 0"
    by (rule matroska_new_writes [OF assms(1,2)])
  have room: "sum_list (map cluster_room []) + calls_room calls < 2 ^ 55" using assms(3) by simp
  obtain d where d: "writes (snd (run_steps (writer_call ops) mw calls)) fmt d (calls_clusters fmt calls)
      (calls_end fmt calls)"
    using writer_calls_write [OF mw(2) room] unfolding calls_end_def append_Nil by blast
  have "sum_list (map cluster_room (calls_clusters fmt calls)) \<le> calls_room calls"
  proof (induction calls)
    case (Cons c calls)
    then show ?case
      using call_clusters_room [of fmt c] by (simp add: calls_clusters_def calls_room_def)
  qed (simp add: calls_clusters_def)
  then have "600 + sum_list (map cluster_room (calls_clusters fmt calls)) < 2 ^ 64" using assms(3) by simp
  then obtain mw' where "matroska_flush ops (snd (run_steps (writer_call ops) mw calls)) = (Inr (), mw')"
    "writes mw' fmt (duration_bits (calls_end fmt calls)) (calls_clusters fmt calls) (calls_end fmt calls)"
    by (rule flush_writes [OF d])
  then show ?thesis
    using mw(1) by (simp add: write_file_def into_inner_def writes_def)
qed

end

interpretation cursor_out: seekable_output cursor_ops cur_content cur_pos
  by unfold_locales (auto simp: cursor_ops_def cursor_write_all_def Let_def)

definition empty_cursor :: cursor where
  "empty_cursor = \<lparr>cur_content = [], cur_pos = 0\<rparr>"

definition write_cursor :: "audio_format \<Rightarrow> writer_call list \<Rightarrow> matroska_error + bytes" where
  "write_cursor fmt calls = map_sum (\<lambda>e. e) cur_content (write_file cursor_ops empty_cursor fmt calls)"

lemma write_cursor_bytes:
  "calls_room calls < 2 ^ 55 \<Longrightarrow> write_cursor fmt calls
     = Inr (file_bytes fmt (duration_bits (calls_end fmt calls)) (calls_clusters fmt calls))"
  using cursor_out.write_file_bytes [of empty_cursor calls fmt]
  by (auto simp: write_cursor_def empty_cursor_def)

text \<open>
  Property C6. For every sequence of packets and flushes, the file that a writer on an empty
  cursor returns reads back as: the duration field holds the double of the largest end
  of an accepted packet in milliseconds, and the clusters are the accepted packets in the
  order of the calls, each with its time in milliseconds, its track and exactly its data.
\<close>

theorem matroska_file_reads_back:
  assumes "calls_room calls < 2 ^ 55"
  shows "\<exists>file. write_cursor fmt calls = Inr file
    \<and> read_file file = Some (Some (be_bytes 8 (duration_bits (calls_end fmt calls))),
        map (\<lambda>(pts_ms, track, data). Some (unat pts_ms, unat track, 0, data)) (calls_clusters fmt calls))"
  using write_cursor_bytes [OF assms, of fmt] read_file_bytes [OF calls_clusters_good [OF assms]] by blast

definition sample_format :: audio_format where
  "sample_format =
     \<lparr>sample_rate_hz = nonzero_or_one 16000, af_channels = nonzero_or_one 2,
      af_encoding = Signed16LittleEndian\<rparr>"

definition sample_calls :: "writer_call list" where
  "sample_calls =
     [PutVideo \<lparr>observed_at = timestamp_ZERO, tv_frame = \<lparr>fr_sequence = 0, timestamp_11bit_ms = 0,
        timestamp_unwrapped_ms = 0, timestamp_delta_to_next_ms = 40, fr_flags = 0,
        fr_jpeg = [0xff, 0xd8, 0xff, 0xd9]\<rparr>, tv_discontinuity = False\<rparr>
        \<lparr>pts_us = 5000, duration_us = 40000, observed_drift_us = 0, discontinuity = False\<rparr>,
      FlushFile,
      PutAudio \<lparr>observed_start = timestamp_ZERO, ta_accuracy = Estimated, ta_format = sample_format,
        ta_chunk = \<lparr>pcm = [1, 2, 3, 4], start_sample_frame = 0, sample_frames = 1\<rparr>,
        ta_discontinuity = False\<rparr>
        \<lparr>pts_us = 6000, duration_us = 62, observed_drift_us = 0, discontinuity = False\<rparr>,
      PutAudio \<lparr>observed_start = timestamp_ZERO, ta_accuracy = Estimated, ta_format = sample_format,
        ta_chunk = \<lparr>pcm = [1, 2, 3], start_sample_frame = 1, sample_frames = 1\<rparr>,
        ta_discontinuity = False\<rparr>
        \<lparr>pts_us = 90000, duration_us = 62, observed_drift_us = 0, discontinuity = False\<rparr>]"

lemma sample_calls_values:
  "calls_end sample_format sample_calls = 45000"
  "calls_clusters sample_format sample_calls
     = [(5, VIDEO_TRACK, [0xff, 0xd8, 0xff, 0xd9]), (6, AUDIO_TRACK, [1, 2, 3, 4])]"
  "duration_bits 45000 = 0x4046800000000000"
proof -
  show "duration_bits 45000 = 0x4046800000000000" by code_simp
  have pcm: "expected_pcm_length \<lparr>observed_start = t, ta_accuracy = a, ta_format = sample_format,
      ta_chunk = \<lparr>pcm = p, start_sample_frame = n, sample_frames = 1\<rparr>, ta_discontinuity = d\<rparr> = 4" for t a n p d
    by (simp add: expected_pcm_length_def sample_format_def usize_MAX_def)
  show "calls_end sample_format sample_calls = 45000"
    by (simp add: sample_calls_def calls_end_def call_end_def accepts_audio_def pcm sat_add_def)
  show "calls_clusters sample_format sample_calls
     = [(5, VIDEO_TRACK, [0xff, 0xd8, 0xff, 0xd9]), (6, AUDIO_TRACK, [1, 2, 3, 4])]"
    by (simp add: sample_calls_def calls_clusters_def call_clusters_def accepts_audio_def pcm)
qed

lemma sample_calls_room: "calls_room sample_calls < 2 ^ 55"
  by (simp add: sample_calls_def calls_room_def call_room_def call_size_def)

lemma matroska_file_reads_back_witness:
  "\<exists>file. write_cursor sample_format sample_calls = Inr file
    \<and> read_file file = Some (Some [0x40, 0x46, 0x80, 0, 0, 0, 0, 0],
        [Some (5, 1, 0, [0xff, 0xd8, 0xff, 0xd9]), Some (6, 2, 0, [1, 2, 3, 4])])"
proof -
  have "be_bytes 8 (0x4046800000000000 :: u64) = [0x40, 0x46, 0x80, 0, 0, 0, 0, 0]" by code_simp
  then show ?thesis
    using matroska_file_reads_back [OF sample_calls_room, of sample_format]
    by (simp add: sample_calls_values VIDEO_TRACK_def AUDIO_TRACK_def)
qed

end
