(* ===== verification/Driver_Common.thy ===== *)
theory Driver_Common
  imports Init_Plan Usb_Control Sink Linux_Audio Matroska
begin

section \<open>Shared parts of the commands\<close>

text \<open>
  The helpers of \<open>crates/handycam-cli/src/main.rs\<close> that several commands use: the
  application error, loading and adapting the initialization plan, watching the output
  worker, and the conversions of instants.
\<close>

datatype 'h app_error =
    ReadPlan string string
  | PlanError "'h init_plan_error"
  | ScaleFactorRange scale_factor_error
  | MissingScaleFactorWrite
  | SignalError string
  | ReadReplay string string
  | NoReplayFrames string
  | InvalidReplayFrame string
  | ReplayMetadata nat string
  | ReplayRange string nat nat nat
  | SinkError string
  | SinkStopped
  | UsbError usb_transport_error
  | ProtocolError stream_decode_error
  | SinkPanicked
  | AudioError audio_capture_error
  | MatroskaError matroska_error
  | CreateCapture string string
  | AudioClosed
  | AudioWorker string
  | NoCapturedAudio
  | NoCapturedVideo
  | InvalidTransportSequence u8

definition map_err :: "('e \<Rightarrow> 'f) \<Rightarrow> 'e + 'a \<Rightarrow> 'f + 'a" where
  "map_err f r = map_sum f (\<lambda>a. a) r"

lemma map_err_simps [simp]:
  "map_err f (Inl e) = Inl (f e)" "map_err f (Inr a) = Inr a"
  "map_err f r = Inr a \<longleftrightarrow> r = Inr a"
  by (cases r; simp add: map_err_def)+

subsection \<open>The plan\<close>

text \<open>
  \<open>load_plan\<close>: the embedded text, or the file at a path, read by \<open>read_file_text\<close>.
\<close>

definition record_mode_init_plan ::
  "'h hex_decoder \<Rightarrow> string \<Rightarrow> 'h init_plan_error + init_op list" where
  "record_mode_init_plan hex_decode embedded = parse_init_plan hex_decode embedded"

definition load_plan ::
  "'h hex_decoder \<Rightarrow> string \<Rightarrow> (string \<Rightarrow> string + string) \<Rightarrow> string option
   \<Rightarrow> 'h app_error + init_op list" where
  "load_plan hex_decode embedded read_file_text path =
     (case path of
        None \<Rightarrow> map_err PlanError (record_mode_init_plan hex_decode embedded)
      | Some path \<Rightarrow>
          rbind (map_err (ReadPlan path) (read_file_text path)) (\<lambda>text.
          map_err PlanError (parse_init_plan hex_decode text)))"

definition apply_quality :: "u8 option \<Rightarrow> init_op list \<Rightarrow> 'h app_error + init_op list" where
  "apply_quality quality plan =
     (case quality of
        None \<Rightarrow> Inr plan
      | Some v \<Rightarrow>
          rbind (map_err ScaleFactorRange (scale_factor_new v)) (\<lambda>factor.
          case override_record_mode_scale_factor plan factor of
            (found, plan) \<Rightarrow> if \<not> found then Inl MissingScaleFactorWrite else Inr plan))"

definition choose_strategy :: "bool \<Rightarrow> bool \<Rightarrow> init_strategy" where
  "choose_strategy semantic_init playback_init =
     (if semantic_init then ConditionPolling
      else if playback_init then PlaybackConditionPolling
      else LiteralReplay)"

definition choose_target :: "string \<Rightarrow> sink_target" where
  "choose_target output = (if output = ''-'' then Stdout else V4l2 output)"

subsection \<open>The surroundings of a command\<close>

text \<open>
  What surrounds the commands, as operations on a world \<open>'w\<close>: the stop flag, the clock,
  sleeping, installing the signal handlers, starting the worker, its statuses (received with
  waiting or without), the frame channel (sending without waiting, or waiting for room:
  \<open>False\<close> when the worker has ended), and joining the worker after dropping the sender.
\<close>

datatype 'a try_recv = Received 'a | Empty | Disconnected

datatype try_send = SendOk | SendFull | SendDisconnected

record 'w driver_ops =
  dr_stopping :: "'w \<Rightarrow> bool \<times> 'w"
  dr_now :: "'w \<Rightarrow> nat \<times> 'w"
  dr_sleep :: "nat \<Rightarrow> 'w \<Rightarrow> 'w"
  dr_signals :: "'w \<Rightarrow> (string + unit) \<times> 'w"
  dr_spawn :: "sink_target \<Rightarrow> output_format \<Rightarrow> 'w \<Rightarrow> 'w"
  dr_recv_status :: "'w \<Rightarrow> sink_status option \<times> 'w"
  dr_try_recv_status :: "'w \<Rightarrow> sink_status try_recv \<times> 'w"
  dr_try_send :: "compressed_frame \<Rightarrow> 'w \<Rightarrow> try_send \<times> 'w"
  dr_send :: "compressed_frame \<Rightarrow> 'w \<Rightarrow> bool \<times> 'w"
  dr_join :: "'w \<Rightarrow> bool \<times> 'w"

definition wait_for_sink :: "sink_status option \<Rightarrow> 'h app_error + unit" where
  "wait_for_sink received =
     (case received of
        Some SinkReady \<Rightarrow> Inr ()
      | Some (SinkFailed error) \<Rightarrow> Inl (SinkError error)
      | Some SinkClosed \<Rightarrow> Inl SinkStopped
      | None \<Rightarrow> Inl SinkStopped)"

definition check_sink :: "sink_status try_recv \<Rightarrow> ('h app_error + unit) option" where
  "check_sink received =
     (case received of
        Received SinkReady \<Rightarrow> None
      | Received SinkClosed \<Rightarrow> Some (Inr ())
      | Received (SinkFailed error) \<Rightarrow> Some (Inl (SinkError error))
      | Empty \<Rightarrow> None
      | Disconnected \<Rightarrow> Some (Inl SinkStopped))"

definition should_retry_open :: "usb_transport_error \<Rightarrow> bool" where
  "should_retry_open error =
     (case error of NoCamera \<Rightarrow> True | Usb code \<Rightarrow> code = - 4 \<or> code = - 1 \<or> code = - 7 | _ \<Rightarrow> False)"

text \<open>\<open>wait_interruptibly\<close>, for at most the given number of iterations.\<close>

fun wait_until :: "('w, 'm) driver_ops_scheme \<Rightarrow> nat \<Rightarrow> nat \<Rightarrow> 'w \<Rightarrow> ('h app_error + bool) option \<times> 'w" where
  "wait_until ops 0 deadline w = (None, w)"
| "wait_until ops (Suc steps) deadline w =
     (case dr_now ops w of (now, w) \<Rightarrow>
        if \<not> now < deadline then (Some (Inr False), w)
        else
          (case dr_stopping ops w of
             (True, w) \<Rightarrow> (Some (Inr True), w)
           | (False, w) \<Rightarrow>
             (case dr_try_recv_status ops w of (status, w) \<Rightarrow>
              case check_sink status of
                Some result \<Rightarrow> (Some (rbind result (\<lambda>_. Inr True)), w)
              | None \<Rightarrow> wait_until ops steps deadline (dr_sleep ops 50000000 w))))"

definition wait_interruptibly ::
  "('w, 'm) driver_ops_scheme \<Rightarrow> nat \<Rightarrow> nat \<Rightarrow> 'w \<Rightarrow> ('h app_error + bool) option \<times> 'w" where
  "wait_interruptibly ops steps duration w =
     (case dr_now ops w of (now, w) \<Rightarrow> wait_until ops steps (now + duration) w)"

subsection \<open>Time\<close>

definition monotonic_timestamp_of :: "nat \<Rightarrow> nat \<Rightarrow> monotonic_timestamp" where
  "monotonic_timestamp_of origin' observed' = from_micros (micros_since origin' observed')"

definition event_observed_timestamp :: "timed_media_event \<Rightarrow> monotonic_timestamp" where
  "event_observed_timestamp event =
     (case event of VideoEvent frame \<Rightarrow> observed_at frame | AudioEvent chunk \<Rightarrow> observed_start chunk)"

definition unsigned_abs :: "i64 \<Rightarrow> u64" where
  "unsigned_abs x = (if sint x < 0 then - x else x)"

definition apply_audio_delay :: "media_timing \<Rightarrow> i64 \<Rightarrow> media_timing" where
  "apply_audio_delay timing delay_ms =
     (let magnitude_us = sat_mul (unsigned_abs delay_ms) 1000
      in timing\<lparr>pts_us := (if 0 \<le> sint delay_ms then sat_add (pts_us timing) magnitude_us
                           else sat_sub (pts_us timing) magnitude_us)\<rparr>)"

definition is_nominal_camera_delta :: "u16 \<Rightarrow> bool" where
  "is_nominal_camera_delta delta_ms \<longleftrightarrow> 39 \<le> delta_ms \<and> delta_ms \<le> 41"

definition starts_with :: "bytes \<Rightarrow> bytes \<Rightarrow> bool" where
  "starts_with prefix data \<longleftrightarrow> take (length prefix) data = prefix"

definition ends_with :: "bytes \<Rightarrow> bytes \<Rightarrow> bool" where
  "ends_with suffix data \<longleftrightarrow>
     length suffix \<le> length data \<and> drop (length data - length suffix) data = suffix"

definition is_complete_jpeg :: "bytes \<Rightarrow> bool" where
  "is_complete_jpeg data \<longleftrightarrow> starts_with [0xff, 0xd8] data \<and> ends_with [0xff, 0xd9] data"

end
