(* ===== verification/Usb_Session.thy ===== *)
theory Usb_Session
  imports Usb_Control Stream_Decoder
begin

section \<open>The isochronous session\<close>

text \<open>
  Model of the session half of \<open>crates/handycam-libusb/src/transport.rs\<close>: the transfer
  slots, the completion callback, polling and the stop sequence. libusb is the environment: it
  answers allocation, submission and cancellation, and runs the callback of a submitted
  transfer once for each submission.
\<close>

subsection \<open>Events, statistics, slots\<close>

definition LIBUSB_TRANSFER_COMPLETED :: int where
  "LIBUSB_TRANSFER_COMPLETED = 0"

definition LIBUSB_TRANSFER_CANCELLED :: int where
  "LIBUSB_TRANSFER_CANCELLED = 3"

definition LIBUSB_TRANSFER_OVERFLOW :: int where
  "LIBUSB_TRANSFER_OVERFLOW = 6"

definition BOUNDARY_PACKET_SIZE :: nat where
  "BOUNDARY_PACKET_SIZE = 8"

definition VIDEO_PACKET_SIZE :: nat where
  "VIDEO_PACKET_SIZE = 768"

definition TRANSFERS_PER_ENDPOINT :: nat where
  "TRANSFERS_PER_ENDPOINT = 32"

text \<open>The receive time is in nanoseconds since the earliest instant of the monotonic clock.\<close>

datatype session_event =
    Packet endpoint bytes nat
  | PacketError endpoint int
  | TransferFailed endpoint int
  | SubmitFailed endpoint int
  | CallbackPanicked

definition ends_session :: "session_event \<Rightarrow> bool" where
  "ends_session e \<longleftrightarrow>
     (case e of
        TransferFailed _ _ \<Rightarrow> True | SubmitFailed _ _ \<Rightarrow> True | CallbackPanicked \<Rightarrow> True
      | Packet _ _ _ \<Rightarrow> False | PacketError _ _ \<Rightarrow> False)"

record session_stats =
  st_packets :: u64
  st_nonempty_packets :: u64
  st_packet_errors :: u64
  st_bytes :: u64
  st_transfer_errors :: u64

definition stats_default :: session_stats where
  "stats_default =
     \<lparr>st_packets = 0, st_nonempty_packets = 0, st_packet_errors = 0, st_bytes = 0,
      st_transfer_errors = 0\<rparr>"

record transfer_slot =
  slot_endpoint :: endpoint
  slot_buffer_size :: nat
  slot_submitted :: bool

definition endpoint_address :: "transfer_slot \<Rightarrow> u8" where
  "endpoint_address slot =
     (case slot_endpoint slot of Boundary \<Rightarrow> EP_BOUNDARY | Video \<Rightarrow> EP_VIDEO)"

record usb_session =
  slots :: "transfer_slot list"
  ses_events :: "session_event list"
  running :: bool
  ses_stats :: session_stats
  stopped :: bool

definition session_initial :: usb_session where
  "session_initial =
     \<lparr>slots = [], ses_events = [], running = True, ses_stats = stats_default, stopped = False\<rparr>"

definition send_event :: "session_event \<Rightarrow> usb_session \<Rightarrow> usb_session" where
  "send_event e s = s\<lparr>ses_events := ses_events s @ [e]\<rparr>"

definition set_submitted :: "nat \<Rightarrow> bool \<Rightarrow> usb_session \<Rightarrow> usb_session" where
  "set_submitted i b s = s\<lparr>slots := (slots s)[i := (slots s ! i)\<lparr>slot_submitted := b\<rparr>]\<rparr>"

subsection \<open>Allocation\<close>

text \<open>
  \<open>allocate_and_submit\<close>: \<open>alloc i\<close> says whether libusb allocates the transfer of index
  \<open>i\<close>, \<open>submit i\<close> is the result of its submission.
\<close>

fun allocate_from ::
  "(nat \<Rightarrow> bool) \<Rightarrow> (nat \<Rightarrow> int) \<Rightarrow> nat list \<Rightarrow> usb_session
   \<Rightarrow> (usb_transport_error + unit) \<times> usb_session" where
  "allocate_from alloc submit [] s = (Inr (), s)"
| "allocate_from alloc submit (i # is) s =
     (let ep = (if i mod 2 = 0 then Boundary else Video);
          packet_size = (case ep of Boundary \<Rightarrow> BOUNDARY_PACKET_SIZE | Video \<Rightarrow> VIDEO_PACKET_SIZE)
      in if \<not> alloc i then (Inl TransferAllocation, s)
         else
           let s = s\<lparr>slots := slots s @
                 [\<lparr>slot_endpoint = ep, slot_buffer_size = packet_size, slot_submitted = False\<rparr>]\<rparr>;
               last = length (slots s) - 1;
               result = submit i
           in if result \<noteq> 0 then (Inl (TransferSubmission result), s)
              else allocate_from alloc submit is (set_submitted last True s))"

definition allocate_and_submit ::
  "(nat \<Rightarrow> bool) \<Rightarrow> (nat \<Rightarrow> int) \<Rightarrow> usb_session \<Rightarrow> (usb_transport_error + unit) \<times> usb_session"
  where
  "allocate_and_submit alloc submit s =
     allocate_from alloc submit [0..<TRANSFERS_PER_ENDPOINT * 2] s"

subsection \<open>The completion callback\<close>

text \<open>
  What libusb hands to the callback: the transfer's status, its one packet descriptor, the
  slot's buffer, the time, and the result that a resubmission will have.
\<close>

record completion =
  cb_status :: int
  cb_packet_status :: int
  cb_actual_length :: u32
  cb_buffer :: bytes
  cb_received_at :: nat
  cb_resubmit :: int

definition count_packet :: "usb_session \<Rightarrow> usb_session" where
  "count_packet s =
     s\<lparr>ses_stats := (ses_stats s)\<lparr>st_packets := st_packets (ses_stats s) + 1\<rparr>\<rparr>"

definition count_packet_error :: "usb_session \<Rightarrow> usb_session" where
  "count_packet_error s =
     s\<lparr>ses_stats := (ses_stats s)\<lparr>st_packet_errors := st_packet_errors (ses_stats s) + 1\<rparr>\<rparr>"

definition count_nonempty :: "nat \<Rightarrow> usb_session \<Rightarrow> usb_session" where
  "count_nonempty n s =
     s\<lparr>ses_stats := (ses_stats s)
        \<lparr>st_nonempty_packets := st_nonempty_packets (ses_stats s) + 1,
         st_bytes := st_bytes (ses_stats s) + of_nat n\<rparr>\<rparr>"

definition count_transfer_error :: "usb_session \<Rightarrow> usb_session" where
  "count_transfer_error s =
     s\<lparr>ses_stats := (ses_stats s)\<lparr>st_transfer_errors := st_transfer_errors (ses_stats s) + 1\<rparr>\<rparr>"

text \<open>The first half of \<open>handle_transfer_callback\<close>: statistics and events.\<close>

definition record_completion :: "completion \<Rightarrow> nat \<Rightarrow> usb_session \<Rightarrow> usb_session" where
  "record_completion c i s =
     (let slot = slots s ! i; ep = slot_endpoint slot
      in if cb_status c = LIBUSB_TRANSFER_COMPLETED then
           let s = count_packet s
           in if cb_packet_status c = LIBUSB_TRANSFER_COMPLETED then
                let len = unat (cb_actual_length c)
                in if len > slot_buffer_size slot then
                     send_event (PacketError ep LIBUSB_TRANSFER_OVERFLOW) (count_packet_error s)
                   else if cb_actual_length c > 0 then
                     send_event (Packet ep (take len (cb_buffer c)) (cb_received_at c))
                       (count_nonempty len s)
                   else s
              else send_event (PacketError ep (cb_packet_status c)) (count_packet_error s)
         else if cb_status c \<noteq> LIBUSB_TRANSFER_CANCELLED then
           send_event (TransferFailed ep (cb_status c))
             ((count_transfer_error s)\<lparr>running := False\<rparr>)
         else s)"

text \<open>
  \<open>handle_transfer_callback\<close>; the second component says whether it has submitted the
  transfer again.
\<close>

definition handle_transfer_callback ::
  "completion \<Rightarrow> nat \<Rightarrow> usb_session \<Rightarrow> usb_session \<times> bool" where
  "handle_transfer_callback c i s =
     (let ep = slot_endpoint (slots s ! i); s = record_completion c i s
      in if running s then
           if cb_resubmit c = 0 then (s, True)
           else
             let s = send_event (SubmitFailed ep (cb_resubmit c)) (s\<lparr>running := False\<rparr>)
             in (set_submitted i False s, False)
         else (set_submitted i False s, False))"

text \<open>
  \<open>transfer_callback\<close>: the body's result, or \<open>None\<close> where it unwound (before it changed
  anything: the only operations that can panic are reading the clock and copying the data).
\<close>

definition transfer_callback ::
  "(usb_session \<times> bool) option \<Rightarrow> nat \<Rightarrow> usb_session \<Rightarrow> usb_session \<times> bool" where
  "transfer_callback result i s =
     (case result of
        Some r \<Rightarrow> r
      | None \<Rightarrow> (send_event CallbackPanicked (set_submitted i False (s\<lparr>running := False\<rparr>)), False))"

text \<open>One callback as libusb runs it: its slot, whether it panics, and the completion.\<close>

type_synonym callback = "nat \<times> bool \<times> completion"

definition run_callback :: "callback \<Rightarrow> usb_session \<Rightarrow> usb_session \<times> bool" where
  "run_callback cb s =
     (case cb of (i, panics, c) \<Rightarrow>
        transfer_callback (if panics then None else Some (handle_transfer_callback c i s)) i s)"

subsection \<open>Polling and stopping\<close>

definition deliver :: "callback list \<Rightarrow> usb_session \<Rightarrow> usb_session" where
  "deliver cbs s = foldl (\<lambda>s cb. fst (run_callback cb s)) s cbs"

text \<open>\<open>poll\<close>: the callbacks that \<open>handle_events\<close> ran, and its result.\<close>

definition session_poll ::
  "callback list \<Rightarrow> usb_error + unit \<Rightarrow> usb_session
   \<Rightarrow> (usb_transport_error + session_event list) \<times> usb_session" where
  "session_poll cbs result s =
     (let s = deliver cbs s
      in case result of
           Inl e \<Rightarrow> (Inl (EventHandling e), s)
         | Inr _ \<Rightarrow> (Inr (ses_events s), s\<lparr>ses_events := []\<rparr>))"

definition submitted_slots :: "usb_session \<Rightarrow> nat list" where
  "submitted_slots s = filter (\<lambda>i. slot_submitted (slots s ! i)) [0..<length (slots s)]"

text \<open>
  The reaping loop of \<open>stop\<close> over the batches of callbacks that successive
  \<open>handle_events\<close> calls run (their errors are only logged); \<open>None\<close>: still waiting.
\<close>

fun reap :: "callback list list \<Rightarrow> usb_session \<Rightarrow> usb_session option" where
  "reap batches s =
     (if submitted_slots s = [] then Some s
      else case batches of [] \<Rightarrow> None | b # bs \<Rightarrow> reap bs (deliver b s))"

declare reap.simps [simp del]

text \<open>
  \<open>stop\<close> up to its loop: the flags, and the slots whose transfers it cancels.
\<close>

definition stop_begin :: "usb_session \<Rightarrow> usb_session \<times> nat list" where
  "stop_begin s = (let s = s\<lparr>stopped := True, running := False\<rparr> in (s, submitted_slots s))"

text \<open>
  The rest of \<open>stop\<close>: the loop, then the slots whose transfers it frees. The interface is
  reset and released between the two.
\<close>

definition stop_finish :: "callback list list \<Rightarrow> usb_session \<Rightarrow> (usb_session \<times> nat list) option" where
  "stop_finish batches s =
     (case reap batches s of
        None \<Rightarrow> None
      | Some s \<Rightarrow> Some (s\<lparr>slots := []\<rparr>, [0..<length (slots s)]))"

text \<open>
  \<open>stop\<close>: the new state, the slots whose transfers it cancelled, and those whose transfers
  it freed.
\<close>

definition session_stop ::
  "callback list list \<Rightarrow> usb_session \<Rightarrow> (usb_session \<times> nat list \<times> nat list) option" where
  "session_stop batches s =
     (if stopped s then Some (s, [], [])
      else
        case stop_begin s of (s, cancelled) \<Rightarrow>
          (case stop_finish batches s of
             None \<Rightarrow> None
           | Some (s, freed') \<Rightarrow> Some (s, cancelled, freed')))"

lemma session_stop_eq:
  "\<not> stopped s \<Longrightarrow> session_stop batches s =
     (case reap batches (s\<lparr>stopped := True, running := False\<rparr>) of
        None \<Rightarrow> None
      | Some t \<Rightarrow> Some (t\<lparr>slots := []\<rparr>, submitted_slots (s\<lparr>stopped := True, running := False\<rparr>), [0..<length (slots t)]))"
  by (simp add: session_stop_def stop_begin_def stop_finish_def Let_def split: option.split)

subsection \<open>The session together with libusb\<close>

text \<open>
  The world of a session: libusb's set of transfers in flight, the transfers freed so far,
  and the events the client has received.
\<close>

record usb_world =
  session :: usb_session
  in_flight :: "nat set"
  freed :: "nat list"
  received :: "session_event list"

definition world_initial :: "usb_session \<Rightarrow> usb_world" where
  "world_initial s =
     \<lparr>session = s, in_flight = set (submitted_slots s), freed = [], received = []\<rparr>"

text \<open>
  What libusb does: it may run the callback of a transfer in flight, on a buffer of the slot's size; a transfer
  that its callback does not submit again is in flight no longer. Run in order, the callbacks of a list give
  a new state and the transfers still in flight, or \<open>None\<close> when libusb could not have run them.
\<close>

definition deliverable :: "callback \<Rightarrow> usb_session \<Rightarrow> nat set \<Rightarrow> bool" where
  "deliverable cb s flight \<longleftrightarrow>
     fst cb \<in> flight \<and> length (cb_buffer (snd (snd cb))) = slot_buffer_size (slots s ! fst cb)"

fun libusb_runs :: "callback list \<Rightarrow> usb_session \<Rightarrow> nat set \<Rightarrow> (usb_session \<times> nat set) option" where
  "libusb_runs [] s flight = Some (s, flight)"
| "libusb_runs (cb # cbs) s flight =
     (if deliverable cb s flight
      then case run_callback cb s of (s, again) \<Rightarrow>
        libusb_runs cbs s (if again then flight else flight - {fst cb})
      else None)"

text \<open>
  The order of the ways the world changes is up to libusb and to the client. The client's steps are the code's:
  a drain is the second half of \<open>poll\<close>; \<open>stop\<close> begins once and then finishes, by \<open>stop_finish\<close>, with the
  callbacks that libusb runs meanwhile: \<open>batches\<close> lists those of each \<open>handle_events\<close> call of its loop,
  so that no fewer calls let it return. When the code frees transfers, libusb's set of transfers in flight is what its
  own callbacks have left of it.
\<close>

inductive usb_world_step :: "usb_world \<Rightarrow> usb_world \<Rightarrow> bool" where
  complete: "deliverable cb (session w) (in_flight w) \<Longrightarrow> run_callback cb (session w) = (s, again) \<Longrightarrow>
    usb_world_step w (w\<lparr>session := s,
      in_flight := (if again then in_flight w else in_flight w - {fst cb})\<rparr>)"
| drain: "usb_world_step w (w\<lparr>session := (session w)\<lparr>ses_events := []\<rparr>,
      received := received w @ ses_events (session w)\<rparr>)"
| stop: "\<not> stopped (session w) \<Longrightarrow> usb_world_step w (w\<lparr>session := fst (stop_begin (session w))\<rparr>)"
| finish: "stopped (session w) \<Longrightarrow> stop_finish batches (session w) = Some (s, freed') \<Longrightarrow>
    (\<And>n. n < length batches \<Longrightarrow> stop_finish (take n batches) (session w) = None) \<Longrightarrow>
    libusb_runs (concat batches) (session w) (in_flight w) = Some (s', flight) \<Longrightarrow>
    usb_world_step w (w\<lparr>session := s, in_flight := flight, freed := freed w @ freed'\<rparr>)"

inductive usb_world_reachable :: "usb_world \<Rightarrow> bool" where
  opened: "allocate_and_submit alloc submit session_initial = (r, s) \<Longrightarrow>
    usb_world_reachable (world_initial s)"
| step: "usb_world_reachable w \<Longrightarrow> usb_world_step w w' \<Longrightarrow> usb_world_reachable w'"

definition history :: "usb_world \<Rightarrow> session_event list" where
  "history w = received w @ ses_events (session w)"

subsection \<open>What a callback changes\<close>

lemma send_event_simps [simp]:
  "slots (send_event e s) = slots s" "running (send_event e s) = running s"
  "stopped (send_event e s) = stopped s" "ses_stats (send_event e s) = ses_stats s"
  "ses_events (send_event e s) = ses_events s @ [e]"
  by (simp_all add: send_event_def)

lemma set_submitted_simps [simp]:
  "running (set_submitted i b s) = running s" "stopped (set_submitted i b s) = stopped s"
  "ses_stats (set_submitted i b s) = ses_stats s" "ses_events (set_submitted i b s) = ses_events s"
  "length (slots (set_submitted i b s)) = length (slots s)"
  by (simp_all add: set_submitted_def)

lemma count_simps [simp]:
  "slots (count_packet s) = slots s" "slots (count_packet_error s) = slots s"
  "slots (count_nonempty n s) = slots s" "slots (count_transfer_error s) = slots s"
  "running (count_packet s) = running s" "running (count_packet_error s) = running s"
  "running (count_nonempty n s) = running s" "running (count_transfer_error s) = running s"
  "stopped (count_packet s) = stopped s" "stopped (count_packet_error s) = stopped s"
  "stopped (count_nonempty n s) = stopped s" "stopped (count_transfer_error s) = stopped s"
  "ses_events (count_packet s) = ses_events s" "ses_events (count_packet_error s) = ses_events s"
  "ses_events (count_nonempty n s) = ses_events s" "ses_events (count_transfer_error s) = ses_events s"
  by (simp_all add: count_packet_def count_packet_error_def count_nonempty_def count_transfer_error_def)

lemma submitted_slots_set: "set (submitted_slots s) = {i. i < length (slots s) \<and> slot_submitted (slots s ! i)}"
  by (auto simp: submitted_slots_def)

lemma submitted_slots_set_submitted:
  "i < length (slots s) \<Longrightarrow> set (submitted_slots (set_submitted i b s)) =
     (if b then insert i (set (submitted_slots s)) else set (submitted_slots s) - {i})"
  by (auto simp: submitted_slots_set set_submitted_def nth_list_update)

lemma submitted_slots_cong: "slots s = slots t \<Longrightarrow> submitted_slots s = submitted_slots t"
  by (simp add: submitted_slots_def)

lemma record_completion_slots [simp]:
  "slots (record_completion c i s) = slots s" "stopped (record_completion c i s) = stopped s"
  by (simp_all add: record_completion_def Let_def)

lemma record_completion_running: "running (record_completion c i s) \<Longrightarrow> running s"
  by (auto simp: record_completion_def Let_def split: if_splits)

text \<open>
  A callback appends at most two events; it submits again only while the session runs, and
  otherwise marks its slot as no longer submitted; it stops the session exactly when it sends
  an event that ends it.
\<close>

lemma run_callback_slots:
  assumes "run_callback (i, p, c) s = (s', again)" and "i < length (slots s)"
  shows "again \<Longrightarrow> slots s' = slots s \<and> running s \<and> running s'"
    and "\<not> again \<Longrightarrow> slots s' = slots (set_submitted i False s)"
    and "stopped s' = stopped s"
  using assms record_completion_running [of c i s]
  by (auto simp: run_callback_def transfer_callback_def handle_transfer_callback_def Let_def
      set_submitted_def split: if_splits)

text \<open>The statistics that a list of events accounts for, apart from the packet count.\<close>

primrec count_event :: "session_event \<Rightarrow> session_stats \<Rightarrow> session_stats" where
  "count_event (Packet ep data t) st =
     st\<lparr>st_nonempty_packets := st_nonempty_packets st + 1, st_bytes := st_bytes st + of_nat (length data)\<rparr>"
| "count_event (PacketError ep e) st = st\<lparr>st_packet_errors := st_packet_errors st + 1\<rparr>"
| "count_event (TransferFailed ep e) st = st\<lparr>st_transfer_errors := st_transfer_errors st + 1\<rparr>"
| "count_event (SubmitFailed ep e) st = st"
| "count_event CallbackPanicked st = st"

definition packet_limit :: "endpoint \<Rightarrow> nat" where
  "packet_limit ep = (case ep of Boundary \<Rightarrow> BOUNDARY_PACKET_SIZE | Video \<Rightarrow> VIDEO_PACKET_SIZE)"

fun event_ok :: "session_event \<Rightarrow> bool" where
  "event_ok (Packet ep data t) \<longleftrightarrow> 0 < length data \<and> length data \<le> packet_limit ep"
| "event_ok e \<longleftrightarrow> True"

definition slots_ok :: "usb_session \<Rightarrow> bool" where
  "slots_ok s \<longleftrightarrow> (\<forall>slot \<in> set (slots s). slot_buffer_size slot = packet_limit (slot_endpoint slot))"

lemma slots_ok_cong: "slots s = slots t \<Longrightarrow> slots_ok s = slots_ok t"
  by (simp add: slots_ok_def)

lemma slots_ok_set_submitted:
  "i < length (slots s) \<Longrightarrow> slots_ok s \<Longrightarrow> slots_ok (set_submitted i b s)"
  by (auto simp: slots_ok_def set_submitted_def dest!: set_update_subset_insert [THEN subsetD])

lemma run_callback_events:
  assumes "run_callback (i, p, c) s = (s', again)"
    and "length (cb_buffer c) = slot_buffer_size (slots s ! i)"
    and "slot_buffer_size (slots s ! i) = packet_limit (slot_endpoint (slots s ! i))"
  shows "\<exists>es. ses_events s' = ses_events s @ es
    \<and> running s' = (running s \<and> \<not> list_ex ends_session es)
    \<and> (ses_stats s')\<lparr>st_packets := 0\<rparr> = fold count_event es ((ses_stats s)\<lparr>st_packets := 0\<rparr>)
    \<and> list_all event_ok es"
proof -
  have "\<exists>es. ses_events t = ses_events s @ es \<and> running t = (running s \<and> \<not> list_ex ends_session es)
    \<and> (ses_stats t)\<lparr>st_packets := 0\<rparr> = fold count_event es ((ses_stats s)\<lparr>st_packets := 0\<rparr>)
    \<and> list_all event_ok es" if t: "t = record_completion c i s" for t
    using assms(2,3) unfolding t record_completion_def
    by (auto simp: Let_def ends_session_def count_packet_def count_packet_error_def count_nonempty_def
        count_transfer_error_def send_event_def word_less_nat_alt min_def)
  then obtain es where es: "ses_events (record_completion c i s) = ses_events s @ es"
    "running (record_completion c i s) = (running s \<and> \<not> list_ex ends_session es)"
    "(ses_stats (record_completion c i s))\<lparr>st_packets := 0\<rparr> = fold count_event es ((ses_stats s)\<lparr>st_packets := 0\<rparr>)"
    "list_all event_ok es" by blast
  let ?e = "SubmitFailed (slot_endpoint (slots s ! i)) (cb_resubmit c)"
  consider "p" "s' = send_event CallbackPanicked (set_submitted i False (s\<lparr>running := False\<rparr>))"
    | (quiet) "ses_events s' = ses_events (record_completion c i s)" "ses_stats s' = ses_stats (record_completion c i s)"
        "running s' = running (record_completion c i s)"
    | (failed) "ses_events s' = ses_events (record_completion c i s) @ [?e]"
        "ses_stats s' = ses_stats (record_completion c i s)" "\<not> running s'"
    using assms(1)
    by (auto simp: run_callback_def transfer_callback_def handle_transfer_callback_def Let_def split: if_splits)
  then show ?thesis
  proof cases
    case 1
    then show ?thesis by (intro exI [of _ "[CallbackPanicked]"]) (simp add: ends_session_def)
  next
    case quiet
    with es show ?thesis by (intro exI [of _ es]) simp
  next
    case failed
    with es show ?thesis by (intro exI [of _ "es @ [?e]"]) (simp add: ends_session_def)
  qed
qed

subsection \<open>The invariant of the world\<close>

definition world_inv :: "usb_world \<Rightarrow> bool" where
  "world_inv w \<longleftrightarrow>
     slots_ok (session w)
     \<and> in_flight w = set (submitted_slots (session w))
     \<and> distinct (freed w) \<and> (freed w \<noteq> [] \<longrightarrow> stopped (session w) \<and> slots (session w) = [])
     \<and> (running (session w) \<longleftrightarrow> \<not> stopped (session w) \<and> \<not> list_ex ends_session (history w))
     \<and> (ses_stats (session w))\<lparr>st_packets := 0\<rparr> = fold count_event (history w) stats_default
     \<and> list_all event_ok (history w)"

lemma allocate_from_inv:
  "allocate_from alloc submit is s = (r, s') \<Longrightarrow> slots_ok s \<Longrightarrow>
   slots_ok s' \<and> ses_events s' = ses_events s \<and> running s' = running s \<and> stopped s' = stopped s
   \<and> ses_stats s' = ses_stats s"
proof (induction alloc submit "is" s arbitrary: r s' rule: allocate_from.induct)
  case (2 alloc submit i "is" s)
  let ?t = "s\<lparr>slots := slots s @ [\<lparr>slot_endpoint = (if i mod 2 = 0 then Boundary else Video),
    slot_buffer_size = packet_limit (if i mod 2 = 0 then Boundary else Video), slot_submitted = False\<rparr>]\<rparr>"
  have ok: "slots_ok ?t" using 2(3) by (auto simp: slots_ok_def)
  have ok': "slots_ok (set_submitted (length (slots s)) True ?t)"
    using 2(3) by (auto simp: slots_ok_def set_submitted_def list_update_append)
  show ?case
    using 2(1) [OF refl refl _ refl refl refl] 2(2,3) ok ok'
    by (auto simp: Let_def packet_limit_def split: if_splits)
qed simp

lemma world_inv_initial:
  assumes "allocate_and_submit alloc submit session_initial = (r, s)"
  shows "world_inv (world_initial s)"
proof -
  have "slots_ok session_initial" by (simp add: slots_ok_def session_initial_def)
  with assms have "slots_ok s \<and> ses_events s = [] \<and> running s \<and> \<not> stopped s \<and> ses_stats s = stats_default"
    using allocate_from_inv [of alloc submit "[0..<TRANSFERS_PER_ENDPOINT * 2]" session_initial r s]
    by (simp add: allocate_and_submit_def session_initial_def)
  then show ?thesis
    by (simp add: world_inv_def world_initial_def history_def stats_default_def)
qed

lemma callback_in_world:
  assumes "world_inv w" and "deliverable (i, p, c) (session w) (in_flight w)"
    and "run_callback (i, p, c) (session w) = (s, again)"
  shows "i < length (slots (session w))
    \<and> (\<exists>es. ses_events s = ses_events (session w) @ es
        \<and> running s = (running (session w) \<and> \<not> list_ex ends_session es)
        \<and> (ses_stats s)\<lparr>st_packets := 0\<rparr> = fold count_event es ((ses_stats (session w))\<lparr>st_packets := 0\<rparr>)
        \<and> list_all event_ok es)"
proof
  show i: "i < length (slots (session w))"
    using assms(1,2) by (simp add: world_inv_def submitted_slots_set deliverable_def)
  then have "slot_buffer_size (slots (session w) ! i) = packet_limit (slot_endpoint (slots (session w) ! i))"
    using assms(1) by (simp add: world_inv_def slots_ok_def)
  from run_callback_events [OF assms(3) _ this] assms(2)
  show "\<exists>es. ses_events s = ses_events (session w) @ es
        \<and> running s = (running (session w) \<and> \<not> list_ex ends_session es)
        \<and> (ses_stats s)\<lparr>st_packets := 0\<rparr> = fold count_event es ((ses_stats (session w))\<lparr>st_packets := 0\<rparr>)
        \<and> list_all event_ok es" by (simp add: deliverable_def)
qed

lemma world_inv_callback:
  assumes inv: "world_inv w" and deliv: "deliverable cb (session w) (in_flight w)"
    and run: "run_callback cb (session w) = (s, again)"
  shows "world_inv (w\<lparr>session := s, in_flight := (if again then in_flight w else in_flight w - {fst cb})\<rparr>)"
    (is "world_inv ?w")
proof -
  obtain i p c where cb: "cb = (i, p, c)" by (cases cb)
  note run = run [unfolded cb]
  from callback_in_world [OF inv deliv [unfolded cb] run]
  obtain es where i: "i < length (slots (session w))" and es: "ses_events s = ses_events (session w) @ es"
    "running s = (running (session w) \<and> \<not> list_ex ends_session es)"
    "(ses_stats s)\<lparr>st_packets := 0\<rparr> = fold count_event es ((ses_stats (session w))\<lparr>st_packets := 0\<rparr>)"
    "list_all event_ok es" by blast
  note slots = run_callback_slots [OF run i]
  have old: "in_flight w = set (submitted_slots (session w))" using inv by (simp add: world_inv_def)
  have flight: "in_flight ?w = set (submitted_slots s)"
  proof (cases again)
    case True
    with slots have "submitted_slots s = submitted_slots (session w)" by (blast intro: submitted_slots_cong)
    with True old show ?thesis by simp
  next
    case False
    with slots have "submitted_slots s = submitted_slots (set_submitted i False (session w))"
      by (blast intro: submitted_slots_cong)
    with False old show ?thesis by (simp add: cb submitted_slots_set_submitted [OF i])
  qed
  have "slots_ok (session w)" using inv by (simp add: world_inv_def)
  then have ok: "slots_ok s"
    using slots slots_ok_set_submitted [OF i] slots_ok_cong by (metis (full_types))
  have hist: "history ?w = history w @ es" by (simp add: history_def es)
  have freed: "freed w = []" using i inv by (auto simp: world_inv_def)
  show ?thesis using inv es flight ok hist freed slots(3) by (simp add: world_inv_def)
qed

text \<open>A run of libusb is a run of single callbacks, and gives the state that \<open>deliver\<close> gives.\<close>

lemma libusb_runs_inv:
  "libusb_runs cbs (session w) (in_flight w) = Some (s, flight) \<Longrightarrow> world_inv w \<Longrightarrow>
   world_inv (w\<lparr>session := s, in_flight := flight\<rparr>) \<and> s = deliver cbs (session w)"
proof (induction cbs arbitrary: w)
  case Nil
  then have "s = session w" "flight = in_flight w" by simp_all
  with Nil.prems(2) show ?case by (cases w) (simp add: deliver_def)
next
  case (Cons cb cbs)
  obtain t again where run: "run_callback cb (session w) = (t, again)" by fastforce
  have deliv: "deliverable cb (session w) (in_flight w)"
    using Cons.prems(1) by (simp split: if_splits)
  let ?w = "w\<lparr>session := t, in_flight := (if again then in_flight w else in_flight w - {fst cb})\<rparr>"
  have "libusb_runs cbs (session ?w) (in_flight ?w) = Some (s, flight)"
    using Cons.prems(1) run deliv by simp
  from Cons.IH [OF this world_inv_callback [OF Cons.prems(2) deliv run]] run
  show ?case by (auto simp: deliver_def)
qed

lemma deliver_stopped [simp]: "stopped (deliver cbs s) = stopped s"
proof -
  have "stopped (fst (run_callback cb s)) = stopped s" for cb s
    by (cases cb) (simp add: run_callback_def transfer_callback_def handle_transfer_callback_def Let_def)
  then show ?thesis by (induction cbs arbitrary: s) (simp_all add: deliver_def)
qed

lemma reap_all:
  "reap batches s = Some t \<Longrightarrow> (\<And>n. n < length batches \<Longrightarrow> reap (take n batches) s = None) \<Longrightarrow>
   t = deliver (concat batches) s \<and> submitted_slots t = []"
proof (induction batches arbitrary: s)
  case Nil
  then show ?case by (simp add: reap.simps [of "[]" s] deliver_def split: if_splits)
next
  case (Cons b bs)
  have "reap [] s = None" using Cons.prems(2) [of 0] by simp
  then have waits: "submitted_slots s \<noteq> []" by (simp add: reap.simps [of "[]" s] split: if_splits)
  then have "reap bs (deliver b s) = Some t" using Cons.prems(1) by (simp add: reap.simps [of "b # bs" s])
  moreover have "reap (take n bs) (deliver b s) = None" if "n < length bs" for n
    using Cons.prems(2) [of "Suc n"] that waits by (simp add: reap.simps [of "b # take n bs" s])
  ultimately have "t = deliver (concat bs) (deliver b s) \<and> submitted_slots t = []"
    by (rule Cons.IH)
  then show ?case unfolding deliver_def by (metis concat.simps(2) foldl_append)
qed

text \<open>The steps that finish \<open>stop\<close>: every transfer has left libusb before the first is freed.\<close>

lemma stop_finish_inv:
  assumes inv: "world_inv w" and stopped: "stopped (session w)"
    and fin: "stop_finish batches (session w) = Some (s, freed')"
    and first: "\<And>n. n < length batches \<Longrightarrow> stop_finish (take n batches) (session w) = None"
    and runs: "libusb_runs (concat batches) (session w) (in_flight w) = Some (s', flight)"
  shows "flight = {} \<and> s = s'\<lparr>slots := []\<rparr> \<and> freed' = [0..<length (slots s')] \<and> stopped s'
    \<and> world_inv (w\<lparr>session := s, in_flight := flight, freed := freed w @ freed'\<rparr>)"
proof -
  obtain t where t: "reap batches (session w) = Some t" "s = t\<lparr>slots := []\<rparr>" "freed' = [0..<length (slots t)]"
    using fin by (auto simp: stop_finish_def split: option.splits)
  have "reap (take n batches) (session w) = None" if "n < length batches" for n
    using first [OF that] by (auto simp: stop_finish_def split: option.splits)
  note all = reap_all [OF t(1) this]
  note inv' = libusb_runs_inv [OF runs inv]
  have same: "s' = t" and idle: "submitted_slots s' = []" using all inv' by auto
  have flight: "flight = {}" using inv' idle by (simp add: world_inv_def)
  have old: "freed w \<noteq> [] \<longrightarrow> slots (session w) = []" "distinct (freed w)" using inv by (auto simp: world_inv_def)
  have "stopped s'" using inv' stopped by simp
  have new: "freed w \<noteq> [] \<longrightarrow> slots s' = []" using inv' by (auto simp: world_inv_def)
  have "world_inv (w\<lparr>session := s, in_flight := flight, freed := freed w @ freed'\<rparr>)"
    using inv' new flight \<open>stopped s'\<close> t(2,3) same
    by (auto simp: world_inv_def history_def slots_ok_def submitted_slots_def)
  then show ?thesis using flight t same \<open>stopped s'\<close> by simp
qed

text \<open>A session that no longer runs submits nothing.\<close>

lemma callback_silent:
  assumes "world_inv w" and "\<not> running (session w)" and "fst cb \<in> in_flight w"
    and "run_callback cb (session w) = (s, again)"
  shows "\<not> again \<and> \<not> running s"
proof -
  obtain i p c where cb: "cb = (i, p, c)" by (cases cb)
  have "i < length (slots (session w))"
    using assms(1,3) cb by (auto simp: world_inv_def submitted_slots_set)
  with run_callback_slots(1) [of i p c "session w" s again] assms(2,4) cb have "\<not> again" by blast
  moreover have "\<not> running s"
    using assms(2,4) record_completion_running [of c i "session w"]
    by (auto simp: cb run_callback_def transfer_callback_def handle_transfer_callback_def Let_def split: if_splits)
  ultimately show ?thesis by blast
qed

lemma libusb_runs_silent:
  "libusb_runs cbs (session w) (in_flight w) = Some (s, flight) \<Longrightarrow> world_inv w \<Longrightarrow> \<not> running (session w) \<Longrightarrow>
   flight \<subseteq> in_flight w \<and> \<not> running s"
proof (induction cbs arbitrary: w)
  case (Cons cb cbs)
  obtain t again where run: "run_callback cb (session w) = (t, again)" by fastforce
  have deliv: "deliverable cb (session w) (in_flight w)"
    using Cons.prems(1) by (simp split: if_splits)
  then have quiet: "\<not> again" "\<not> running t"
    using callback_silent [OF Cons.prems(2,3) _ run] by (auto simp: deliverable_def)
  let ?w = "w\<lparr>session := t, in_flight := (if again then in_flight w else in_flight w - {fst cb})\<rparr>"
  have "libusb_runs cbs (session ?w) (in_flight ?w) = Some (s, flight)"
    using Cons.prems(1) run deliv by simp
  from Cons.IH [OF this world_inv_callback [OF Cons.prems(2) deliv run]] quiet
  show ?case by auto
qed simp

lemma world_inv_step:
  assumes "usb_world_step w w'" and "world_inv w"
  shows "world_inv w'"
  using assms
proof (cases rule: usb_world_step.cases)
  case (complete cb s again)
  then show ?thesis using world_inv_callback [OF assms(2)] by simp
next
  case drain
  then show ?thesis using assms(2) by (simp add: world_inv_def history_def slots_ok_def submitted_slots_def)
next
  case stop
  then show ?thesis
    using assms(2) by (auto simp: world_inv_def history_def slots_ok_def submitted_slots_def stop_begin_def Let_def)
next
  case (finish batches s freed' s' flight)
  then show ?thesis using stop_finish_inv [OF assms(2)] by blast
qed

lemma world_reachable_inv: "usb_world_reachable w \<Longrightarrow> world_inv w"
  by (induction rule: usb_world_reachable.induct) (auto intro: world_inv_initial world_inv_step)

subsection \<open>Properties\<close>

text \<open>
  Property C3. Transfers are never freed while libusb may still use them: in every world that
  opening, callbacks in any order, polling and stopping can reach, the slots marked as
  submitted are exactly libusb's transfers in flight, no transfer is freed twice, and once
  transfers have been freed none is in flight: \<open>stop\<close> frees them after the loop that reaps
  the cancelled ones, and which ones libusb still has is what its own callbacks have left.
\<close>
theorem usb_transfers_safe:
  assumes "usb_world_reachable w"
  shows "in_flight w = {i. i < length (slots (session w)) \<and> slot_submitted (slots (session w) ! i)}
    \<and> distinct (freed w) \<and> (freed w \<noteq> [] \<longrightarrow> in_flight w = {})"
  using world_reachable_inv [OF assms] by (auto simp: world_inv_def submitted_slots_set)

text \<open>
  Property C4. Nothing is submitted after the session has ended: from a reachable world that
  no longer runs, no step adds a transfer to those in flight, and each callback removes its
  own; and the session runs exactly as long as it is not stopped and no event that ends it
  has been sent.
\<close>
theorem usb_no_submission_after_end:
  assumes "usb_world_reachable w" and "usb_world_step w w'"
  shows "(running (session w) \<longleftrightarrow> \<not> stopped (session w) \<and> \<not> list_ex ends_session (history w))
    \<and> (\<not> running (session w) \<longrightarrow> in_flight w' \<subseteq> in_flight w \<and> \<not> running (session w')
        \<and> (\<forall>cb. fst cb \<in> in_flight w \<longrightarrow> \<not> snd (run_callback cb (session w))))"
proof -
  have inv: "world_inv w" by (rule world_reachable_inv [OF assms(1)])
  have "in_flight w' \<subseteq> in_flight w \<and> \<not> running (session w')" if stop: "\<not> running (session w)"
    using assms(2)
  proof (cases rule: usb_world_step.cases)
    case (complete cb s again)
    with callback_silent [OF inv stop _ complete(3)] show ?thesis by (auto simp: deliverable_def)
  next
    case (finish batches s freed' s' flight)
    then show ?thesis
      using stop_finish_inv [OF inv finish(2-5)] libusb_runs_silent [OF finish(5) inv stop] by simp
  qed (use stop in \<open>auto simp: stop_begin_def Let_def\<close>)
  moreover have "\<not> snd (run_callback cb (session w))" if "\<not> running (session w)" "fst cb \<in> in_flight w" for cb
    using callback_silent [OF inv that] by (cases "run_callback cb (session w)") auto
  ultimately show ?thesis using inv by (auto simp: world_inv_def)
qed

text \<open>
  Property C18. The statistics are exact (modulo 64 bits): in every reachable world the
  counters of data packets, bytes and errors are those of the events sent so far; every
  packet event carries at least one byte and at most what its endpoint's transfer can hold.
\<close>
theorem usb_statistics_exact:
  assumes "usb_world_reachable w"
  shows "(ses_stats (session w))\<lparr>st_packets := 0\<rparr> = fold count_event (history w) stats_default
    \<and> (\<forall>ep data t. Packet ep data t \<in> set (history w) \<longrightarrow>
        0 < length data \<and> length data \<le> (case ep of Boundary \<Rightarrow> 8 | Video \<Rightarrow> 768))"
proof -
  have inv: "world_inv w" by (rule world_reachable_inv [OF assms])
  have "event_ok (Packet ep data t)" if "Packet ep data t \<in> set (history w)" for ep data t
    using inv that unfolding world_inv_def list_all_iff by blast
  then have "0 < length data \<and> length data \<le> packet_limit ep" if "Packet ep data t \<in> set (history w)" for ep data t
    using that by fastforce
  moreover have "packet_limit ep = (case ep of Boundary \<Rightarrow> 8 | Video \<Rightarrow> 768)" for ep
    by (cases ep) (simp_all add: packet_limit_def BOUNDARY_PACKET_SIZE_def VIDEO_PACKET_SIZE_def)
  ultimately show ?thesis using inv unfolding world_inv_def by metis
qed

subsection \<open>Stopping\<close>

lemma deliver_not_running:
  "\<not> running s \<Longrightarrow> \<forall>cb \<in> set cbs. fst cb < length (slots s) \<Longrightarrow>
   set (submitted_slots (deliver cbs s)) = set (submitted_slots s) - fst ` set cbs
   \<and> length (slots (deliver cbs s)) = length (slots s) \<and> \<not> running (deliver cbs s)
   \<and> stopped (deliver cbs s) = stopped s"
proof (induction cbs arbitrary: s)
  case Nil
  then show ?case by (simp add: deliver_def)
next
  case (Cons cb cbs)
  obtain i p c where cb: "cb = (i, p, c)" by (cases cb)
  obtain s' again where run: "run_callback (i, p, c) s = (s', again)" by fastforce
  have i: "i < length (slots s)" using Cons.prems(2) cb by simp
  note slots = run_callback_slots [OF run i]
  have again: "\<not> again" using slots(1) Cons.prems(1) by blast
  have stop: "\<not> running s'"
    using run Cons.prems(1) record_completion_running [of c i s]
    by (auto simp: run_callback_def transfer_callback_def handle_transfer_callback_def Let_def split: if_splits)
  have "submitted_slots s' = submitted_slots (set_submitted i False s)" "length (slots s') = length (slots s)"
    using slots(2) [OF again] by (auto intro: submitted_slots_cong)
  then show ?case
    using Cons.IH [OF stop] Cons.prems(2) slots(3) run cb
    by (auto simp: deliver_def submitted_slots_set_submitted [OF i])
qed

lemma reap_returns:
  "\<not> running s \<Longrightarrow> \<forall>cb \<in> set (concat batches). fst cb < length (slots s) \<Longrightarrow>
   set (submitted_slots s) \<subseteq> fst ` set (concat batches) \<Longrightarrow>
   \<exists>s'. reap batches s = Some s' \<and> submitted_slots s' = [] \<and> length (slots s') = length (slots s)
     \<and> stopped s' = stopped s \<and> \<not> running s'"
proof (induction batches arbitrary: s)
  case Nil
  then show ?case by (subst reap.simps) simp
next
  case (Cons b bs)
  show ?case
  proof (cases "submitted_slots s = []")
    case True
    with Cons.prems show ?thesis by (subst reap.simps) simp
  next
    case False
    have d: "set (submitted_slots (deliver b s)) = set (submitted_slots s) - fst ` set b"
      "length (slots (deliver b s)) = length (slots s)" "\<not> running (deliver b s)" "stopped (deliver b s) = stopped s"
      using deliver_not_running [of s b] Cons.prems by auto
    have split: "set (concat (b # bs)) = set b \<union> set (concat bs)"
      "fst ` set (concat (b # bs)) = fst ` set b \<union> fst ` set (concat bs)"
      by (simp_all only: concat.simps set_append image_Un)
    have covered: "set (submitted_slots (deliver b s)) \<subseteq> fst ` set (concat bs)"
      using Cons.prems(3) d(1) unfolding split by blast
    have valid: "\<forall>cb \<in> set (concat bs). fst cb < length (slots (deliver b s))"
      using Cons.prems(2) d(2) unfolding split by simp
    have "\<exists>s'. reap bs (deliver b s) = Some s' \<and> submitted_slots s' = [] \<and> length (slots s') = length (slots (deliver b s))
       \<and> stopped s' = stopped (deliver b s) \<and> \<not> running s'"
      by (rule Cons.IH [OF d(3) valid covered])
    with False d show ?thesis by (subst reap.simps) simp
  qed
qed

text \<open>
  Property C5. Stopping ends: once libusb has run a callback for every transfer in flight,
  in any grouping and order, \<open>stop\<close> returns; it has cancelled exactly the transfers in
  flight and freed each transfer once, the session no longer runs, and stopping again does
  nothing.
\<close>
theorem session_stop_completes:
  assumes "\<not> stopped s"
    and "\<forall>cb \<in> set (concat batches). fst cb < length (slots s)"
    and "set (submitted_slots s) \<subseteq> fst ` set (concat batches)"
  shows "\<exists>s'. session_stop batches s = Some (s', submitted_slots s, [0..<length (slots s)])
    \<and> slots s' = [] \<and> stopped s' \<and> \<not> running s' \<and> session_stop batches' s' = Some (s', [], [])"
proof -
  let ?t = "s\<lparr>stopped := True, running := False\<rparr>"
  have t: "submitted_slots ?t = submitted_slots s" by (simp add: submitted_slots_def)
  obtain s' where "reap batches ?t = Some s'" "length (slots s') = length (slots s)" "stopped s'" "\<not> running s'"
    using reap_returns [of ?t batches] assms(2,3) t by auto
  with assms(1) t show ?thesis by (simp add: session_stop_eq) (simp add: session_stop_def)
qed

text \<open>A sample session of two slots, and a run of it.\<close>

definition sample_completion :: completion where
  "sample_completion =
     \<lparr>cb_status = 0, cb_packet_status = 0, cb_actual_length = 2, cb_buffer = [8, 1, 0, 0, 0, 0, 0, 0],
      cb_received_at = 5, cb_resubmit = 0\<rparr>"

definition sample_opened :: usb_session where
  "sample_opened = snd (allocate_and_submit (\<lambda>i. i < 2) (\<lambda>i. 0) session_initial)"

lemma sample_opened_eq:
  "sample_opened = session_initial\<lparr>slots :=
     [\<lparr>slot_endpoint = Boundary, slot_buffer_size = 8, slot_submitted = True\<rparr>,
      \<lparr>slot_endpoint = Video, slot_buffer_size = 768, slot_submitted = True\<rparr>]\<rparr>"
  by (simp add: sample_opened_def allocate_and_submit_def TRANSFERS_PER_ENDPOINT_def upt_conv_Cons
      session_initial_def set_submitted_def BOUNDARY_PACKET_SIZE_def VIDEO_PACKET_SIZE_def)

definition sample_polled :: usb_world where
  "sample_polled = (world_initial sample_opened)
     \<lparr>session := fst (run_callback (0, False, sample_completion) sample_opened)\<rparr>"

lemma sample_polled_reachable: "usb_world_reachable sample_polled"
proof (rule usb_world_reachable.step)
  show "usb_world_reachable (world_initial sample_opened)"
    by (rule usb_world_reachable.opened [of "\<lambda>i. i < 2" "\<lambda>i. 0" "fst (allocate_and_submit (\<lambda>i. i < 2) (\<lambda>i. 0) session_initial)"])
      (simp add: sample_opened_def)
  have run: "run_callback (0, False, sample_completion) sample_opened
      = (fst (run_callback (0, False, sample_completion) sample_opened), True)"
    by (simp add: sample_opened_eq sample_completion_def run_callback_def transfer_callback_def
        handle_transfer_callback_def record_completion_def session_initial_def
        LIBUSB_TRANSFER_COMPLETED_def count_packet_def count_nonempty_def send_event_def)
  show "usb_world_step (world_initial sample_opened) sample_polled"
    using usb_world_step.complete [of "(0, False, sample_completion)" "world_initial sample_opened"
        "fst (run_callback (0, False, sample_completion) sample_opened)" True] run
    by (simp add: sample_polled_def world_initial_def sample_opened_eq submitted_slots_set sample_completion_def deliverable_def)
qed

lemma sample_polled_history: "history sample_polled = [Packet Boundary [8, 1] 5]"
  by (simp add: sample_polled_def history_def world_initial_def sample_opened_eq sample_completion_def
      run_callback_def transfer_callback_def handle_transfer_callback_def record_completion_def session_initial_def
      LIBUSB_TRANSFER_COMPLETED_def count_packet_def count_nonempty_def send_event_def)

text \<open>The sample session stopped: libusb cancels both transfers while the loop waits.\<close>

definition cancelled_completion :: "nat \<Rightarrow> completion" where
  "cancelled_completion n =
     \<lparr>cb_status = LIBUSB_TRANSFER_CANCELLED, cb_packet_status = 0, cb_actual_length = 0, cb_buffer = replicate n 0,
      cb_received_at = 9, cb_resubmit = 0\<rparr>"

definition sample_stop_batches :: "callback list list" where
  "sample_stop_batches = [[(0, False, cancelled_completion 8), (1, False, cancelled_completion 768)]]"

definition sample_stopped :: usb_world where
  "sample_stopped =
     \<lparr>session = \<lparr>slots = [], ses_events = [], running = False, ses_stats = stats_default, stopped = True\<rparr>,
      in_flight = {}, freed = [0, 1], received = []\<rparr>"

lemma sample_cancelled:
  "length (slots s) = 2 \<Longrightarrow> \<not> running s \<Longrightarrow> i < 2 \<Longrightarrow>
     run_callback (i, False, cancelled_completion n) s = (set_submitted i False s, False)"
  by (simp add: run_callback_def transfer_callback_def handle_transfer_callback_def record_completion_def cancelled_completion_def
      LIBUSB_TRANSFER_CANCELLED_def LIBUSB_TRANSFER_COMPLETED_def Let_def)

definition sample_stopping :: "bool \<Rightarrow> bool \<Rightarrow> usb_session" where
  "sample_stopping a b =
     \<lparr>slots = [\<lparr>slot_endpoint = Boundary, slot_buffer_size = 8, slot_submitted = a\<rparr>,
        \<lparr>slot_endpoint = Video, slot_buffer_size = 768, slot_submitted = b\<rparr>],
      ses_events = [], running = False, ses_stats = stats_default, stopped = True\<rparr>"

lemma sample_stopping_simps [simp]:
  "running (sample_stopping a b) = False" "stopped (sample_stopping a b) = True"
  "length (slots (sample_stopping a b)) = 2" "ses_events (sample_stopping a b) = []"
  "set_submitted 0 c (sample_stopping a b) = sample_stopping c b"
  "set_submitted 1 c (sample_stopping a b) = sample_stopping a c"
  "slot_buffer_size (slots (sample_stopping a b) ! 0) = 8" "slot_buffer_size (slots (sample_stopping a b) ! 1) = 768"
  "submitted_slots (sample_stopping a b) = (if a then [0] else []) @ (if b then [1] else [])"
  "fst (stop_begin sample_opened) = sample_stopping True True"
  by (simp_all add: sample_stopping_def set_submitted_def submitted_slots_def stop_begin_def sample_opened_eq
      session_initial_def Let_def)

lemma sample_world:
  "session (world_initial sample_opened) = sample_opened" "\<not> stopped sample_opened"
  "in_flight (world_initial sample_opened) = {0, 1}" "freed (world_initial sample_opened) = []"
  "sample_stopped = (world_initial sample_opened)
     \<lparr>session := (sample_stopping True True)\<lparr>slots := []\<rparr>, in_flight := {}, freed := [0, 1]\<rparr>"
  by (simp_all add: world_initial_def sample_opened_eq session_initial_def submitted_slots_def sample_stopped_def
      sample_stopping_def insert_commute)

lemma sample_stop_steps:
  "usb_world_step (world_initial sample_opened) ((world_initial sample_opened)\<lparr>session := sample_stopping True True\<rparr>)"
  "usb_world_step ((world_initial sample_opened)\<lparr>session := sample_stopping True True\<rparr>) sample_stopped"
proof -
  show "usb_world_step (world_initial sample_opened) ((world_initial sample_opened)\<lparr>session := sample_stopping True True\<rparr>)"
    using usb_world_step.stop [of "world_initial sample_opened"] by (simp add: sample_world)
  let ?s = "sample_stopping True True"
  note run = sample_cancelled [of "sample_stopping a b" 0 for a b] sample_cancelled [of "sample_stopping a b" 1 for a b]
  have "[0..<2] = [0, 1 :: nat]" by (simp add: upt_conv_Cons)
  then have fin: "stop_finish sample_stop_batches ?s = Some (?s\<lparr>slots := []\<rparr>, [0, 1])"
    by (simp add: stop_finish_def reap.simps sample_stop_batches_def deliver_def run del: One_nat_def)
      (simp add: sample_stopping_def)
  have wait: "stop_finish (take n sample_stop_batches) ?s = None" if "n < length sample_stop_batches" for n
    using that by (simp add: stop_finish_def reap.simps sample_stop_batches_def)
  have buffer: "length (cb_buffer (cancelled_completion n)) = n" for n by (simp add: cancelled_completion_def)
  have runs: "libusb_runs (concat sample_stop_batches) ?s {0, 1} = Some (sample_stopping False False, {})"
    by (simp add: sample_stop_batches_def deliverable_def run buffer del: One_nat_def)
  show "usb_world_step ((world_initial sample_opened)\<lparr>session := ?s\<rparr>) sample_stopped"
    using usb_world_step.finish [of "(world_initial sample_opened)\<lparr>session := ?s\<rparr>" sample_stop_batches "?s\<lparr>slots := []\<rparr>" "[0, 1]"
        "sample_stopping False False" "{}"] fin wait runs
    by (simp add: sample_world)
qed

theorem usb_transfers_safe_witness:
  "in_flight sample_polled = {0, 1} \<and> distinct (freed sample_polled)
   \<and> freed sample_stopped = [0, 1] \<and> in_flight sample_stopped = {}"
proof (intro conjI)
  show "in_flight sample_polled = {0, 1}"
    by (auto simp: sample_polled_def world_initial_def sample_opened_eq submitted_slots_set less_Suc_eq)
  show "distinct (freed sample_polled)"
    using usb_transfers_safe [OF sample_polled_reachable] by blast
  show freed: "freed sample_stopped = [0, 1]" by (simp add: sample_stopped_def)
  have "usb_world_reachable (world_initial sample_opened)"
    by (rule usb_world_reachable.opened [of "\<lambda>i. i < 2" "\<lambda>i. 0" "fst (allocate_and_submit (\<lambda>i. i < 2) (\<lambda>i. 0) session_initial)"])
      (simp add: sample_opened_def)
  then have "usb_world_reachable sample_stopped"
    using sample_stop_steps usb_world_reachable.step by blast
  from usb_transfers_safe [OF this] freed show "in_flight sample_stopped = {}" by auto
qed

theorem usb_no_submission_after_end_witness:
  "running (session sample_polled) \<and> \<not> stopped (session sample_polled)"
proof -
  have step: "usb_world_step sample_polled (sample_polled\<lparr>session := (session sample_polled)\<lparr>ses_events := []\<rparr>,
      received := received sample_polled @ ses_events (session sample_polled)\<rparr>)"
    by (rule usb_world_step.drain)
  have "\<not> stopped (session sample_polled)"
    by (simp add: sample_polled_def sample_opened_eq sample_completion_def run_callback_def transfer_callback_def
        handle_transfer_callback_def record_completion_def session_initial_def
        LIBUSB_TRANSFER_COMPLETED_def count_packet_def count_nonempty_def send_event_def)
  with usb_no_submission_after_end [OF sample_polled_reachable step] sample_polled_history show ?thesis
    by (simp add: ends_session_def)
qed

theorem usb_statistics_exact_witness:
  "st_bytes (ses_stats (session sample_polled)) = 2"
proof -
  have "(ses_stats (session sample_polled))\<lparr>st_packets := 0\<rparr>
      = stats_default\<lparr>st_nonempty_packets := 1, st_bytes := 2\<rparr>"
    using usb_statistics_exact [OF sample_polled_reachable]
    by (simp add: sample_polled_history stats_default_def)
  then have "st_bytes ((ses_stats (session sample_polled))\<lparr>st_packets := 0\<rparr>) = 2" by simp
  then show ?thesis by simp
qed

theorem session_stop_completes_witness:
  "\<exists>s'. session_stop [[(1, False, sample_completion)], [(0, True, sample_completion)]] sample_opened
      = Some (s', [0, 1], [0, 1]) \<and> slots s' = []"
proof -
  have "submitted_slots sample_opened = [0, 1]"
    by (simp add: sample_opened_eq submitted_slots_def)
  then show ?thesis
    using session_stop_completes [of sample_opened "[[(1, False, sample_completion)], [(0, True, sample_completion)]]"]
    by (auto simp: sample_opened_eq session_initial_def upt_conv_Cons)
qed

end
