(* ===== verification/Session_Frames.thy ===== *)
theory Session_Frames
  imports Driver_Common Usb_Session
begin

section \<open>The frames of a camera session\<close>

text \<open>
  What the capture and the stream command share about the events of a camera session: the
  texts their messages contain, and the frames that a list of events decodes to, when the
  decoder is reset after every decoding error and packet error, as both loops do.
\<close>

text \<open>The texts of library values that the messages contain.\<close>

record app_text =
  tx_event :: "session_event \<Rightarrow> string"
  tx_sync :: "synchronization_error \<Rightarrow> string"
  tx_usb :: "usb_transport_error \<Rightarrow> string"

text \<open>The frames that the packets of some events complete.\<close>

fun decoded_frames :: "session_event list \<Rightarrow> stream_decoder \<Rightarrow> compressed_frame list \<times> stream_decoder" where
  "decoded_frames [] decoder = ([], decoder)"
| "decoded_frames (Packet ep data received_at # events) decoder =
     (case push_packet decoder \<lparr>ep_endpoint = ep, ep_data = data\<rparr> of
        (Inr (Some frame), decoder) \<Rightarrow>
          (case decoded_frames events decoder of (frames, decoder) \<Rightarrow> (frame # frames, decoder))
      | (Inr None, decoder) \<Rightarrow> decoded_frames events decoder
      | (Inl _, decoder) \<Rightarrow> decoded_frames events (decoder_reset decoder))"
| "decoded_frames (PacketError ep status # events) decoder = decoded_frames events (decoder_reset decoder)"
| "decoded_frames (event # events) decoder = decoded_frames events decoder"

lemma decoded_frames_append:
  "decoded_frames (xs @ ys) decoder =
     (case decoded_frames xs decoder of (fs, decoder) \<Rightarrow>
      case decoded_frames ys decoder of (fs', decoder) \<Rightarrow> (fs @ fs', decoder))"
  by (induction xs decoder rule: decoded_frames.induct)
    (auto split: prod.splits sum.splits option.splits)

text \<open>How many packets the decoder rejects.\<close>

fun decode_errors :: "session_event list \<Rightarrow> stream_decoder \<Rightarrow> nat" where
  "decode_errors [] decoder = 0"
| "decode_errors (Packet ep data received_at # events) decoder =
     (case push_packet decoder \<lparr>ep_endpoint = ep, ep_data = data\<rparr> of
        (Inr _, decoder) \<Rightarrow> decode_errors events decoder
      | (Inl _, decoder) \<Rightarrow> Suc (decode_errors events (decoder_reset decoder)))"
| "decode_errors (PacketError ep status # events) decoder = decode_errors events (decoder_reset decoder)"
| "decode_errors (event # events) decoder = decode_errors events decoder"

lemma decode_errors_append:
  "decode_errors (xs @ ys) decoder
     = decode_errors xs decoder + decode_errors ys (snd (decoded_frames xs decoder))"
  by (induction xs decoder rule: decode_errors.induct) (auto split: prod.splits sum.splits option.splits)

text \<open>The sample packets as the events of a session.\<close>

definition sample_usb :: "session_event list" where
  "sample_usb = map (\<lambda>p. Packet (ep_endpoint p) (ep_data p) 90000000) sample_packets"

lemma decoded_frames_push:
  "fst (push_packets decoder ps) = map Inr fs \<Longrightarrow>
     fst (decoded_frames (map (\<lambda>p. Packet (ep_endpoint p) (ep_data p) t) ps) decoder) = fs"
proof (induction ps arbitrary: decoder fs)
  case Nil
  then show ?case by simp
next
  case (Cons p ps)
  then show ?case
    by (cases p) (auto split: prod.splits sum.splits option.splits; metis fst_conv)
qed

lemma sample_packets_decoded:
  "fst (decoded_frames (map (\<lambda>p. Packet (ep_endpoint p) (ep_data p) t) sample_packets) decoder_new)
     = map tv_frame sample_decoded"
proof -
  have recs: "camera_records sample_packets
      = [(0x010, 0, [9]), (0x7f0, 0, [1, 0xff, 0] @ replicate 6 0xff @ [1, 1, 5]), (0x010, 0, [3]), (0x038, 0, [7])]"
    by code_simp
  have fits: "fits (max_record_size decoder_new) (camera_records sample_packets)"
    by (simp add: recs decoder_new_def DEFAULT_MAX_RECORD_SIZE_def)
  have deltas: "timestamp_delta 16 2032 = 32" "timestamp_delta 56 16 = 40" by code_simp+
  have "fst (push_packets decoder_new sample_packets) = map Inr (map tv_frame sample_decoded)"
    using push_packets_resync [OF _ _ _ fits]
    by (simp add: decoder_new_def recs deltas sample_decoded_def reconstruct_jpeg_nonzero Let_def)
  then show ?thesis by (rule decoded_frames_push)
qed

lemma sample_frames_decoded: "fst (decoded_frames sample_usb decoder_new) = map tv_frame sample_decoded"
  unfolding sample_usb_def by (rule sample_packets_decoded)

end
