(* ===== verification/Capture.thy ===== *)
theory Capture
  imports Session_Frames
begin

section \<open>Synchronized capture\<close>

text \<open>
  Model of \<open>run_capture\<close> and \<open>run_capture_session\<close> of
  \<open>crates/handycam-cli/src/main.rs\<close>: audio events and USB packets become timed media events
  in the order of their observation, the synchronizer times them and the Matroska writer
  stores them.
\<close>

subsection \<open>The loop\<close>

text \<open>
  What one iteration observes: the stop flag, the audio events that have arrived, the result
  of polling the session, the stop flag after a failed poll, and whether the report is due.
\<close>

record capture_tick =
  ct_stopping :: bool
  ct_audio :: "audio_capture_event list"
  ct_poll :: "usb_transport_error + session_event list"
  ct_stopping_after :: bool
  ct_report :: bool

record 'w capture_state =
  cs_decoder :: stream_decoder
  cs_sync :: av_synchronizer
  cs_lost :: bool
  cs_video_frames :: u64
  cs_audio_chunks :: u64
  cs_video_drift :: u64
  cs_audio_drift :: u64
  cs_writer :: "'w matroska_writer"

definition capture_initial :: "'w matroska_writer \<Rightarrow> 'w capture_state" where
  "capture_initial writer =
     \<lparr>cs_decoder = decoder_new, cs_sync = synchronizer_new timestamp_ZERO, cs_lost = False,
      cs_video_frames = 0, cs_audio_chunks = 0, cs_video_drift = 0, cs_audio_drift = 0,
      cs_writer = writer\<rparr>"

fun collect_audio :: "audio_capture_event list \<Rightarrow> 'h app_error + timed_media_event list" where
  "collect_audio [] = Inr []"
| "collect_audio (Chunk chunk # events) = map_sum (\<lambda>e. e) (Cons (AudioEvent chunk)) (collect_audio events)"
| "collect_audio (Failed error # events) = Inl (AudioWorker error)"
| "collect_audio (Closed # events) = Inl AudioClosed"

text \<open>The event of a frame: it was observed at the start of its interval.\<close>

definition video_event :: "nat \<Rightarrow> nat \<Rightarrow> bool \<Rightarrow> compressed_frame \<Rightarrow> timed_media_event" where
  "video_event session_origin received_at lost frame =
     (let frame_duration = unat (timestamp_delta_to_next_ms frame) * 1000000;
          observed_start' = (case instant_checked_sub received_at frame_duration of
              None \<Rightarrow> received_at | Some t \<Rightarrow> t)
      in VideoEvent \<lparr>observed_at = monotonic_timestamp_of session_origin observed_start',
           tv_frame = frame, tv_discontinuity = lost\<rparr>)"

text \<open>The loop over the polled events; the error is that of an event that ends the session.\<close>

fun collect_usb ::
  "app_text \<Rightarrow> nat \<Rightarrow> session_event list \<Rightarrow> stream_decoder \<Rightarrow> bool
   \<Rightarrow> 'h app_error + timed_media_event list \<times> stream_decoder \<times> bool" where
  "collect_usb text session_origin [] decoder lost = Inr ([], decoder, lost)"
| "collect_usb text session_origin (event # events) decoder lost =
     (case event of
        Packet ep data received_at \<Rightarrow>
          (case push_packet decoder \<lparr>ep_endpoint = ep, ep_data = data\<rparr> of
             (Inr (Some frame), decoder) \<Rightarrow>
               map_sum (\<lambda>e. e)
                 (\<lambda>(media, rest). (video_event session_origin received_at lost frame # media, rest))
                 (collect_usb text session_origin events decoder False)
           | (Inr None, decoder) \<Rightarrow> collect_usb text session_origin events decoder lost
           | (Inl _, decoder) \<Rightarrow> collect_usb text session_origin events (decoder_reset decoder) True)
      | PacketError _ _ \<Rightarrow> collect_usb text session_origin events (decoder_reset decoder) True
      | _ \<Rightarrow>
          if ends_session event
          then Inl (SinkError (''camera disconnected: '' @ tx_event text event))
          else collect_usb text session_origin events decoder lost)"

definition note_drift :: "timed_media_event \<Rightarrow> media_timing \<Rightarrow> 'w capture_state \<Rightarrow> 'w capture_state" where
  "note_drift event timing s =
     (let drift = unsigned_abs (observed_drift_us timing)
      in case event of
           VideoEvent _ \<Rightarrow> s\<lparr>cs_video_drift := max (cs_video_drift s) drift\<rparr>
         | AudioEvent _ \<Rightarrow> s\<lparr>cs_audio_drift := max (cs_audio_drift s) drift\<rparr>)"

definition store_event ::
  "'w output_ops \<Rightarrow> i64 \<Rightarrow> timed_media_event \<Rightarrow> media_timing \<Rightarrow> 'w capture_state
   \<Rightarrow> ('h app_error + unit) \<times> 'w capture_state" where
  "store_event ops delay event timing s =
     (case event of
        VideoEvent frame \<Rightarrow>
          (case write_video ops (cs_writer s) frame timing of
             (Inl e, writer) \<Rightarrow> (Inl (MatroskaError e), s\<lparr>cs_writer := writer\<rparr>)
           | (Inr _, writer) \<Rightarrow>
               (Inr (), s\<lparr>cs_writer := writer, cs_video_frames := cs_video_frames s + 1\<rparr>))
      | AudioEvent chunk \<Rightarrow>
          (case write_audio ops (cs_writer s) chunk (apply_audio_delay timing delay) of
             (Inl e, writer) \<Rightarrow> (Inl (MatroskaError e), s\<lparr>cs_writer := writer\<rparr>)
           | (Inr _, writer) \<Rightarrow>
               (Inr (), s\<lparr>cs_writer := writer, cs_audio_chunks := cs_audio_chunks s + 1\<rparr>)))"

fun store_events ::
  "app_text \<Rightarrow> 'w output_ops \<Rightarrow> i64 \<Rightarrow> timed_media_event list \<Rightarrow> 'w capture_state
   \<Rightarrow> ('h app_error + unit) \<times> 'w capture_state" where
  "store_events text ops delay [] s = (Inr (), s)"
| "store_events text ops delay (event # events) s =
     (case event_timing (cs_sync s) event of
        (Inl e, sync) \<Rightarrow> (Inl (SinkError (tx_sync text e)), s\<lparr>cs_sync := sync\<rparr>)
      | (Inr timing, sync) \<Rightarrow>
          (case store_event ops delay event timing (note_drift event timing (s\<lparr>cs_sync := sync\<rparr>)) of
             (Inl e, s) \<Rightarrow> (Inl e, s)
           | (Inr _, s) \<Rightarrow> store_events text ops delay events s))"

text \<open>An iteration after the stop flag was read clear: an error or \<open>Ok\<close> ends the session.\<close>

definition capture_iteration ::
  "app_text \<Rightarrow> 'w output_ops \<Rightarrow> nat \<Rightarrow> i64 \<Rightarrow> capture_tick \<Rightarrow> 'w capture_state
   \<Rightarrow> ('h app_error + unit) option \<times> 'w capture_state" where
  "capture_iteration text ops session_origin delay t s =
     (case collect_audio (ct_audio t) of
        Inl e \<Rightarrow> (Some (Inl e), s)
      | Inr audio \<Rightarrow>
        (case ct_poll t of
           Inl e \<Rightarrow> (if ct_stopping_after t then Some (Inr ()) else Some (Inl (UsbError e)), s)
         | Inr events \<Rightarrow>
           (case collect_usb text session_origin events (cs_decoder s) (cs_lost s) of
              Inl e \<Rightarrow> (Some (Inl e), s)
            | Inr (video, decoder, lost) \<Rightarrow>
              let s = s\<lparr>cs_decoder := decoder, cs_lost := lost\<rparr>;
                  media_events = sort_key event_observed_timestamp (audio @ video)
              in case store_events text ops delay media_events s of
                   (Inl e, s) \<Rightarrow> (Some (Inl e), s)
                 | (Inr _, s) \<Rightarrow>
                     if ct_report t then
                       (case matroska_flush ops (cs_writer s) of
                          (Inl e, writer) \<Rightarrow> (Some (Inl (MatroskaError e)), s\<lparr>cs_writer := writer\<rparr>)
                        | (Inr _, writer) \<Rightarrow> (None, s\<lparr>cs_writer := writer\<rparr>))
                     else (None, s))))"

text \<open>\<open>run_capture_session\<close> on the observations of its iterations; \<open>None\<close>: still running.\<close>

fun run_capture_session ::
  "app_text \<Rightarrow> 'w output_ops \<Rightarrow> nat \<Rightarrow> i64 \<Rightarrow> capture_tick list \<Rightarrow> 'w capture_state
   \<Rightarrow> ('h app_error + unit) option \<times> 'w capture_state" where
  "run_capture_session text ops session_origin delay [] s = (None, s)"
| "run_capture_session text ops session_origin delay (t # ts) s =
     (if ct_stopping t then
        (Some (if cs_audio_chunks s = 0 then Inl NoCapturedAudio
               else if cs_video_frames s = 0 then Inl NoCapturedVideo
               else Inr ()), s)
      else
        (case capture_iteration text ops session_origin delay t s of
           (Some result, s) \<Rightarrow> (Some result, s)
         | (None, s) \<Rightarrow> run_capture_session text ops session_origin delay ts s))"

subsection \<open>The command\<close>

text \<open>
  What the environment of \<open>run_capture\<close> answers: reading the plan file, installing the signal
  handlers, opening the camera with a plan and a strategy, starting the audio capture,
  creating the output, and stopping the audio capture.
\<close>

record 'w capture_env =
  ce_read_plan :: "string \<Rightarrow> string + string"
  ce_signals :: "string + unit"
  ce_open :: "init_op list \<Rightarrow> init_strategy \<Rightarrow> usb_transport_error + unit"
  ce_audio :: "audio_capture_error + unit"
  ce_create :: "string + 'w"
  ce_audio_stop :: "audio_capture_error + unit"

record capture_args =
  ca_output :: string
  ca_audio_delay_ms :: i64
  ca_init_plan :: "string option"
  ca_quality :: "u8 option"
  ca_semantic_init :: bool
  ca_playback_init :: bool

definition capture_setup ::
  "'h hex_decoder \<Rightarrow> string \<Rightarrow> 'w output_ops \<Rightarrow> 'w capture_env \<Rightarrow> capture_args
   \<Rightarrow> 'h app_error + 'w matroska_writer" where
  "capture_setup hex_decode embedded ops env args =
     rbind (load_plan hex_decode embedded (ce_read_plan env) (ca_init_plan args)) (\<lambda>plan.
     rbind (apply_quality (ca_quality args) plan) (\<lambda>plan.
     rbind (map_err SignalError (ce_signals env)) (\<lambda>_.
     rbind (map_err UsbError
       (ce_open env plan (choose_strategy (ca_semantic_init args) (ca_playback_init args)))) (\<lambda>_.
     rbind (map_err AudioError (ce_audio env)) (\<lambda>_.
     rbind (map_err (CreateCapture (ca_output args)) (ce_create env)) (\<lambda>output.
     map_err MatroskaError (matroska_new ops output camera_format)))))))"

text \<open>
  \<open>run_capture\<close>: the result (\<open>None\<close> while the session runs) and what was written. After the
  session the camera and the audio capture are stopped in any case, before the result is
  looked at; the duration is only stored when both have succeeded.
\<close>

definition run_capture ::
  "app_text \<Rightarrow> 'h hex_decoder \<Rightarrow> string \<Rightarrow> 'w output_ops \<Rightarrow> 'w capture_env \<Rightarrow> capture_args \<Rightarrow> nat
   \<Rightarrow> capture_tick list \<Rightarrow> ('h app_error + unit) option \<times> 'w option" where
  "run_capture text hex_decode embedded ops env args session_origin ticks =
     (case capture_setup hex_decode embedded ops env args of
        Inl e \<Rightarrow> (Some (Inl e), None)
      | Inr writer \<Rightarrow>
        (case run_capture_session text ops session_origin (ca_audio_delay_ms args) ticks (capture_initial writer) of
           (None, s) \<Rightarrow> (None, Some (mw_output (cs_writer s)))
         | (Some (Inl e), s) \<Rightarrow> (Some (Inl e), Some (mw_output (cs_writer s)))
         | (Some (Inr _), s) \<Rightarrow>
             (case ce_audio_stop env of
                Inl e \<Rightarrow> (Some (Inl (AudioError e)), Some (mw_output (cs_writer s)))
              | Inr _ \<Rightarrow>
                  (case matroska_flush ops (cs_writer s) of
                     (Inl e, writer) \<Rightarrow> (Some (Inl (MatroskaError e)), Some (mw_output writer))
                   | (Inr _, writer) \<Rightarrow> (Some (Inr ()), Some (mw_output writer))))))"

end
