(* ===== verification/Capture_File.thy ===== *)
theory Capture_File
  imports Capture "HOL-Library.Multiset"
begin

section \<open>What a capture stores\<close>

text \<open>
  The correctness of the capture command: a reference that decodes, orders and times the
  events without the writer, the correspondence of the session's loop with it, the contents
  of the file of a successful capture, and the conditions under which a capture succeeds.
\<close>

subsection \<open>The reference: decode, order, time\<close>

text \<open>
  The events of each iteration without the writer: the chunks and the frames that the
  decoder completes, sorted stably by their time of observation.
\<close>

fun chunks_of :: "audio_capture_event list \<Rightarrow> timed_audio_chunk list" where
  "chunks_of [] = []"
| "chunks_of (Chunk chunk # events) = chunk # chunks_of events"
| "chunks_of (_ # events) = chunks_of events"

fun decoded_video ::
  "nat \<Rightarrow> session_event list \<Rightarrow> stream_decoder \<Rightarrow> bool \<Rightarrow> timed_media_event list \<times> stream_decoder \<times> bool"
  where
  "decoded_video session_origin [] decoder lost = ([], decoder, lost)"
| "decoded_video session_origin (Packet ep data received_at # events) decoder lost =
     (case push_packet decoder \<lparr>ep_endpoint = ep, ep_data = data\<rparr> of
        (Inr (Some frame), decoder) \<Rightarrow>
          (case decoded_video session_origin events decoder False of (media, rest) \<Rightarrow>
             (video_event session_origin received_at lost frame # media, rest))
      | (Inr None, decoder) \<Rightarrow> decoded_video session_origin events decoder lost
      | (Inl _, decoder) \<Rightarrow> decoded_video session_origin events (decoder_reset decoder) True)"
| "decoded_video session_origin (PacketError ep status # events) decoder lost =
     decoded_video session_origin events (decoder_reset decoder) True"
| "decoded_video session_origin (event # events) decoder lost =
     decoded_video session_origin events decoder lost"

fun capture_batches ::
  "nat \<Rightarrow> capture_tick list \<Rightarrow> stream_decoder \<Rightarrow> bool \<Rightarrow> timed_media_event list list" where
  "capture_batches session_origin [] decoder lost = []"
| "capture_batches session_origin (t # ts) decoder lost =
     (if ct_stopping t then []
      else
        (case ct_poll t of
           Inl _ \<Rightarrow> []
         | Inr events \<Rightarrow>
             (case decoded_video session_origin events decoder lost of (video, decoder, lost) \<Rightarrow>
                sort_key event_observed_timestamp (map AudioEvent (chunks_of (ct_audio t)) @ video)
                # capture_batches session_origin ts decoder lost)))"

definition stored_call :: "i64 \<Rightarrow> timed_media_event \<Rightarrow> media_timing \<Rightarrow> writer_call" where
  "stored_call delay event timing =
     (case event of
        VideoEvent frame \<Rightarrow> PutVideo frame timing
      | AudioEvent chunk \<Rightarrow> PutAudio chunk (apply_audio_delay timing delay))"

lemma collect_audio_chunks:
  "(collect_audio events :: 'h app_error + _) = Inr media \<Longrightarrow> media = map AudioEvent (chunks_of events)"
proof (induction events arbitrary: media rule: collect_audio.induct)
  case (2 chunk events)
  then show ?case by (cases "collect_audio events :: 'h app_error + _") auto
qed simp_all

lemma collect_usb_video:
  "(collect_usb text session_origin events decoder lost :: 'h app_error + _) = Inr r \<Longrightarrow>
     decoded_video session_origin events decoder lost = r"
proof (induction session_origin events decoder lost arbitrary: r rule: decoded_video.induct)
  case (2 session_origin ep data received_at events decoder lost)
  then show ?case
    by (cases "collect_usb text session_origin events
          (snd (push_packet decoder \<lparr>ep_endpoint = ep, ep_data = data\<rparr>)) False :: 'h app_error + _")
      (auto split: prod.splits sum.splits option.splits)
qed (auto simp: ends_session_def)

text \<open>No event lies before the origin of the synchronizer, so timing does not fail.\<close>

lemma event_timing_zero:
  assumes "stream_start s = timestamp_ZERO"
  obtains timing s' where "event_timing s event = (Inr timing, s')" "stream_start s' = timestamp_ZERO"
proof -
  have zero: "timestamp_ZERO \<le> t" for t
    by (cases t) (simp add: timestamp_ZERO_def)
  show ?thesis
  proof (cases event)
    case (VideoEvent frame)
    then show ?thesis
      using that video_clock.timed_Inr [of s frame] video_clock.timed_origin [of s frame] zero assms
      by (cases "video_timing s frame"; cases "fst (video_timing s frame)") (auto simp: event_timing_def)
  next
    case (AudioEvent chunk)
    then show ?thesis
      using that audio_clock.timed_Inr [of s chunk] audio_clock.timed_origin [of s chunk] zero assms
      by (cases "audio_timing s chunk"; cases "fst (audio_timing s chunk)") (auto simp: event_timing_def)
  qed
qed

definition accepted_call :: "audio_format \<Rightarrow> writer_call \<Rightarrow> bool" where
  "accepted_call fmt c \<longleftrightarrow> (case c of PutAudio event timing \<Rightarrow> accepts_audio fmt event | _ \<Rightarrow> True)"

lemma write_keeps_format:
  "mw_audio_format (snd (write_video ops mw frame timing)) = mw_audio_format mw"
  "mw_audio_format (snd (write_audio ops mw chunk timing)) = mw_audio_format mw"
  "mw_audio_format (snd (matroska_flush ops mw)) = mw_audio_format mw"
  by (auto simp: write_video_def write_audio_def matroska_flush_def write_duration_def io_step_def
      note_end_def Let_def split: prod.split sum.split)

lemma write_audio_accepts:
  "fst (write_audio ops mw chunk timing) = Inr () \<Longrightarrow> accepts_audio (mw_audio_format mw) chunk"
  by (auto simp: write_audio_def accepts_audio_def Let_def split: if_splits)

lemma store_event_call:
  assumes "store_event ops delay event timing s = (Inr () :: 'h app_error + unit, s')"
  shows "cs_writer s' = snd (writer_call ops (cs_writer s) (stored_call delay event timing))
    \<and> accepted_call (mw_audio_format (cs_writer s)) (stored_call delay event timing)
    \<and> cs_decoder s' = cs_decoder s \<and> cs_lost s' = cs_lost s \<and> cs_sync s' = cs_sync s
    \<and> mw_audio_format (cs_writer s') = mw_audio_format (cs_writer s)"
proof (cases event)
  case (VideoEvent frame)
  then show ?thesis
    using assms write_keeps_format(1) [of ops "cs_writer s" frame timing]
    by (auto simp: store_event_def stored_call_def writer_call_def accepted_call_def split: prod.splits sum.splits)
next
  case (AudioEvent chunk)
  then show ?thesis
    using assms write_keeps_format(2) [of ops "cs_writer s" chunk "apply_audio_delay timing delay"]
      write_audio_accepts [of ops "cs_writer s" chunk "apply_audio_delay timing delay"]
    by (auto simp: store_event_def stored_call_def writer_call_def accepted_call_def split: prod.splits sum.splits)
qed

lemma note_drift_simps [simp]:
  "cs_decoder (note_drift event timing s) = cs_decoder s" "cs_lost (note_drift event timing s) = cs_lost s"
  "cs_sync (note_drift event timing s) = cs_sync s" "cs_writer (note_drift event timing s) = cs_writer s"
  "cs_video_frames (note_drift event timing s) = cs_video_frames s"
  "cs_audio_chunks (note_drift event timing s) = cs_audio_chunks s"
  by (auto simp: note_drift_def Let_def split: timed_media_event.split)

text \<open>A run of the writer and of the synchronizer that corresponds to some events.\<close>

definition stores ::
  "'w output_ops \<Rightarrow> i64 \<Rightarrow> timed_media_event list \<Rightarrow> 'w capture_state \<Rightarrow> 'w capture_state
   \<Rightarrow> media_timing list \<Rightarrow> writer_call list \<Rightarrow> bool" where
  "stores ops delay events s s' timings calls \<longleftrightarrow>
     run_steps event_timing (cs_sync s) events = (map Inr timings, cs_sync s')
     \<and> cs_writer s' = snd (run_steps (writer_call ops) (cs_writer s) calls)
     \<and> filter (\<lambda>c. c \<noteq> FlushFile) calls = map2 (stored_call delay) events timings
     \<and> (\<forall>c \<in> set calls. accepted_call (mw_audio_format (cs_writer s)) c)
     \<and> mw_audio_format (cs_writer s') = mw_audio_format (cs_writer s)"

lemma stored_call_not_flush [simp]: "stored_call delay event timing \<noteq> FlushFile"
  by (cases event) (simp_all add: stored_call_def)

lemma stores_append:
  assumes "stores ops delay es s s1 timings calls" and "stores ops delay es' s1 s2 timings' calls'"
  shows "stores ops delay (es @ es') s s2 (timings @ timings') (calls @ calls')"
proof -
  have "length timings = length es"
    using assms(1) length_run_steps [of event_timing "cs_sync s" es] by (simp add: stores_def)
  then show ?thesis
    using assms by (auto simp: stores_def run_steps_append split: prod.split)
qed

lemma store_events_stores:
  "store_events text ops delay events s = (Inr () :: 'h app_error + unit, s') \<Longrightarrow>
     cs_decoder s' = cs_decoder s \<and> cs_lost s' = cs_lost s \<and> (\<exists>timings calls. stores ops delay events s s' timings calls)"
proof (induction events arbitrary: s)
  case Nil
  then show ?case by (auto simp: stores_def intro!: exI [of _ "[]"])
next
  case (Cons event events)
  obtain timing sync where timing: "event_timing (cs_sync s) event = (Inr timing, sync)"
    using Cons.prems by (auto split: prod.splits sum.splits)
  then obtain s1 where s1: "store_event ops delay event timing (note_drift event timing (s\<lparr>cs_sync := sync\<rparr>)) = (Inr () :: 'h app_error + unit, s1)"
    and rest: "store_events text ops delay events s1 = (Inr () :: 'h app_error + unit, s')"
    using Cons.prems by (auto split: prod.splits sum.splits)
  note call = store_event_call [OF s1]
  have first: "stores ops delay [event] s s1 [timing] [stored_call delay event timing]"
    using timing call by (auto simp: stores_def run_steps.simps case_prod_unfold)
  obtain timings calls where "stores ops delay events s1 s' timings calls"
    using Cons.IH [OF rest] by blast
  from stores_append [OF first this]
  have "stores ops delay (event # events) s s' (timing # timings) (stored_call delay event timing # calls)"
    by simp
  then show ?case using Cons.IH [OF rest] call by auto
qed


definition session_events :: "nat \<Rightarrow> capture_tick list \<Rightarrow> 'w capture_state \<Rightarrow> timed_media_event list" where
  "session_events session_origin ticks s =
     concat (capture_batches session_origin ticks (cs_decoder s) (cs_lost s))"

lemma capture_iteration_stores:
  assumes "capture_iteration text ops session_origin delay t s = (None :: ('h app_error + unit) option, s')"
    and "\<not> ct_stopping t"
  shows "\<exists>batch timings calls. stores ops delay batch s s' timings calls
    \<and> session_events session_origin (t # ts) s = batch @ session_events session_origin ts s'"
proof -
  obtain audio where audio: "collect_audio (ct_audio t) = (Inr audio :: 'h app_error + _)"
    using assms by (auto simp: capture_iteration_def split: sum.splits)
  obtain events where poll: "ct_poll t = Inr events"
    using assms audio by (auto simp: capture_iteration_def split: sum.splits if_splits)
  obtain video decoder lost where usb: "collect_usb text session_origin events (cs_decoder s) (cs_lost s)
      = (Inr (video, decoder, lost) :: 'h app_error + _)"
    using assms audio poll by (auto simp: capture_iteration_def split: sum.splits prod.splits)
  let ?batch = "sort_key event_observed_timestamp (audio @ video)"
  let ?s = "s\<lparr>cs_decoder := decoder, cs_lost := lost\<rparr>"
  obtain s1 where s1: "store_events text ops delay ?batch ?s = (Inr () :: 'h app_error + unit, s1)"
    using assms audio poll usb by (auto simp: capture_iteration_def Let_def split: sum.splits prod.splits)
  obtain timings calls where calls: "stores ops delay ?batch ?s s1 timings calls"
    and keep: "cs_decoder s1 = decoder" "cs_lost s1 = lost"
    using store_events_stores [OF s1] by auto
  have events: "session_events session_origin (t # ts) s
      = ?batch @ concat (capture_batches session_origin ts decoder lost)"
    using assms(2) poll collect_audio_chunks [OF audio] collect_usb_video [OF usb]
    by (simp add: session_events_def)
  have from_s: "stores ops delay ?batch s s1 timings calls"
    using calls by (auto simp: stores_def)
  show ?thesis
  proof (cases "ct_report t")
    case False
    then have "s' = s1" using assms(1) audio poll usb s1 by (simp add: capture_iteration_def Let_def)
    then show ?thesis using from_s events keep by (auto simp: session_events_def)
  next
    case True
    then obtain writer where writer: "matroska_flush ops (cs_writer s1) = (Inr (), writer)"
      and s': "s' = s1\<lparr>cs_writer := writer\<rparr>"
      using assms(1) audio poll usb s1
      by (auto simp: capture_iteration_def Let_def split: prod.splits sum.splits)
    have "stores ops delay [] s1 s' [] [FlushFile]"
      using writer write_keeps_format(3) [of ops "cs_writer s1"]
      by (simp add: stores_def s' writer_call_def accepted_call_def run_steps.simps)
    from stores_append [OF from_s this] show ?thesis
      using events keep s' by (auto simp: session_events_def)
  qed
qed

lemma run_capture_session_stores:
  "run_capture_session text ops session_origin delay ticks s = (r :: ('h app_error + unit) option, s') \<Longrightarrow>
   r = None \<or> r = Some (Inr ()) \<Longrightarrow>
     \<exists>timings calls. stores ops delay (session_events session_origin ticks s) s s' timings calls"
proof (induction ticks arbitrary: s)
  case Nil
  then show ?case by (auto simp: stores_def session_events_def intro!: exI [of _ "[]"])
next
  case (Cons t ticks)
  have stop: "\<exists>timings calls. stores ops delay (session_events session_origin (t # ticks) s) s s timings calls"
    if "ct_stopping t \<or> isl (ct_poll t)"
    using that by (auto simp: stores_def session_events_def isl_def intro!: exI [of _ "[]"])
  show ?case
  proof (cases "ct_stopping t")
    case True
    then show ?thesis using Cons.prems stop by auto
  next
    case False
    obtain r1 s1 where it: "capture_iteration text ops session_origin delay t s
        = (r1 :: ('h app_error + unit) option, s1)" by fastforce
    show ?thesis
    proof (cases r1)
      case None
      then have run: "run_capture_session text ops session_origin delay ticks s1 = (r, s')"
        using Cons.prems it False by simp
      obtain batch timings calls where "stores ops delay batch s s1 timings calls"
        "session_events session_origin (t # ticks) s = batch @ session_events session_origin ticks s1"
        using capture_iteration_stores [OF it [unfolded None] False] by blast
      with Cons.IH [OF run Cons.prems(2)] show ?thesis by (metis stores_append)
    next
      case (Some result)
      then have "result = Inr ()" "s' = s1" "r = Some result" using Cons.prems it False by auto
      then have "isl (ct_poll t) \<and> s1 = s"
        using it Some
        by (auto simp: capture_iteration_def Let_def split: sum.splits prod.splits if_splits)
      then show ?thesis using stop \<open>s' = s1\<close> by auto
    qed
  qed
qed

subsection \<open>What a capture file holds\<close>

definition stored_timing :: "i64 \<Rightarrow> timed_media_event \<Rightarrow> media_timing \<Rightarrow> media_timing" where
  "stored_timing delay event timing =
     (case event of VideoEvent _ \<Rightarrow> timing | AudioEvent _ \<Rightarrow> apply_audio_delay timing delay)"

definition stored_cluster :: "i64 \<Rightarrow> timed_media_event \<Rightarrow> media_timing \<Rightarrow> u64 \<times> u8 \<times> bytes" where
  "stored_cluster delay event timing =
     (pts_us (stored_timing delay event timing) div 1000,
      case event of
        VideoEvent frame \<Rightarrow> (VIDEO_TRACK, fr_jpeg (tv_frame frame))
      | AudioEvent chunk \<Rightarrow> (AUDIO_TRACK, pcm (ta_chunk chunk)))"

definition stored_end :: "i64 \<Rightarrow> timed_media_event \<times> media_timing \<Rightarrow> u64" where
  "stored_end delay et =
     (case et of (event, timing) \<Rightarrow>
        sat_add (pts_us (stored_timing delay event timing)) (duration_us (stored_timing delay event timing)))"

definition event_room :: "timed_media_event \<Rightarrow> nat" where
  "event_room event =
     (case event of
        VideoEvent frame \<Rightarrow> length (fr_jpeg (tv_frame frame)) + 48
      | AudioEvent chunk \<Rightarrow> length (pcm (ta_chunk chunk)) + 48)"

lemma call_of_stored:
  "accepted_call fmt (stored_call delay event timing) \<Longrightarrow>
     call_clusters fmt (stored_call delay event timing) = [stored_cluster delay event timing]"
  "accepted_call fmt (stored_call delay event timing) \<Longrightarrow>
     call_end fmt (stored_call delay event timing) = stored_end delay (event, timing)"
  "call_room (stored_call delay event timing) = event_room event"
  by (cases event; simp add: stored_call_def call_clusters_def call_end_def stored_cluster_def stored_end_def
      stored_timing_def accepted_call_def call_room_def call_size_def event_room_def)+

lemma calls_without_flush:
  "calls_clusters fmt calls = calls_clusters fmt (filter (\<lambda>c. c \<noteq> FlushFile) calls)"
  "calls_room calls = calls_room (filter (\<lambda>c. c \<noteq> FlushFile) calls)"
  "foldl (\<lambda>e c. max e (call_end fmt c)) x calls
     = foldl (\<lambda>e c. max e (call_end fmt c)) x (filter (\<lambda>c. c \<noteq> FlushFile) calls)"
proof -
  show "calls_clusters fmt calls = calls_clusters fmt (filter (\<lambda>c. c \<noteq> FlushFile) calls)"
    by (induction calls) (auto simp: calls_clusters_def call_clusters_def)
  show "calls_room calls = calls_room (filter (\<lambda>c. c \<noteq> FlushFile) calls)"
    by (induction calls) (auto simp: calls_room_def call_room_def)
  show "foldl (\<lambda>e c. max e (call_end fmt c)) x calls
     = foldl (\<lambda>e c. max e (call_end fmt c)) x (filter (\<lambda>c. c \<noteq> FlushFile) calls)"
    by (induction calls arbitrary: x) (auto simp: call_end_def)
qed

lemma stored_calls:
  assumes "length timings = length events"
    and "\<forall>c \<in> set (map2 (stored_call delay) events timings). accepted_call fmt c"
  shows "calls_clusters fmt (map2 (stored_call delay) events timings) = map2 (stored_cluster delay) events timings
    \<and> calls_room (map2 (stored_call delay) events timings) = sum_list (map event_room events)
    \<and> (\<forall>x. foldl (\<lambda>e c. max e (call_end fmt c)) x (map2 (stored_call delay) events timings)
        = foldl (\<lambda>e et. max e (stored_end delay et)) x (zip events timings))"
  using assms
proof (induction timings events rule: list_induct2)
  case Nil
  then show ?case by (simp add: calls_clusters_def calls_room_def)
next
  case (Cons timing timings event events)
  then show ?case by (simp add: calls_clusters_def calls_room_def call_of_stored)
qed

lemma run_steps_initial_sync:
  "fst (run_steps event_timing (synchronizer_new timestamp_ZERO) events) = map Inr timings
     \<Longrightarrow> length timings = length events"
  using length_run_steps [of event_timing "synchronizer_new timestamp_ZERO" events] by simp

text \<open>
  The file that a successful session on a fresh file leaves after the final flush holds
  exactly the reference events; the periodic flushes leave no trace.
\<close>

lemma capture_session_file:
  assumes "matroska_new cursor_ops empty_cursor fmt = Inr writer"
    and "run_capture_session text cursor_ops session_origin delay ticks (capture_initial writer)
      = (Some (Inr ()) :: ('h app_error + unit) option, s)"
    and "events = session_events session_origin ticks (capture_initial writer)"
    and "sum_list (map event_room events) < 2 ^ 55"
  shows "\<exists>timings file.
    fst (run_steps event_timing (synchronizer_new timestamp_ZERO) events) = map Inr timings
    \<and> map_sum (\<lambda>e. e) cur_content (into_inner cursor_ops (cs_writer s)) = Inr file
    \<and> read_file file = Some
        (Some (be_bytes 8 (duration_bits (foldl (\<lambda>e et. max e (stored_end delay et)) 0 (zip events timings)))),
         map2 (\<lambda>event timing. case stored_cluster delay event timing of
           (pts_ms, track, data) \<Rightarrow> Some (unat pts_ms, unat track, 0, data)) events timings)"
proof -
  have fmt: "mw_audio_format writer = fmt"
    using assms(1) by (auto simp: matroska_new_def split: prod.splits sum.splits)
  obtain timings calls where stored: "stores cursor_ops delay events (capture_initial writer) s timings calls"
    using run_capture_session_stores [OF assms(2)] assms(3) by blast
  have timings: "fst (run_steps event_timing (synchronizer_new timestamp_ZERO) events) = map Inr timings"
    using stored by (simp add: stores_def capture_initial_def)
  note len = run_steps_initial_sync [OF timings]
  have filtered: "filter (\<lambda>c. c \<noteq> FlushFile) calls = map2 (stored_call delay) events timings"
    and accepted: "\<forall>c \<in> set calls. accepted_call fmt c"
    using stored fmt by (auto simp: stores_def capture_initial_def)
  have acc: "\<forall>c \<in> set (map2 (stored_call delay) events timings). accepted_call fmt c"
    using accepted unfolding filtered [symmetric] by auto
  note spec = stored_calls [OF len acc]
  have room: "calls_room calls < 2 ^ 55"
    using assms(4) spec calls_without_flush(2) [of calls] by (simp add: filtered)
  have clusters: "calls_clusters fmt calls = map2 (stored_cluster delay) events timings"
    using spec calls_without_flush(1) [of fmt calls] by (simp add: filtered)
  have ends: "calls_end fmt calls = foldl (\<lambda>e et. max e (stored_end delay et)) 0 (zip events timings)"
    using spec calls_without_flush(3) [of fmt 0 calls] by (simp add: filtered calls_end_def)
  have "write_cursor fmt calls = map_sum (\<lambda>e. e) cur_content (into_inner cursor_ops (cs_writer s))"
    using stored assms(1) by (simp add: write_cursor_def write_file_def stores_def capture_initial_def)
  then have stored_file: "map_sum (\<lambda>e. e) cur_content (into_inner cursor_ops (cs_writer s))
      = Inr (file_bytes fmt (duration_bits (calls_end fmt calls)) (calls_clusters fmt calls))"
    using write_cursor_bytes [OF room, of fmt] by simp
  have "map (\<lambda>(pts_ms, track, data). Some (unat pts_ms, unat track, 0, data)) (map2 (stored_cluster delay) events timings)
      = map2 (\<lambda>event timing. case stored_cluster delay event timing of
           (pts_ms, track, data) \<Rightarrow> Some (unat pts_ms, unat track, 0, data)) events timings"
    by (simp add: case_prod_unfold)
  then show ?thesis
    using timings stored_file read_file_bytes [OF calls_clusters_good [OF room, of fmt]]
    by (simp add: clusters ends)
qed



text \<open>Taking the audio or the video events out of a stably sorted list sorts them.\<close>

lemma audios_filter: "map AudioEvent (audios es) = filter (\<lambda>e. \<not> is_video e) es"
  by (induction es rule: audios.induct) auto

lemma videos_filter: "map VideoEvent (videos es) = filter is_video es"
  by (induction es rule: videos.induct) auto

lemma sort_key_map_inj: "sort_key f (map g xs) = map g (sort_key (f \<circ> g) xs)"
proof (induction xs)
  case (Cons x xs)
  have "insort_key f (g x) (map g ys) = map g (insort_key (f \<circ> g) x ys)" for ys
    by (induction ys) auto
  with Cons show ?case by (simp add: comp_def)
qed simp

lemma audios_sort:
  "audios (sort_key event_observed_timestamp es) = sort_key observed_start (audios es)"
proof -
  have "map AudioEvent (audios (sort_key event_observed_timestamp es))
      = sort_key event_observed_timestamp (map AudioEvent (audios es))"
    by (simp add: audios_filter filter_sort)
  also have "\<dots> = map AudioEvent (sort_key observed_start (audios es))"
    by (simp add: sort_key_map_inj comp_def event_observed_timestamp_def)
  finally show ?thesis by (metis (no_types) inj_map_eq_map inj_def timed_media_event.inject(2))
qed

lemma videos_sort:
  "videos (sort_key event_observed_timestamp es) = sort_key observed_at (videos es)"
proof -
  have "map VideoEvent (videos (sort_key event_observed_timestamp es))
      = sort_key event_observed_timestamp (map VideoEvent (videos es))"
    by (simp add: videos_filter filter_sort)
  also have "\<dots> = map VideoEvent (sort_key observed_at (videos es))"
    by (simp add: sort_key_map_inj comp_def event_observed_timestamp_def)
  finally show ?thesis by (metis (no_types) inj_map_eq_map inj_def timed_media_event.inject(1))
qed

lemma audios_append [simp]: "audios (xs @ ys) = audios xs @ audios ys"
  by (induction xs rule: audios.induct) auto

lemma videos_append [simp]: "videos (xs @ ys) = videos xs @ videos ys"
  by (induction xs rule: videos.induct) auto

lemma media_of_chunks [simp]: "audios (map AudioEvent cs) = cs" "videos (map AudioEvent cs) = []"
  by (induction cs) auto

lemma decoded_video_frames:
  "decoded_video session_origin events decoder lost = (media, decoder', lost') \<Longrightarrow>
     decoded_frames events decoder = (map tv_frame (videos media), decoder') \<and> audios media = []"
  by (induction session_origin events decoder lost arbitrary: media decoder' lost' rule: decoded_video.induct)
    (auto simp: video_event_def Let_def split: prod.splits sum.splits option.splits)

definition live_ticks :: "capture_tick list \<Rightarrow> capture_tick list" where
  "live_ticks ticks = takeWhile (\<lambda>t. \<not> ct_stopping t \<and> \<not> isl (ct_poll t)) ticks"

lemma capture_batches_media:
  "audios (concat (capture_batches session_origin ticks decoder lost))
     = concat (map (\<lambda>t. sort_key observed_start (chunks_of (ct_audio t))) (live_ticks ticks))
   \<and> mset (map tv_frame (videos (concat (capture_batches session_origin ticks decoder lost))))
     = mset (fst (decoded_frames (concat (map (projr \<circ> ct_poll) (live_ticks ticks))) decoder))
   \<and> list_all (\<lambda>batch. sorted (map event_observed_timestamp batch))
       (capture_batches session_origin ticks decoder lost)"
proof (induction session_origin ticks decoder lost rule: capture_batches.induct)
  case 1
  then show ?case by (simp add: live_ticks_def)
next
  case (2 session_origin t ts decoder lost)
  show ?case
  proof (cases "ct_stopping t \<or> isl (ct_poll t)")
    case True
    then show ?thesis by (auto simp: live_ticks_def isl_def)
  next
    case False
    then obtain events where poll: "ct_poll t = Inr events" by (cases "ct_poll t") auto
    obtain media decoder' lost' where media: "decoded_video session_origin events decoder lost = (media, decoder', lost')"
      by (metis prod_cases3)
    have frames: "decoded_frames events decoder = (map tv_frame (videos media), decoder')" "audios media = []"
      using decoded_video_frames [OF media] by auto
    have live: "live_ticks (t # ts) = t # live_ticks ts" using False by (simp add: live_ticks_def)
    show ?thesis
      using 2 [of events] False poll media frames
      by (simp add: live audios_sort videos_sort decoded_frames_append split: prod.split)
  qed
qed

text \<open>
  Property C7. Whatever the output, a capture session that is running or has ended
  successfully has handed everything on: the packets it has given to the writer are, in
  order, some events with the timings of one run of the synchronizer; the audio events are
  all chunks that arrived while the session was live, in the order of arrival up to the
  sorting by time within an iteration; the video events hold every frame that one decoder
  completes from all the packets exactly once.
\<close>

theorem capture_session_complete:
  assumes "run_capture_session text ops session_origin delay ticks (capture_initial writer)
      = (r :: ('h app_error + unit) option, s)"
    and "r = None \<or> r = Some (Inr ())"
  shows "\<exists>events timings calls.
    cs_writer s = snd (run_steps (writer_call ops) writer calls)
    \<and> filter (\<lambda>c. c \<noteq> FlushFile) calls = map2 (stored_call delay) events timings
    \<and> fst (run_steps event_timing (synchronizer_new timestamp_ZERO) events) = map Inr timings
    \<and> audios events = concat (map (\<lambda>t. sort_key observed_start (chunks_of (ct_audio t))) (live_ticks ticks))
    \<and> mset (map tv_frame (videos events))
      = mset (fst (decoded_frames (concat (map (projr \<circ> ct_poll) (live_ticks ticks))) decoder_new))"
proof -
  let ?events = "session_events session_origin ticks (capture_initial writer)"
  obtain timings calls where "stores ops delay ?events (capture_initial writer) s timings calls"
    using run_capture_session_stores [OF assms] by blast
  then show ?thesis
    using capture_batches_media [of session_origin ticks decoder_new False]
    by (intro exI [of _ ?events] exI [of _ timings] exI [of _ calls])
      (simp add: stores_def session_events_def capture_initial_def)
qed

subsection \<open>When a session fails\<close>

definition accepted_event :: "audio_format \<Rightarrow> timed_media_event \<Rightarrow> bool" where
  "accepted_event fmt event \<longleftrightarrow> (case event of AudioEvent chunk \<Rightarrow> accepts_audio fmt chunk | VideoEvent _ \<Rightarrow> True)"

lemma collect_audio_succeeds:
  "list_all (\<lambda>e. case e of Chunk _ \<Rightarrow> True | _ \<Rightarrow> False) events \<Longrightarrow>
     collect_audio events = Inr (map AudioEvent (chunks_of events))"
  by (induction events rule: collect_audio.induct) auto

lemma collect_usb_succeeds:
  "list_all (\<lambda>e. \<not> ends_session e) events \<Longrightarrow>
     collect_usb text session_origin events decoder lost = Inr (decoded_video session_origin events decoder lost)"
  by (induction session_origin events decoder lost rule: decoded_video.induct)
    (auto simp: ends_session_def split: prod.splits sum.splits option.splits)

text \<open>An iteration in which nothing goes wrong.\<close>

definition good_tick :: "audio_format \<Rightarrow> capture_tick \<Rightarrow> bool" where
  "good_tick fmt t \<longleftrightarrow>
     \<not> ct_stopping t
     \<and> list_all (\<lambda>e. case e of Chunk chunk \<Rightarrow> accepts_audio fmt chunk | _ \<Rightarrow> False) (ct_audio t)
     \<and> (case ct_poll t of Inr events \<Rightarrow> list_all (\<lambda>e. \<not> ends_session e) events | Inl _ \<Rightarrow> False)"

lemma chunks_of_set: "chunk \<in> set (chunks_of events) \<Longrightarrow> Chunk chunk \<in> set events"
  by (induction events rule: chunks_of.induct) auto

lemma audios_set: "AudioEvent c \<in> set es \<longleftrightarrow> c \<in> set (audios es)"
  by (induction es rule: audios.induct) auto

context seekable_output begin

lemma store_event_succeeds:
  assumes "writes (cs_writer s) fmt d cs end_us" and "accepted_event fmt event"
    and "sum_list (map cluster_room cs) + event_room event < 2 ^ 55"
  obtains s' d' cs' end' where "store_event ops delay event timing s = (Inr () :: 'h app_error + unit, s')"
    "writes (cs_writer s') fmt d' cs' end'"
    "sum_list (map cluster_room cs') = sum_list (map cluster_room cs) + event_room event"
    "cs_sync s' = cs_sync s"
    "cs_video_frames s' = cs_video_frames s + (if is_video event then 1 else 0)"
    "cs_audio_chunks s' = cs_audio_chunks s + (if is_video event then 0 else 1)"
proof (cases event)
  case (VideoEvent frame)
  have size: "length (fr_jpeg (tv_frame frame)) < 2 ^ 55"
    using assms(3) VideoEvent by (simp add: event_room_def)
  obtain mw' where "write_video ops (cs_writer s) frame timing = (Inr (), mw')"
    "writes mw' fmt d (cs @ [(pts_us timing div 1000, VIDEO_TRACK, fr_jpeg (tv_frame frame))])
      (max end_us (sat_add (pts_us timing) (duration_us timing)))"
    unfolding write_video_def by (rule write_media_writes [OF assms(1) size])
  then show ?thesis
    using that VideoEvent by (simp add: store_event_def event_room_def cluster_room_def)
next
  case (AudioEvent chunk)
  let ?t = "apply_audio_delay timing delay"
  have size: "length (pcm (ta_chunk chunk)) < 2 ^ 55"
    using assms(3) AudioEvent by (simp add: event_room_def)
  have accepts: "accepts_audio (mw_audio_format (cs_writer s)) chunk"
    using assms(1,2) AudioEvent by (simp add: writes_def accepted_event_def)
  obtain mw' where mw': "io_step (write_cluster (out_write_all ops) (pts_us ?t div 1000) AUDIO_TRACK
      (pcm (ta_chunk chunk)) (mw_output (cs_writer s))) (cs_writer s) (\<lambda>_ mw. (Inr (), note_end ?t mw)) = (Inr (), mw')"
    "writes mw' fmt d (cs @ [(pts_us ?t div 1000, AUDIO_TRACK, pcm (ta_chunk chunk))])
      (max end_us (sat_add (pts_us ?t) (duration_us ?t)))"
    by (rule write_media_writes [OF assms(1) size])
  then have "write_audio ops (cs_writer s) chunk ?t = (Inr (), mw')"
    using accepts by (simp add: write_audio_def accepts_audio_def Let_def)
  then show ?thesis
    using that mw'(2) AudioEvent by (simp add: store_event_def event_room_def cluster_room_def)
qed

lemma store_events_succeeds:
  assumes "writes (cs_writer s) fmt d cs end_us" and "list_all (accepted_event fmt) events"
    and "stream_start (cs_sync s) = timestamp_ZERO"
    and "sum_list (map cluster_room cs) + sum_list (map event_room events) < 2 ^ 55"
  obtains s' d' cs' end' where "store_events text ops delay events s = (Inr () :: 'h app_error + unit, s')"
    "writes (cs_writer s') fmt d' cs' end'"
    "sum_list (map cluster_room cs') = sum_list (map cluster_room cs) + sum_list (map event_room events)"
    "stream_start (cs_sync s') = timestamp_ZERO"
    "cs_video_frames s' = cs_video_frames s + of_nat (length (videos events))"
    "cs_audio_chunks s' = cs_audio_chunks s + of_nat (length (audios events))"
  using assms
proof (induction events arbitrary: s d cs end_us thesis)
  case Nil
  then show ?case by simp
next
  case (Cons event events)
  obtain timing sync where timing: "event_timing (cs_sync s) event = (Inr timing, sync)"
    "stream_start sync = timestamp_ZERO"
    by (rule event_timing_zero [OF Cons.prems(4)])
  let ?s = "note_drift event timing (s\<lparr>cs_sync := sync\<rparr>)"
  have pre: "writes (cs_writer ?s) fmt d cs end_us" "accepted_event fmt event"
    "sum_list (map cluster_room cs) + event_room event < 2 ^ 55"
    using Cons.prems by simp_all
  obtain s1 d1 cs1 end1 where s1: "store_event ops delay event timing ?s = (Inr () :: 'h app_error + unit, s1)"
    "writes (cs_writer s1) fmt d1 cs1 end1"
    "sum_list (map cluster_room cs1) = sum_list (map cluster_room cs) + event_room event"
    "cs_sync s1 = cs_sync ?s"
    "cs_video_frames s1 = cs_video_frames ?s + (if is_video event then 1 else 0)"
    "cs_audio_chunks s1 = cs_audio_chunks ?s + (if is_video event then 0 else 1)"
    by (rule store_event_succeeds [OF pre])
  obtain s2 d2 cs2 end2 where s2: "store_events text ops delay events s1 = (Inr () :: 'h app_error + unit, s2)"
    "writes (cs_writer s2) fmt d2 cs2 end2"
    "sum_list (map cluster_room cs2) = sum_list (map cluster_room cs1) + sum_list (map event_room events)"
    "stream_start (cs_sync s2) = timestamp_ZERO"
    "cs_video_frames s2 = cs_video_frames s1 + of_nat (length (videos events))"
    "cs_audio_chunks s2 = cs_audio_chunks s1 + of_nat (length (audios events))"
    by (rule Cons.IH [OF _ s1(2)]) (use Cons.prems s1 timing in simp_all)
  show ?case
  proof (rule Cons.prems(1))
    show "store_events text ops delay (event # events) s = (Inr () :: 'h app_error + unit, s2)"
      using timing(1) s1(1) s2(1) by simp
  qed (use s1 s2 in \<open>cases event; simp\<close>)+
qed

lemma capture_iteration_succeeds:
  assumes "writes (cs_writer s) fmt d cs end_us" and "good_tick fmt t"
    and "stream_start (cs_sync s) = timestamp_ZERO"
    and "sum_list (map cluster_room cs) + sum_list (map event_room (session_events session_origin [t] s)) < 2 ^ 55"
  obtains s' d' cs' end' where
    "capture_iteration text ops session_origin delay t s = (None :: ('h app_error + unit) option, s')"
    "writes (cs_writer s') fmt d' cs' end'"
    "sum_list (map cluster_room cs') = sum_list (map cluster_room cs)
      + sum_list (map event_room (session_events session_origin [t] s))"
    "stream_start (cs_sync s') = timestamp_ZERO"
    "cs_video_frames s' = cs_video_frames s + of_nat (length (videos (session_events session_origin [t] s)))"
    "cs_audio_chunks s' = cs_audio_chunks s + of_nat (length (audios (session_events session_origin [t] s)))"
    "session_events session_origin (t # ts) s
      = session_events session_origin [t] s @ session_events session_origin ts s'"
proof -
  obtain events where poll: "ct_poll t = Inr events" "list_all (\<lambda>e. \<not> ends_session e) events"
    using assms(2) by (auto simp: good_tick_def split: sum.splits)
  have audio: "collect_audio (ct_audio t) = (Inr (map AudioEvent (chunks_of (ct_audio t))) :: 'h app_error + _)"
    using assms(2) by (intro collect_audio_succeeds) (auto simp: good_tick_def list_all_iff split: audio_capture_event.splits)
  obtain video decoder lost where video: "decoded_video session_origin events (cs_decoder s) (cs_lost s) = (video, decoder, lost)"
    by (metis prod_cases3)
  have usb: "collect_usb text session_origin events (cs_decoder s) (cs_lost s) = (Inr (video, decoder, lost) :: 'h app_error + _)"
    using collect_usb_succeeds [OF poll(2)] video by metis
  let ?batch = "sort_key event_observed_timestamp (map AudioEvent (chunks_of (ct_audio t)) @ video)"
  let ?s = "s\<lparr>cs_decoder := decoder, cs_lost := lost\<rparr>"
  have batch: "session_events session_origin [t] s = ?batch"
    using assms(2) poll(1) video by (simp add: session_events_def good_tick_def)
  have "list_all (accepted_event fmt) ?batch"
    using assms(2) decoded_video_frames [OF video] chunks_of_set [of _ "ct_audio t"]
    by (auto simp: list_all_iff good_tick_def accepted_event_def split: timed_media_event.split)
      (use audios_set in force)+
  have room: "sum_list (map cluster_room cs) + sum_list (map event_room ?batch) < 2 ^ 55"
    using assms(4) batch by simp
  have start: "writes (cs_writer ?s) fmt d cs end_us" "stream_start (cs_sync ?s) = timestamp_ZERO"
    using assms by simp_all
  obtain s1 d1 cs1 end1 where s1: "store_events text ops delay ?batch ?s = (Inr () :: 'h app_error + unit, s1)"
    "writes (cs_writer s1) fmt d1 cs1 end1"
    "sum_list (map cluster_room cs1) = sum_list (map cluster_room cs) + sum_list (map event_room ?batch)"
    "stream_start (cs_sync s1) = timestamp_ZERO"
    "cs_video_frames s1 = cs_video_frames ?s + of_nat (length (videos ?batch))"
    "cs_audio_chunks s1 = cs_audio_chunks ?s + of_nat (length (audios ?batch))"
    by (rule store_events_succeeds [OF start(1) \<open>list_all (accepted_event fmt) ?batch\<close> start(2) room])
  have keep: "cs_decoder s1 = decoder" "cs_lost s1 = lost"
    using store_events_stores [OF s1(1)] by simp_all
  have rest: "session_events session_origin (t # ts) s
      = ?batch @ concat (capture_batches session_origin ts decoder lost)"
    using assms(2) poll(1) video by (simp add: session_events_def good_tick_def)
  obtain mw where mw: "matroska_flush ops (cs_writer s1) = (Inr (), mw)"
    "writes mw fmt (duration_bits end1) cs1 end1"
    by (rule flush_writes [OF s1(2)]) (use s1(3) room in simp)
  show ?thesis
  proof (cases "ct_report t")
    case False
    then have "capture_iteration text ops session_origin delay t s = (None :: ('h app_error + unit) option, s1)"
      using audio poll(1) usb s1(1) by (simp add: capture_iteration_def Let_def)
    from that [OF this s1(2)] show ?thesis
      using s1(3-6) keep rest by (simp add: batch session_events_def [of session_origin ts])
  next
    case True
    let ?s' = "s1\<lparr>cs_writer := mw\<rparr>"
    have "capture_iteration text ops session_origin delay t s = (None :: ('h app_error + unit) option, ?s')"
      using True audio poll(1) usb s1(1) mw(1) by (simp add: capture_iteration_def Let_def)
    from that [OF this] mw(2) show ?thesis
      using s1(3-6) keep rest by (simp add: batch session_events_def [of session_origin ts])
  qed
qed

lemma run_capture_session_succeeds:
  assumes "writes (cs_writer s) fmt d cs end_us" and "list_all (good_tick fmt) ticks"
    and "stream_start (cs_sync s) = timestamp_ZERO"
    and "sum_list (map cluster_room cs) + sum_list (map event_room (session_events session_origin ticks s)) < 2 ^ 55"
  shows "\<exists>s'. run_capture_session text ops session_origin delay ticks s = (None :: ('h app_error + unit) option, s')
    \<and> cs_video_frames s' = cs_video_frames s + of_nat (length (videos (session_events session_origin ticks s)))
    \<and> cs_audio_chunks s' = cs_audio_chunks s + of_nat (length (audios (session_events session_origin ticks s)))"
  using assms
proof (induction ticks arbitrary: s d cs end_us)
  case Nil
  then show ?case by (simp add: session_events_def)
next
  case (Cons t ticks)
  have good: "good_tick fmt t" using Cons.prems(2) by simp
  obtain events where "ct_poll t = Inr events"
    using good by (auto simp: good_tick_def split: sum.splits)
  moreover obtain video decoder lost where
    "decoded_video session_origin events (cs_decoder s) (cs_lost s) = (video, decoder, lost)"
    by (metis prod_cases3)
  ultimately have "session_events session_origin (t # ticks) s = session_events session_origin [t] s
      @ session_events session_origin ticks (s\<lparr>cs_decoder := decoder, cs_lost := lost\<rparr>)"
    using good by (simp add: session_events_def good_tick_def)
  then have "sum_list (map cluster_room cs) + sum_list (map event_room (session_events session_origin [t] s)) < 2 ^ 55"
    using Cons.prems(4) by auto
  then obtain s1 d1 cs1 end1 where s1:
    "capture_iteration text ops session_origin delay t s = (None :: ('h app_error + unit) option, s1)"
    "writes (cs_writer s1) fmt d1 cs1 end1"
    "sum_list (map cluster_room cs1) = sum_list (map cluster_room cs)
      + sum_list (map event_room (session_events session_origin [t] s))"
    "stream_start (cs_sync s1) = timestamp_ZERO"
    "cs_video_frames s1 = cs_video_frames s + of_nat (length (videos (session_events session_origin [t] s)))"
    "cs_audio_chunks s1 = cs_audio_chunks s + of_nat (length (audios (session_events session_origin [t] s)))"
    "session_events session_origin (t # ticks) s
      = session_events session_origin [t] s @ session_events session_origin ticks s1"
    by (rule capture_iteration_succeeds [OF Cons.prems(1) good Cons.prems(3)])
  have "\<exists>s'. run_capture_session text ops session_origin delay ticks s1 = (None :: ('h app_error + unit) option, s')
    \<and> cs_video_frames s' = cs_video_frames s1 + of_nat (length (videos (session_events session_origin ticks s1)))
    \<and> cs_audio_chunks s' = cs_audio_chunks s1 + of_nat (length (audios (session_events session_origin ticks s1)))"
    by (rule Cons.IH [OF s1(2)]) (use Cons.prems s1 in simp_all)
  moreover have "\<not> ct_stopping t" using good by (simp add: good_tick_def)
  ultimately show ?case
    using s1 by (auto simp: algebra_simps)
qed

end

text \<open>The end of a session whose iterations were all good.\<close>

lemma run_capture_session_append:
  "run_capture_session text ops session_origin delay (xs @ ys) s =
     (case run_capture_session text ops session_origin delay xs s of
        (Some r, s) \<Rightarrow> (Some r, s)
      | (None, s) \<Rightarrow> run_capture_session text ops session_origin delay ys s)"
  by (induction xs arbitrary: s) (auto split: prod.split option.split)

lemma event_count_room: "48 * length es \<le> sum_list (map event_room es)"
proof (induction es)
  case (Cons e es)
  then show ?case by (cases e) (auto simp: event_room_def)
qed simp

lemma media_count: "length (videos es) + length (audios es) = length es"
  by (induction es rule: videos.induct) auto

lemma good_session_ends:
  assumes "matroska_new cursor_ops empty_cursor fmt = Inr writer"
    and "list_all (good_tick fmt) ticks" and "ct_stopping final"
    and "events = session_events session_origin ticks (capture_initial writer)"
    and "audios events \<noteq> []" and "videos events \<noteq> []"
    and "sum_list (map event_room events) < 2 ^ 55"
  shows "\<exists>s. run_capture_session text cursor_ops session_origin delay (ticks @ [final]) (capture_initial writer)
    = (Some (Inr ()) :: ('h app_error + unit) option, s)"
proof -
  obtain mw where "matroska_new cursor_ops empty_cursor fmt = Inr mw" "cursor_out.writes mw fmt 0 [] 0"
    by (rule cursor_out.matroska_new_writes [of empty_cursor fmt]) (simp_all add: empty_cursor_def)
  then have start: "cursor_out.writes (cs_writer (capture_initial writer)) fmt 0 [] 0"
    using assms(1) by (simp add: capture_initial_def)
  have "stream_start (cs_sync (capture_initial writer)) = timestamp_ZERO"
    by (simp add: capture_initial_def synchronizer_new_def)
  moreover have "sum_list (map cluster_room []) + sum_list (map event_room
      (session_events session_origin ticks (capture_initial writer))) < 2 ^ 55"
    using assms(4,7) by simp
  ultimately have "\<exists>s. run_capture_session text cursor_ops session_origin delay ticks (capture_initial writer)
      = (None :: ('h app_error + unit) option, s)
    \<and> cs_video_frames s = cs_video_frames (capture_initial writer) + of_nat (length (videos events))
    \<and> cs_audio_chunks s = cs_audio_chunks (capture_initial writer) + of_nat (length (audios events))"
    unfolding assms(4) by (rule cursor_out.run_capture_session_succeeds [OF start assms(2)])
  then obtain s where s:
    "run_capture_session text cursor_ops session_origin delay ticks (capture_initial writer)
      = (None :: ('h app_error + unit) option, s)"
    "cs_video_frames s = of_nat (length (videos events))" "cs_audio_chunks s = of_nat (length (audios events))"
    by (auto simp: capture_initial_def)
  have "length events < 2 ^ 64" using event_count_room [of events] assms(7) by simp
  then have "length (videos events) < 2 ^ 64" "length (audios events) < 2 ^ 64"
    using media_count [of events] by simp_all
  then have "unat (of_nat (length (videos events)) :: u64) = length (videos events)"
    "unat (of_nat (length (audios events)) :: u64) = length (audios events)"
    by (simp_all add: unat_of_nat take_bit_nat_eq_self)
  then have "cs_video_frames s \<noteq> 0" "cs_audio_chunks s \<noteq> 0"
    using s(2,3) assms(5,6) by (auto simp: word_unat_eq_iff)
  then show ?thesis
    using s(1) assms(3) by (simp add: run_capture_session_append)
qed

text \<open>
  Property C9. A capture only fails for a reason: when every chunk has the format and length
  of the camera's audio, no poll fails and no event ends the camera session, then the session
  on a fresh file runs on until the stop flag is set, and ends successfully if at least one
  chunk and one frame were stored.
\<close>

theorem capture_session_succeeds:
  assumes "matroska_new cursor_ops empty_cursor fmt = Inr writer"
    and "list_all (good_tick fmt) ticks" and "ct_stopping final"
    and "events = session_events session_origin ticks (capture_initial writer)"
    and "audios events \<noteq> []" and "videos events \<noteq> []"
    and "sum_list (map event_room events) < 2 ^ 55"
  shows "\<exists>s. run_capture_session text cursor_ops session_origin delay (ticks @ [final]) (capture_initial writer)
    = (Some (Inr ()) :: ('h app_error + unit) option, s)"
  by (rule good_session_ends [OF assms])

subsection \<open>A sample session\<close>

text \<open>A whole period from \<open>arecord\<close>, read 50 milliseconds after the earliest instant.\<close>

definition sample_chunk :: timed_audio_chunk where
  "sample_chunk = arecord_chunk camera_format 0 0 50000000 (replicate 2560 7)"

definition sample_tick :: capture_tick where
  "sample_tick =
     \<lparr>ct_stopping = False, ct_audio = [Chunk sample_chunk], ct_poll = Inr sample_usb,
      ct_stopping_after = False, ct_report = True\<rparr>"

definition stop_tick :: capture_tick where
  "stop_tick =
     \<lparr>ct_stopping = True, ct_audio = [], ct_poll = Inr [], ct_stopping_after = False, ct_report = False\<rparr>"

lemma event_room_media:
  "sum_list (map event_room es) =
     sum_mset (image_mset (\<lambda>f. length (fr_jpeg f) + 48) (mset (map tv_frame (videos es))))
     + sum_list (map (\<lambda>c. length (pcm (ta_chunk c)) + 48) (audios es))"
  by (induction es rule: videos.induct) (auto simp: event_room_def)

lemma sample_chunk_accepted: "accepts_audio camera_format sample_chunk"
  by (simp add: accepts_audio_def sample_chunk_def arecord_chunk_def expected_pcm_length_def camera_format_def usize_MAX_def)

lemma sample_session:
  assumes "events = session_events 0 [sample_tick] (capture_initial writer)"
  shows "list_all (good_tick camera_format) [sample_tick]"
    and "audios events = [sample_chunk]" and "length (videos events) = 2"
    and "sum_list (map event_room events) < 2 ^ 55"
proof -
  have usb: "list_all (\<lambda>e. \<not> ends_session e) sample_usb"
    by (simp add: sample_usb_def list_all_iff ends_session_def)
  then show "list_all (good_tick camera_format) [sample_tick]"
    using sample_chunk_accepted by (simp add: good_tick_def sample_tick_def)
  have live: "live_ticks [sample_tick] = [sample_tick]" by (simp add: live_ticks_def sample_tick_def)
  have media: "audios events = [sample_chunk]"
    "mset (map tv_frame (videos events)) = mset (map tv_frame sample_decoded)"
    using capture_batches_media [of 0 "[sample_tick]" decoder_new False] sample_frames_decoded
    by (simp_all add: assms session_events_def capture_initial_def live) (simp_all add: sample_tick_def)
  then show "audios events = [sample_chunk]" by simp
  have "length (map tv_frame (videos events)) = length (map tv_frame sample_decoded)"
    using media(2) by (rule mset_eq_length)
  then show "length (videos events) = 2" by (simp add: sample_decoded_def)
  have "length JPEG_HEADER = 623" "length (stuff_bytes (replicate 6 0xff @ [1, 1, 5])) = 15"
    by code_simp+
  then show "sum_list (map event_room events) < 2 ^ 55"
    unfolding event_room_media media by (simp add: sample_decoded_def sample_chunk_def arecord_chunk_def)
qed


lemma sample_writer:
  obtains writer where "matroska_new cursor_ops empty_cursor camera_format = Inr writer"
  by (rule cursor_out.matroska_new_writes [of empty_cursor camera_format]) (auto simp: empty_cursor_def)

abbreviation sample_text :: app_text where
  "sample_text \<equiv> \<lparr>tx_event = \<lambda>_. ''event'', tx_sync = \<lambda>_. ''sync'', tx_usb = \<lambda>_. ''usb''\<rparr>"

lemma capture_session_succeeds_witness:
  "\<exists>writer s. matroska_new cursor_ops empty_cursor camera_format = Inr writer
    \<and> run_capture_session sample_text cursor_ops 0 (- 60) ([sample_tick] @ [stop_tick]) (capture_initial writer)
      = (Some (Inr ()) :: (string app_error + unit) option, s)"
proof (rule sample_writer)
  fix writer assume w: "matroska_new cursor_ops empty_cursor camera_format = Inr writer"
  let ?events = "session_events 0 [sample_tick] (capture_initial writer)"
  note sample = sample_session [of ?events writer, OF refl]
  have "audios ?events \<noteq> []" "videos ?events \<noteq> []" using sample(2,3) by auto
  from capture_session_succeeds [OF w sample(1) _ refl this sample(4), of stop_tick sample_text "- 60"] w
  show ?thesis by (simp add: stop_tick_def)
qed

lemma sample_session_run:
  assumes "matroska_new cursor_ops empty_cursor camera_format = Inr writer"
  obtains s where "run_capture_session sample_text cursor_ops 0 delay ([sample_tick] @ [stop_tick]) (capture_initial writer)
      = (Some (Inr ()) :: (string app_error + unit) option, s)"
proof -
  let ?events = "session_events 0 [sample_tick] (capture_initial writer)"
  note sample = sample_session [of ?events writer, OF refl]
  have "audios ?events \<noteq> []" "videos ?events \<noteq> []" using sample(2,3) by auto
  from good_session_ends [OF assms sample(1) _ refl this sample(4), of stop_tick sample_text delay] that
  show ?thesis by (auto simp: stop_tick_def)
qed

lemma sample_events_stop:
  "session_events 0 ([sample_tick] @ [stop_tick]) s = session_events 0 [sample_tick] s"
  by (simp add: session_events_def sample_tick_def stop_tick_def split: prod.split)

lemma capture_session_complete_witness:
  "\<exists>events timings. fst (run_steps event_timing (synchronizer_new timestamp_ZERO) events) = map Inr timings
    \<and> audios events = [sample_chunk] \<and> mset (map tv_frame (videos events)) = mset (map tv_frame sample_decoded)"
proof (rule sample_writer)
  fix writer assume w: "matroska_new cursor_ops empty_cursor camera_format = Inr writer"
  obtain s where run: "run_capture_session sample_text cursor_ops 0 0 ([sample_tick] @ [stop_tick]) (capture_initial writer)
      = (Some (Inr ()) :: (string app_error + unit) option, s)"
    by (rule sample_session_run [OF w])
  have live: "live_ticks ([sample_tick] @ [stop_tick]) = [sample_tick]"
    by (simp add: live_ticks_def sample_tick_def stop_tick_def)
  have tick: "ct_audio sample_tick = [Chunk sample_chunk]" "ct_poll sample_tick = Inr sample_usb"
    by (simp_all add: sample_tick_def)
  show ?thesis
    using capture_session_complete [OF run] sample_frames_decoded unfolding live by (auto simp: tick)
qed

subsection \<open>The audio delay\<close>

lemma uint_unsigned_abs: "int (unat (unsigned_abs x)) = \<bar>sint x\<bar>"
proof -
  have range: "- (2 ^ 63) \<le> sint x" "sint x < 2 ^ 63"
    using sint_greater_eq [of x] sint_less [of x] by simp_all
  have "uint x = sint x" if "0 \<le> sint x"
  proof -
    have "uint x = sint x mod 2 ^ 64"
      using uint_word_of_int [of "sint x", where 'a = 64] by simp
    then show ?thesis using that range by simp
  qed
  moreover have "uint (- x) = - sint x" if "sint x < 0"
  proof -
    have "uint (- x) = (- sint x) mod 2 ^ 64"
      using uint_word_of_int [of "- sint x", where 'a = 64] by simp
    then show ?thesis using that range by simp
  qed
  ultimately show ?thesis by (simp add: unsigned_abs_def)
qed

lemma delay_clamp:
  "P < 2 ^ 64 \<Longrightarrow> int A = \<bar>d\<bar> \<Longrightarrow>
     int (if 0 \<le> d then min (P + min (A * 1000) (2 ^ 64 - 1)) (2 ^ 64 - 1)
          else P - min (A * 1000) (2 ^ 64 - 1)) = clamp_u64 (int P + d * 1000)"
  by (auto simp: clamp_u64_def min_def max_def)

text \<open>
  The audio delay shifts the presentation time by exactly the given number of
  milliseconds in either direction, clamped to the range of the time stamps, for every
  delay, and changes nothing else.
\<close>

theorem audio_delay_exact:
  "uint (pts_us (apply_audio_delay timing delay_ms)) = clamp_u64 (uint (pts_us timing) + sint delay_ms * 1000)
   \<and> (apply_audio_delay timing delay_ms)\<lparr>pts_us := pts_us timing\<rparr> = timing"
proof -
  let ?a = "unat (unsigned_abs delay_ms)" and ?p = "unat (pts_us timing)"
  have p: "?p < 2 ^ 64" using u64_bound [of "pts_us timing"] by simp
  have a: "int ?a = \<bar>sint delay_ms\<bar>" by (rule uint_unsigned_abs)
  have "unat (pts_us (apply_audio_delay timing delay_ms)) =
      (if 0 \<le> sint delay_ms then min (?p + min (?a * 1000) (2 ^ 64 - 1)) (2 ^ 64 - 1)
       else ?p - min (?a * 1000) (2 ^ 64 - 1))"
    by (simp add: apply_audio_delay_def unat_sat_add unat_sat_sub unat_sat_mul Let_def)
  then have "uint (pts_us (apply_audio_delay timing delay_ms)) = clamp_u64 (int ?p + sint delay_ms * 1000)"
    by (simp only: uint_nat delay_clamp [OF p a])
  then show ?thesis by (simp add: apply_audio_delay_def Let_def)
qed


subsection \<open>The captured file\<close>

lemma run_capture_success:
  assumes "run_capture text hex_decode embedded ops env args session_origin ticks
      = (Some (Inr ()) :: ('h app_error + unit) option, Some output)"
    and "ce_create env = Inr fresh"
  obtains writer s where "matroska_new ops fresh camera_format = Inr writer"
    "run_capture_session text ops session_origin (ca_audio_delay_ms args) ticks (capture_initial writer)
      = (Some (Inr ()) :: ('h app_error + unit) option, s)"
    "into_inner ops (cs_writer s) = Inr output"
  using assms
  by (auto simp: run_capture_def capture_setup_def into_inner_def
      split: sum.splits prod.splits option.splits)

lemma run_capture_file:
  assumes "run_capture text hex_decode embedded cursor_ops env args session_origin ticks
      = (Some (Inr ()) :: ('h app_error + unit) option, Some output)"
    and "ce_create env = Inr empty_cursor"
    and "events = concat (capture_batches session_origin ticks decoder_new False)"
    and "sum_list (map event_room events) < 2 ^ 55"
  shows "\<exists>timings.
    fst (run_steps event_timing (synchronizer_new timestamp_ZERO) events) = map Inr timings
    \<and> read_file (cur_content output) = Some
        (Some (be_bytes 8 (duration_bits
           (foldl (\<lambda>e et. max e (stored_end (ca_audio_delay_ms args) et)) 0 (zip events timings)))),
         map2 (\<lambda>event timing. case stored_cluster (ca_audio_delay_ms args) event timing of
           (pts_ms, track, data) \<Rightarrow> Some (unat pts_ms, unat track, 0, data)) events timings)"
proof (rule run_capture_success [OF assms(1,2)])
  fix writer s
  assume "matroska_new cursor_ops empty_cursor camera_format = Inr writer"
    and run: "run_capture_session text cursor_ops session_origin (ca_audio_delay_ms args) ticks (capture_initial writer)
      = (Some (Inr ()) :: ('h app_error + unit) option, s)"
    and out: "into_inner cursor_ops (cs_writer s) = Inr output"
  moreover have "events = session_events session_origin ticks (capture_initial writer)"
    by (simp add: assms(3) session_events_def capture_initial_def)
  ultimately show ?thesis
    using capture_session_file [OF _ run _ assms(4)] by auto
qed

text \<open>
  Property C1. When \<open>handycam capture\<close> into a fresh file succeeds, the file reads back as
  exactly the reference events of the session (the chunks received and the frames decoded,
  ordered by observation within each iteration), each with the time that one run of the
  synchronizer over all of them gives, shifted by the delay for audio, and with the duration
  of the latest end; the periodic flushes leave no trace.
\<close>

theorem capture_file_contents:
  assumes "run_capture text hex_decode embedded cursor_ops env args session_origin ticks
      = (Some (Inr ()) :: ('h app_error + unit) option, Some output)"
    and "ce_create env = Inr empty_cursor"
    and "events = concat (capture_batches session_origin ticks decoder_new False)"
    and "sum_list (map event_room events) < 2 ^ 55"
  shows "\<exists>timings.
    fst (run_steps event_timing (synchronizer_new timestamp_ZERO) events) = map Inr timings
    \<and> read_file (cur_content output) = Some
        (Some (be_bytes 8 (duration_bits
           (foldl (\<lambda>e et. max e (stored_end (ca_audio_delay_ms args) et)) 0 (zip events timings)))),
         map2 (\<lambda>event timing. case stored_cluster (ca_audio_delay_ms args) event timing of
           (pts_ms, track, data) \<Rightarrow> Some (unat pts_ms, unat track, 0, data)) events timings)"
  by (rule run_capture_file [OF assms])

definition sample_env :: "cursor capture_env" where
  "sample_env =
     \<lparr>ce_read_plan = (\<lambda>_. Inr []), ce_signals = Inr (), ce_open = (\<lambda>_ _. Inr ()), ce_audio = Inr (),
      ce_create = Inr empty_cursor, ce_audio_stop = Inr ()\<rparr>"

definition sample_args :: capture_args where
  "sample_args =
     \<lparr>ca_output = ''out.mkv'', ca_audio_delay_ms = - 60, ca_init_plan = None, ca_quality = None,
      ca_semantic_init = False, ca_playback_init = False\<rparr>"

lemma sample_captured:
  assumes "ca_init_plan args = None" and "ca_quality args = None"
  obtains out where "run_capture sample_text (\<lambda>_. Inl ''none'') [] cursor_ops sample_env args 0
      ([sample_tick] @ [stop_tick]) = (Some (Inr ()) :: (string app_error + unit) option, Some out)"
proof (rule sample_writer)
  fix writer assume w: "matroska_new cursor_ops empty_cursor camera_format = Inr writer"
  let ?delay = "ca_audio_delay_ms args"
  obtain s where run: "run_capture_session sample_text cursor_ops 0 ?delay ([sample_tick] @ [stop_tick]) (capture_initial writer)
      = (Some (Inr ()) :: (string app_error + unit) option, s)"
    by (rule sample_session_run [OF w])
  let ?events = "session_events 0 ([sample_tick] @ [stop_tick]) (capture_initial writer)"
  have "sum_list (map event_room ?events) < 2 ^ 55"
    using sample_session(4) [OF refl, of writer] by (simp add: sample_events_stop del: append.simps)
  then obtain content where "map_sum (\<lambda>e. e) cur_content (into_inner cursor_ops (cs_writer s)) = Inr content"
    using capture_session_file [OF w run refl] by blast
  then obtain out mw where flush: "matroska_flush cursor_ops (cs_writer s) = (Inr (), mw)" "out = mw_output mw"
    by (cases "into_inner cursor_ops (cs_writer s)") (auto simp: into_inner_def split: prod.splits sum.splits)
  have prepared: "capture_setup (\<lambda>_. Inl ''none'') [] cursor_ops sample_env args
      = (Inr writer :: string app_error + cursor matroska_writer)"
    using w assms by (simp add: capture_setup_def sample_env_def load_plan_def apply_quality_def
        record_mode_init_plan_def parse_init_plan_def str_lines_def)
  have env: "ce_audio_stop sample_env = Inr ()" by (simp add: sample_env_def)
  have "run_capture sample_text (\<lambda>_. Inl ''none'') [] cursor_ops sample_env args 0
      ([sample_tick] @ [stop_tick]) = (Some (Inr ()) :: (string app_error + unit) option, Some out)"
    unfolding run_capture_def prepared sum.case env run using flush by simp
  then show ?thesis by (rule that)
qed

lemma sample_events_count:
  "length (concat (capture_batches 0 ([sample_tick] @ [stop_tick]) decoder_new False)) = 3"
  "sum_list (map event_room (concat (capture_batches 0 ([sample_tick] @ [stop_tick]) decoder_new False))) < 2 ^ 55"
proof -
  let ?events = "concat (capture_batches 0 ([sample_tick] @ [stop_tick]) decoder_new False)"
  obtain writer where "matroska_new cursor_ops empty_cursor camera_format = Inr writer" by (rule sample_writer)
  have events: "?events = session_events 0 [sample_tick] (capture_initial writer)"
    using sample_events_stop [of "capture_initial writer"] by (simp add: session_events_def capture_initial_def)
  note sample = sample_session [OF events]
  show "length ?events = 3" using media_count [of ?events] sample(2,3) by simp
  show "sum_list (map event_room ?events) < 2 ^ 55" by (rule sample(4))
qed

lemma capture_file_contents_witness:
  "\<exists>output duration clusters.
      run_capture sample_text (\<lambda>_. Inl ''none'') [] cursor_ops sample_env sample_args 0 ([sample_tick] @ [stop_tick])
        = (Some (Inr ()), Some output)
    \<and> read_file (cur_content output) = Some (Some duration, clusters) \<and> length clusters = 3"
proof -
  let ?events = "concat (capture_batches 0 ([sample_tick] @ [stop_tick]) decoder_new False)"
  obtain out where ran: "run_capture sample_text (\<lambda>_. Inl ''none'') [] cursor_ops sample_env sample_args 0
      ([sample_tick] @ [stop_tick]) = (Some (Inr ()) :: (string app_error + unit) option, Some out)"
    by (rule sample_captured [of sample_args]) (simp_all add: sample_args_def)
  have env: "ce_create sample_env = Inr empty_cursor" by (simp add: sample_env_def)
  obtain timings where timings:
    "fst (run_steps event_timing (synchronizer_new timestamp_ZERO) ?events) = map Inr timings"
    "read_file (cur_content out) = Some
        (Some (be_bytes 8 (duration_bits
           (foldl (\<lambda>e et. max e (stored_end (ca_audio_delay_ms sample_args) et)) 0 (zip ?events timings)))),
         map2 (\<lambda>event timing. case stored_cluster (ca_audio_delay_ms sample_args) event timing of
           (pts_ms, track, data) \<Rightarrow> Some (unat pts_ms, unat track, 0, data)) ?events timings)"
    using capture_file_contents [OF ran env refl sample_events_count(2)] by blast
  have "length timings = 3" using run_steps_initial_sync [OF timings(1)] sample_events_count(1) by simp
  then have "length (zip ?events timings) = 3" using sample_events_count(1) by simp
  then show ?thesis using ran timings(2) by (metis (no_types, lifting) length_map)
qed

end
