(* ===== verification/Capture_Audio.thy ===== *)
theory Capture_Audio
  imports Capture_File "HOL-Library.Sublist"
begin

section \<open>From the sound card to the file\<close>

text \<open>
  The capture command together with its \<open>arecord\<close> worker
  (\<open>crates/handycam-linux-audio/src/lib.rs\<close>): the bytes of the PCM stream, cut into periods by
  the worker, through its channel, the synchronizer and the writer, to the audio track of the
  file.
\<close>

subsection \<open>A worker with any clock\<close>

text \<open>A byte stream, a channel that is received, and a clock with arbitrary readings.\<close>

record clocked_reader =
  ck_stream :: bytes
  ck_clock :: "nat \<Rightarrow> nat"
  ck_times :: "nat list"
  ck_sent :: "audio_capture_event list"

definition clocked_ops :: "clocked_reader reader_ops" where
  "clocked_ops =
     \<lparr>rd_read_exact = (\<lambda>n w. if n \<le> length (ck_stream w)
        then (Inr (take n (ck_stream w)), w\<lparr>ck_stream := drop n (ck_stream w)\<rparr>)
        else (Inl UnexpectedEof, w\<lparr>ck_stream := []\<rparr>)),
      rd_now = (\<lambda>w. let t = ck_clock w (length (ck_times w)) in (t, w\<lparr>ck_times := ck_times w @ [t]\<rparr>)),
      rd_send = (\<lambda>e w. (True, w\<lparr>ck_sent := ck_sent w @ [e]\<rparr>))\<rparr>"

interpretation clocked: pcm_reader clocked_ops ck_stream ck_times ck_sent
  by unfold_locales (auto simp: clocked_ops_def Let_def)

definition recording :: "bytes \<Rightarrow> (nat \<Rightarrow> nat) \<Rightarrow> clocked_reader" where
  "recording pcm_stream clock = \<lparr>ck_stream = pcm_stream, ck_clock = clock, ck_times = [], ck_sent = []\<rparr>"

lemma recorded_chunks:
  assumes "arecord_run_capture clocked_ops session_origin steps (recording pcm_stream clock) = (e, reader)"
    and "length pcm_stream div 2560 < steps"
  shows "length (ck_times reader) = length pcm_stream div 2560
    \<and> ck_sent reader = map Chunk (arecord_chunks camera_format session_origin 0 (ck_times reader)
        (periods (length pcm_stream div 2560) pcm_stream)) @ [Closed]"
  using clocked.capture_loop_reads [of "recording pcm_stream clock" steps camera_format session_origin audio_clock_new] assms
  by (auto simp: arecord_run_capture_def recording_def audio_clock_new_def)

subsection \<open>The chunks of a stream\<close>

lemma arecord_chunks_nth:
  "length ts = length ps \<Longrightarrow> i < length ts \<Longrightarrow>
     arecord_chunks format origin' start ts ps ! i = arecord_chunk format origin' (start + 640 * of_nat i) (ts ! i) (ps ! i)"
proof (induction format origin' start ts ps arbitrary: i rule: arecord_chunks.induct)
  case (1 format origin' start t ts p ps)
  then show ?case by (cases i) (simp_all add: algebra_simps)
qed auto

lemma length_arecord_chunks [simp]:
  "length (arecord_chunks format origin' start ts ps) = min (length ts) (length ps)"
  by (induction format origin' start ts ps rule: arecord_chunks.induct) simp_all

lemma periods_nth: "i < n \<Longrightarrow> periods n bs ! i = take 2560 (drop (2560 * i) bs)"
proof (induction n bs arbitrary: i rule: periods.induct)
  case (2 n bs)
  then show ?case by (cases i) (simp_all add: add.commute)
qed simp

lemma micros_since_mono: "s \<le> t \<Longrightarrow> micros_since origin' s \<le> micros_since origin' t"
  using div_le_mono [OF diff_le_mono, of s t origin' 1000]
  unfolding micros_since_def word_le_nat_alt by (auto simp: unat_of_nat min_def)

text \<open>Chunks read at growing times are ordered by their observation.\<close>

lemma arecord_chunks_sorted:
  assumes "sorted ts" and "\<forall>t \<in> set ts. 40000000 \<le> t" and "length ps = length ts"
  shows "sorted (map observed_start (arecord_chunks format origin' start ts ps))"
  unfolding sorted_iff_nth_mono
proof (intro allI impI)
  fix i j assume ij: "i \<le> j" "j < length (map observed_start (arecord_chunks format origin' start ts ps))"
  have observed: "observed_start (arecord_chunks format origin' start ts ps ! k)
      = from_micros (micros_since origin' (ts ! k - 40000000))" if "k \<le> j" for k
    using that ij assms(2,3) by (simp add: arecord_chunks_nth arecord_chunk_def)
  have "ts ! i - 40000000 \<le> ts ! j - 40000000"
    using assms(1,3) ij by (simp add: sorted_iff_nth_mono diff_le_mono)
  then show "map observed_start (arecord_chunks format origin' start ts ps) ! i
      \<le> map observed_start (arecord_chunks format origin' start ts ps) ! j"
    using ij micros_since_mono by (simp add: observed from_micros_def)
qed

subsection \<open>The tracks of a file\<close>

text \<open>The time and data of the blocks of a track.\<close>

definition track_blocks :: "u8 \<Rightarrow> (nat \<times> nat \<times> nat \<times> bytes) option list \<Rightarrow> (nat \<times> bytes) list" where
  "track_blocks track clusters =
     concat (map (\<lambda>c. case c of
       Some (pts_ms, t, flags, data) \<Rightarrow> if t = unat track then [(pts_ms, data)] else []
     | None \<Rightarrow> []) clusters)"

lemma stored_track_blocks:
  assumes "length timings = length events"
    and clusters: "clusters = map2 (\<lambda>event timing. case stored_cluster delay event timing of
           (pts_ms, track, data) \<Rightarrow> Some (unat pts_ms, unat track, 0, data)) events timings"
  shows "track_blocks AUDIO_TRACK clusters
      = map2 (\<lambda>chunk timing. (unat (pts_us (apply_audio_delay timing delay) div 1000), pcm (ta_chunk chunk)))
          (audios events) (results_for (\<lambda>e. \<not> is_video e) events timings)"
    and "map snd (track_blocks VIDEO_TRACK clusters) = map (fr_jpeg \<circ> tv_frame) (videos events)"
proof -
  have "track_blocks AUDIO_TRACK clusters
      = map2 (\<lambda>chunk timing. (unat (pts_us (apply_audio_delay timing delay) div 1000), pcm (ta_chunk chunk)))
          (audios events) (results_for (\<lambda>e. \<not> is_video e) events timings)
    \<and> map snd (track_blocks VIDEO_TRACK clusters) = map (fr_jpeg \<circ> tv_frame) (videos events)"
    unfolding clusters using assms(1)
  proof (induction timings events rule: list_induct2)
    case (Cons timing timings event events)
    then show ?case
      by (cases event)
        (simp_all add: track_blocks_def stored_cluster_def stored_timing_def AUDIO_TRACK_def VIDEO_TRACK_def)
  qed (simp add: track_blocks_def results_for_def)
  then show "track_blocks AUDIO_TRACK clusters
      = map2 (\<lambda>chunk timing. (unat (pts_us (apply_audio_delay timing delay) div 1000), pcm (ta_chunk chunk)))
          (audios events) (results_for (\<lambda>e. \<not> is_video e) events timings)"
    and "map snd (track_blocks VIDEO_TRACK clusters) = map (fr_jpeg \<circ> tv_frame) (videos events)" by blast+
qed

subsection \<open>What the command has received\<close>

lemma chunks_of_append [simp]: "chunks_of (xs @ ys) = chunks_of xs @ chunks_of ys"
  by (induction xs rule: chunks_of.induct) simp_all

lemma chunks_of_concat: "chunks_of (concat xss) = concat (map chunks_of xss)"
  by (induction xss) simp_all

lemma chunks_of_chunks [simp]: "chunks_of (map Chunk cs) = cs"
  by (induction cs) simp_all

lemma concat_sorted_parts:
  "sorted (map f (concat xss)) \<Longrightarrow> concat (map (sort_key f) xss) = concat xss"
  by (induction xss) (simp_all add: sorted_append sort_key_id_if_sorted)

lemma received_chunks:
  assumes "ck_sent reader = map Chunk cs @ [Closed]"
    and "prefix (concat (map ct_audio ts)) (ck_sent reader)"
    and "sorted (map observed_start cs)"
  defines "n \<equiv> length (chunks_of (concat (map ct_audio ts)))"
  shows "n \<le> length cs \<and> concat (map (\<lambda>t. sort_key observed_start (chunks_of (ct_audio t))) ts) = take n cs"
proof -
  obtain rest where "ck_sent reader = concat (map ct_audio ts) @ rest" using assms(2) by (auto simp: prefix_def)
  then have "chunks_of (map Chunk cs @ [Closed]) = chunks_of (concat (map ct_audio ts) @ rest)"
    using assms(1) by simp
  then have parts: "cs = concat (map (chunks_of \<circ> ct_audio) ts) @ chunks_of rest"
    by (simp add: chunks_of_concat)
  then have "sorted (map observed_start (concat (map (chunks_of \<circ> ct_audio) ts)))"
    using assms(3) by (metis map_append sorted_append)
  from concat_sorted_parts [OF this] parts show ?thesis by (simp add: n_def chunks_of_concat comp_def)
qed

subsection \<open>The audio track\<close>

text \<open>
  The time of block \<open>i\<close>: 40 milliseconds after the one before, shifted by the delay that
  the user asked for, within the range of the time stamps.
\<close>

definition block_ms :: "nat \<Rightarrow> i64 \<Rightarrow> nat \<Rightarrow> nat" where
  "block_ms first_ms delay_ms i =
     nat (min ((2 ^ 64 - 1) div 1000) (max 0 (int first_ms + 40 * int i + sint delay_ms)))"

lemma clamped_ms:
  "nat (clamp_u64 (x + d * 1000)) div 1000 = nat (min ((2 ^ 64 - 1) div 1000) (max 0 (x div 1000 + d)))"
proof -
  have "(x + d * 1000) div 1000 = x div 1000 + d" by simp
  moreover have "clamp_u64 y div 1000 = min ((2 ^ 64 - 1) div 1000) (max 0 (y div 1000))" for y
    by (auto simp: clamp_u64_def min_def max_def)
  moreover have "0 \<le> clamp_u64 (x + d * 1000)" by (simp add: clamp_u64_def)
  ultimately show ?thesis
    using nat_div_distrib [of "clamp_u64 (x + d * 1000)" 1000] by (simp add: add.commute)
qed

lemma arecord_timeline:
  assumes chunks: "es = take n (arecord_chunks camera_format origin' 0 ts ps)"
    and len: "length ps = length ts" "length ts < 2 ^ 29"
    and clock: "\<forall>t \<in> set ts. 40000000 \<le> t \<and> t < 2 ^ 60" and i: "i < length es"
  shows "\<exists>timing. fst (run_steps audio_timing (synchronizer_new timestamp_ZERO) es) ! i = Inr timing
    \<and> unat (pts_us (apply_audio_delay timing delay) div 1000)
        = block_ms (unat (micros_since origin' (hd ts - 40000000)) div 1000) delay i
    \<and> pcm (ta_chunk (es ! i)) = ps ! i"
proof -
  have bound: "i < length ts" "i < n" "length ts > 0" using i len chunks by auto
  have chunk: "es ! k = arecord_chunk camera_format origin' (640 * of_nat k) (ts ! k) (ps ! k)" if "k \<le> i" for k
    using that bound len by (simp add: chunks arecord_chunks_nth)
  have rate: "nonzero_get (sample_rate_hz camera_format) = 16000" by (simp add: camera_format_def)
  have position: "uint (audio_position (es ! k)) = 40000 * int k" if "k \<le> i" for k
  proof -
    have "640 * k < 2 ^ 64" using that bound len(2) by simp
    then have "uint (of_nat (640 * k) :: u64) = int (640 * k)"
      by (simp add: uint_nat unat_of_nat del: of_nat_mult)
    then have frames: "uint (640 * of_nat k :: u64) = 640 * int k" by simp
    then have "uint (640 * of_nat k :: u64) * 1000000 < 2 ^ 64" using that bound len(2) by simp
    from samples_to_us_uint [OF this, of 16000] frames show ?thesis
      using chunk [OF that] by (simp add: arecord_chunk_def rate)
  qed
  let ?m = "micros_since origin' (hd ts - 40000000)"
  have "hd ts \<in> set ts" using bound(3) by (cases ts) auto
  then have "(hd ts - 40000000 - origin') div 1000 < 2 ^ 51" using clock by (auto intro: div_less_dividend less_le_trans)
  then have m: "unat ?m < 2 ^ 51" by (simp add: micros_since_def unat_of_nat min_def)
  have start: "\<forall>e \<in> set es. timestamp_ZERO \<le> observed_start e"
    by (simp add: timestamp_ZERO_def less_eq_monotonic_timestamp_def)
  obtain timing where t: "fst (run_steps audio_timing (synchronizer_new timestamp_ZERO) es) ! i = Inr timing"
    "uint (pts_us timing) = clamp_u64 (uint (as_micros (observed_start (es ! 0))) - uint (as_micros timestamp_ZERO)
        + (uint (audio_position (es ! i)) - uint (audio_position (es ! 0))))"
    using audio_timeline [OF start i] by blast
  have "as_micros (observed_start (es ! 0)) = ?m"
    using chunk [of 0] clock bound by (simp add: arecord_chunk_def hd_conv_nth from_micros_def)
  then have "uint (pts_us timing) = clamp_u64 (uint ?m + 40000 * int i)"
    using t(2) position by (simp add: timestamp_ZERO_def)
  also have "\<dots> = uint ?m + 40000 * int i"
  proof (rule clamp_u64_id)
    have "int (unat ?m) < int (2 ^ 51)" using m by (simp only: of_nat_less_iff)
    moreover have "int i < 2 ^ 29" using bound(1) len(2) by simp
    ultimately show "uint ?m + 40000 * int i < 2 ^ 64" by simp
  qed simp
  finally have "uint (pts_us (apply_audio_delay timing delay)) = clamp_u64 (uint ?m + 40000 * int i + sint delay * 1000)"
    by (simp add: audio_delay_exact)
  then have "unat (pts_us (apply_audio_delay timing delay) div 1000)
      = nat (clamp_u64 (uint ?m + 40000 * int i + sint delay * 1000)) div 1000"
    using nat_uint_eq [of "pts_us (apply_audio_delay timing delay)"] by (simp add: unat_div)
  moreover have "(uint ?m + 40000 * int i) div 1000 = int (unat ?m div 1000) + 40 * int i"
    by (simp add: zdiv_int)
  ultimately have "unat (pts_us (apply_audio_delay timing delay) div 1000) = block_ms (unat ?m div 1000) delay i"
    by (simp only: clamped_ms block_ms_def)
  then show ?thesis using t(1) chunk [of i] by (auto simp: arecord_chunk_def)
qed

lemma results_for_length:
  "length rs = length es \<Longrightarrow> length (results_for (\<lambda>e. \<not> is_video e) es rs) = length (audios es)"
proof (induction rs es rule: list_induct2)
  case (Cons r rs e es)
  then show ?case by (cases e) simp_all
qed (simp add: results_for_def)

lemma results_for_map: "results_for P es (map f rs) = map f (results_for P es rs)"
  by (simp add: results_for_def zip_map2 filter_map comp_def case_prod_unfold)

text \<open>
  What the command receives of the worker's chunks, and the media events it makes of them and of the
  packets: a beginning of the chunks, and every frame that the packets complete.
\<close>

lemma received_media:
  fixes ticks :: "capture_tick list" and session_origin :: nat
  defines "n \<equiv> length (chunks_of (concat (map ct_audio (live_ticks ticks))))"
    and "events \<equiv> concat (capture_batches session_origin ticks decoder_new False)"
  assumes worker: "arecord_run_capture clocked_ops session_origin steps (recording pcm_stream clock) = (e, reader)"
      "length pcm_stream div 2560 < steps"
    and clock: "sorted (ck_times reader)" "\<forall>t \<in> set (ck_times reader). 40000000 \<le> t \<and> t < 2 ^ 60"
    and channel: "prefix (concat (map ct_audio (live_ticks ticks))) (ck_sent reader)"
  shows "n \<le> length pcm_stream div 2560"
    and "audios events = take n (arecord_chunks camera_format session_origin 0 (ck_times reader)
      (periods (length pcm_stream div 2560) pcm_stream))"
    and "mset (map tv_frame (videos events))
      = mset (fst (decoded_frames (concat (map (projr \<circ> ct_poll) (live_ticks ticks))) decoder_new))"
proof -
  let ?chunks = "arecord_chunks camera_format session_origin 0 (ck_times reader)
      (periods (length pcm_stream div 2560) pcm_stream)"
  note sent = recorded_chunks [OF worker]
  have "length ?chunks = length pcm_stream div 2560" using sent by simp
  moreover have "sorted (map observed_start ?chunks)"
    by (rule arecord_chunks_sorted) (use clock sent in auto)
  ultimately have n: "n \<le> length pcm_stream div 2560"
    "concat (map (\<lambda>t. sort_key observed_start (chunks_of (ct_audio t))) (live_ticks ticks)) = take n ?chunks"
    using received_chunks [of reader ?chunks "live_ticks ticks"] sent channel by (simp_all add: n_def)
  then show "n \<le> length pcm_stream div 2560" "audios events = take n ?chunks"
    "mset (map tv_frame (videos events))
      = mset (fst (decoded_frames (concat (map (projr \<circ> ct_poll) (live_ticks ticks))) decoder_new))"
    using capture_batches_media [of session_origin ticks decoder_new False] by (simp_all add: events_def)
qed

text \<open>
  Property C2. From the sound card and the camera to the file: when a capture with \<open>arecord\<close>
  into a fresh file succeeds, having received some beginning of what the worker sent, then whatever
  the clocks showed, as long as they did not run backwards, the audio track of the file is the
  beginning of the PCM stream that was received: block \<open>i\<close> holds exactly the bytes of period
  \<open>i\<close>, none lost, repeated or reordered, for every chunk that was received; its time is the capture
  time of the first period, plus 40 milliseconds for every block before it, plus the delay
  that the user asked for, limited to the range of the time stamps, so that a negative delay
  can put the first blocks at zero. What is missing at the end of the track are exactly the chunks that
  the worker sent and the command had not received when it stopped, and the bytes of a last
  partial period. The video track holds the image of every frame that the decoder completes from
  the received packets, each once. The clock readings are taken to lie between 40 milliseconds and
  \<open>2^60\<close> nanoseconds, the stream to have at most \<open>2^40\<close> bytes and the media of the session
  less than \<open>2^55\<close>.
\<close>

theorem capture_records_streams:
  assumes captured: "run_capture text hex_decode embedded cursor_ops env args session_origin ticks
      = (Some (Inr ()) :: ('h app_error + unit) option, Some output)"
    and fresh: "ce_create env = Inr empty_cursor"
    and room: "sum_list (map event_room (concat (capture_batches session_origin ticks decoder_new False))) < 2 ^ 55"
    and worker: "arecord_run_capture clocked_ops session_origin steps (recording pcm_stream clock) = (e, reader)"
      "length pcm_stream div 2560 < steps" "length pcm_stream \<le> 2 ^ 40"
    and clock: "sorted (ck_times reader)" "\<forall>t \<in> set (ck_times reader). 40000000 \<le> t \<and> t < 2 ^ 60"
    and channel: "prefix (concat (map ct_audio (live_ticks ticks))) (ck_sent reader)"
  shows "\<exists>duration clusters n. read_file (cur_content output) = Some (Some duration, clusters)
    \<and> n = length (chunks_of (concat (map ct_audio (live_ticks ticks))))
    \<and> n + length (chunks_of (drop (length (concat (map ct_audio (live_ticks ticks)))) (ck_sent reader)))
      = length pcm_stream div 2560
    \<and> track_blocks AUDIO_TRACK clusters
      = map (\<lambda>i. (block_ms (unat (micros_since session_origin (hd (ck_times reader) - 40000000)) div 1000)
                   (ca_audio_delay_ms args) i,
                 take 2560 (drop (2560 * i) pcm_stream))) [0..<n]
    \<and> mset (map snd (track_blocks VIDEO_TRACK clusters))
      = mset (map fr_jpeg (fst (decoded_frames (concat (map (projr \<circ> ct_poll) (live_ticks ticks))) decoder_new)))"
proof -
  let ?N = "length pcm_stream div 2560" and ?events = "concat (capture_batches session_origin ticks decoder_new False)"
  let ?chunks = "arecord_chunks camera_format session_origin 0 (ck_times reader) (periods ?N pcm_stream)"
  note sent = recorded_chunks [OF worker(1,2)]
  have N: "?N < 2 ^ 29" "length ?chunks = ?N" using worker(3) sent by simp_all
  define n where "n = length (chunks_of (concat (map ct_audio (live_ticks ticks))))"
  note media = received_media [OF worker(1,2) clock channel, folded n_def]
  obtain timings where timings: "fst (run_steps event_timing (synchronizer_new timestamp_ZERO) ?events) = map Inr timings"
    and stored: "read_file (cur_content output) = Some
        (Some (be_bytes 8 (duration_bits
           (foldl (\<lambda>e et. max e (stored_end (ca_audio_delay_ms args) et)) 0 (zip ?events timings)))),
         map2 (\<lambda>event timing. case stored_cluster (ca_audio_delay_ms args) event timing of
           (pts_ms, track, data) \<Rightarrow> Some (unat pts_ms, unat track, 0, data)) ?events timings)"
    using run_capture_file [OF captured fresh refl room] by blast
  have len: "length timings = length ?events"
    using arg_cong [OF timings, of length] by simp
  let ?clusters = "map2 (\<lambda>event timing. case stored_cluster (ca_audio_delay_ms args) event timing of
           (pts_ms, track, data) \<Rightarrow> Some (unat pts_ms, unat track, 0, data)) ?events timings"
  let ?audio = "results_for (\<lambda>e. \<not> is_video e) ?events timings"
  note tracks = stored_track_blocks [OF len refl, of "ca_audio_delay_ms args"]
  have alone: "map Inr ?audio = fst (run_steps audio_timing (synchronizer_new timestamp_ZERO) (take n ?chunks))"
    using media_clocks_independent [of ?events "synchronizer_new timestamp_ZERO"]
    by (simp add: timings results_for_map media(2))
  have lens: "length ?audio = n" "length (take n ?chunks) = n"
    using results_for_length [OF len] media(2) N(2) media(1) by simp_all
  have "track_blocks AUDIO_TRACK ?clusters
      = map (\<lambda>i. (block_ms (unat (micros_since session_origin (hd (ck_times reader) - 40000000)) div 1000)
                   (ca_audio_delay_ms args) i,
                 take 2560 (drop (2560 * i) pcm_stream))) [0..<n]"
  proof (rule nth_equalityI)
    fix i assume "i < length (track_blocks AUDIO_TRACK ?clusters)"
    then have i: "i < n" using lens by (simp add: tracks(1) media(2))
    obtain timing where "fst (run_steps audio_timing (synchronizer_new timestamp_ZERO) (take n ?chunks)) ! i = Inr timing"
      "unat (pts_us (apply_audio_delay timing (ca_audio_delay_ms args)) div 1000)
        = block_ms (unat (micros_since session_origin (hd (ck_times reader) - 40000000)) div 1000) (ca_audio_delay_ms args) i"
      "pcm (ta_chunk (take n ?chunks ! i)) = periods ?N pcm_stream ! i"
      using arecord_timeline [OF refl, of "periods ?N pcm_stream" "ck_times reader" i n session_origin "ca_audio_delay_ms args"]
        sent N clock(2) i lens(2) media(1) by auto
    moreover from this(1) have "?audio ! i = timing"
      using i lens(1) alone [symmetric] by (simp add: nth_map)
    ultimately show "track_blocks AUDIO_TRACK ?clusters ! i
        = map (\<lambda>i. (block_ms (unat (micros_since session_origin (hd (ck_times reader) - 40000000)) div 1000)
                   (ca_audio_delay_ms args) i,
                 take 2560 (drop (2560 * i) pcm_stream))) [0..<n] ! i"
      using i media(1) lens by (simp add: tracks(1) media(2) periods_nth)
  qed (use lens in \<open>simp add: tracks(1) media(2)\<close>)
  moreover have "mset (map snd (track_blocks VIDEO_TRACK ?clusters))
      = mset (map fr_jpeg (fst (decoded_frames (concat (map (projr \<circ> ct_poll) (live_ticks ticks))) decoder_new)))"
    using arg_cong [OF media(3), of "image_mset fr_jpeg"] by (simp add: tracks(2) multiset.map_comp comp_def)
  moreover have "n + length (chunks_of (drop (length (concat (map ct_audio (live_ticks ticks)))) (ck_sent reader))) = ?N"
  proof -
    obtain rest where rest: "ck_sent reader = concat (map ct_audio (live_ticks ticks)) @ rest"
      using channel by (auto simp: prefix_def)
    have "length (chunks_of (ck_sent reader)) = ?N" using sent N(2) by simp
    then show ?thesis by (simp add: rest n_def)
  qed
  ultimately show ?thesis using stored n_def by blast
qed

text \<open>A recording of one whole period and a part of the next, delayed by 120 milliseconds.\<close>

theorem capture_records_streams_witness:
  "\<exists>out reader duration clusters.
     run_capture sample_text (\<lambda>_. Inl ''none'') [] cursor_ops sample_env (sample_args\<lparr>ca_audio_delay_ms := 120\<rparr>) 0
        ([sample_tick] @ [stop_tick]) = (Some (Inr ()) :: (string app_error + unit) option, Some out)
   \<and> arecord_run_capture clocked_ops 0 2 (recording (replicate 2600 7) (\<lambda>_. 50000000)) = (Returned, reader)
   \<and> read_file (cur_content out) = Some (Some duration, clusters)
   \<and> track_blocks AUDIO_TRACK clusters = [(130, replicate 2560 7)]"
proof -
  let ?args = "sample_args\<lparr>ca_audio_delay_ms := 120\<rparr>" and ?ticks = "[sample_tick] @ [stop_tick]"
  obtain out where ran: "run_capture sample_text (\<lambda>_. Inl ''none'') [] cursor_ops sample_env ?args 0 ?ticks
      = (Some (Inr ()) :: (string app_error + unit) option, Some out)"
    by (rule sample_captured [of ?args]) (simp_all add: sample_args_def)
  obtain reader where worker: "arecord_run_capture clocked_ops 0 2 (recording (replicate 2600 7) (\<lambda>_. 50000000)) = (Returned, reader)"
    and times: "ck_times reader = [50000000]"
  proof -
    obtain e r where run: "arecord_run_capture clocked_ops 0 2 (recording (replicate 2600 7) (\<lambda>_. 50000000)) = (e, r)"
      by fastforce
    then have "e = Returned \<and> ck_times r = [50000000]"
      unfolding arecord_run_capture_def numeral_2_eq_2
      by (auto simp: clocked_ops_def recording_def Let_def push_period)
    then show ?thesis using that run by blast
  qed
  have sent: "ck_sent reader = [Chunk sample_chunk, Closed]"
    using recorded_chunks [OF worker] by (simp add: times sample_chunk_def)
  have live: "live_ticks ?ticks = [sample_tick]" by (simp add: live_ticks_def sample_tick_def stop_tick_def)
  have env: "ce_create sample_env = Inr empty_cursor" by (simp add: sample_env_def)
  have arrived: "concat (map ct_audio (live_ticks ?ticks)) = [Chunk sample_chunk]"
    unfolding live by (simp add: sample_tick_def)
  have received: "prefix (concat (map ct_audio (live_ticks ?ticks))) (ck_sent reader)"
    unfolding arrived sent by simp
  have seen: "length (chunks_of (concat (map ct_audio (live_ticks ?ticks)))) = 1"
    unfolding arrived by simp
  obtain duration clusters where "read_file (cur_content out) = Some (Some duration, clusters)"
    "track_blocks AUDIO_TRACK clusters
      = map (\<lambda>i. (block_ms (unat (micros_since 0 (hd (ck_times reader) - 40000000)) div 1000) (ca_audio_delay_ms ?args) i,
                 take 2560 (drop (2560 * i) (replicate 2600 7)))) [0..<1]"
    using capture_records_streams [OF ran env sample_events_count(2) worker _ _ _ _ received] seen
    by (auto simp: times)
  then show ?thesis using ran worker by (intro exI [of _ out] exI [of _ reader]) (auto simp: times micros_since_def block_ms_def)
qed

end
