(* ===== verification/Replay.thy ===== *)
theory Replay
  imports Session_Frames "HOL-Library.List_Lexorder"
begin

section \<open>The replay commands\<close>

text \<open>
  Model of \<open>run_replay\<close>, \<open>load_replay_frames\<close>, \<open>metadata_usize\<close> and
  \<open>run_replay_capture\<close> of \<open>crates/handycam-cli/src/main.rs\<close>: recorded JPEG images, or the
  packets of an extracted capture, go through the output worker. The file system and
  \<open>serde_json\<close> are parameters.
\<close>

subsection \<open>Recorded images\<close>

record replay_files =
  rf_is_dir :: "string \<Rightarrow> bool"
  rf_read_dir :: "string \<Rightarrow> string + (string + string) list"
  rf_is_file :: "string \<Rightarrow> bool"
  rf_extension :: "string \<Rightarrow> string option"
  rf_read :: "string \<Rightarrow> string + bytes"

definition ascii_lower :: "char \<Rightarrow> char" where
  "ascii_lower c =
     (let n = of_char c :: nat in if 65 \<le> n \<and> n \<le> 90 then char_of (n + 32) else c)"

definition eq_ignore_ascii_case :: "string \<Rightarrow> string \<Rightarrow> bool" where
  "eq_ignore_ascii_case a b \<longleftrightarrow> map ascii_lower a = map ascii_lower b"

definition is_jpeg_file :: "replay_files \<Rightarrow> string \<Rightarrow> bool" where
  "is_jpeg_file files p \<longleftrightarrow>
     rf_is_file files p
     \<and> (case rf_extension files p of
          None \<Rightarrow> False
        | Some extension \<Rightarrow>
            eq_ignore_ascii_case extension ''jpg'' \<or> eq_ignore_ascii_case extension ''jpeg'')"

text \<open>The loop over the directory entries, each of which may be an error.\<close>

fun jpeg_paths :: "replay_files \<Rightarrow> string \<Rightarrow> (string + string) list \<Rightarrow> 'h app_error + string list" where
  "jpeg_paths files path [] = Inr []"
| "jpeg_paths files path (Inl source # entries) = Inl (ReadReplay path source)"
| "jpeg_paths files path (Inr entry # entries) =
     rbind (jpeg_paths files path entries) (\<lambda>paths.
     Inr (if is_jpeg_file files entry then entry # paths else paths))"

fun read_frames :: "replay_files \<Rightarrow> string list \<Rightarrow> 'h app_error + bytes list" where
  "read_frames files [] = Inr []"
| "read_frames files (p # ps) =
     rbind (map_err (ReadReplay p) (rf_read files p)) (\<lambda>jpeg.
     if \<not> is_complete_jpeg jpeg then Inl (InvalidReplayFrame p)
     else rbind (read_frames files ps) (\<lambda>frames. Inr (jpeg # frames)))"

text \<open>The paths of a directory have one parent, so they are ordered like their texts.\<close>

definition load_replay_frames :: "replay_files \<Rightarrow> string \<Rightarrow> 'h app_error + bytes list" where
  "load_replay_frames files path =
     rbind
       (if rf_is_dir files path then
          rbind (map_err (ReadReplay path) (rf_read_dir files path)) (\<lambda>entries.
          rbind (jpeg_paths files path entries) (\<lambda>paths.
          Inr (sort paths)))
        else Inr [path])
       (\<lambda>paths.
          if paths = [] then Inl (NoReplayFrames path)
          else read_frames files paths)"

text \<open>\<open>Duration::from_micros(1_000_000 / FPS)\<close>, in nanoseconds.\<close>

definition frame_interval :: nat where
  "frame_interval = 1000000 div unat FPS * 1000"

definition replay_frame :: "u64 \<Rightarrow> bytes \<Rightarrow> compressed_frame" where
  "replay_frame sequence jpeg =
     \<lparr>fr_sequence = sequence, timestamp_11bit_ms = ucast ((sequence * 40) AND 0x07ff),
      timestamp_unwrapped_ms = sequence * 40, timestamp_delta_to_next_ms = 40, fr_flags = 0,
      fr_jpeg = jpeg\<rparr>"

text \<open>The wait after a frame: \<open>True\<close> when the stop flag ended it.\<close>

fun wait_for_deadline :: "('w, 'm) driver_ops_scheme \<Rightarrow> nat \<Rightarrow> nat \<Rightarrow> 'w \<Rightarrow> bool option \<times> 'w" where
  "wait_for_deadline ops 0 deadline w = (None, w)"
| "wait_for_deadline ops (Suc steps) deadline w =
     (case dr_now ops w of (now, w) \<Rightarrow>
        if \<not> now < deadline then (Some False, w)
        else
          (case dr_stopping ops w of
             (True, w) \<Rightarrow> (Some True, w)
           | (False, w) \<Rightarrow>
             (case dr_now ops w of (now, w) \<Rightarrow>
                wait_for_deadline ops steps deadline (dr_sleep ops (min (deadline - now) 10000000) w))))"

text \<open>How a pass over the images ends: after the last, with a \<open>break\<close> and its error, or not yet.\<close>

datatype 'h pass_end =
    PassDone
  | PassBreak "'h app_error option"
  | PassRunning

fun replay_pass ::
  "('w, 'm) driver_ops_scheme \<Rightarrow> nat \<Rightarrow> bytes list \<Rightarrow> u64 \<Rightarrow> nat \<Rightarrow> 'w \<Rightarrow> 'h pass_end \<times> u64 \<times> nat \<times> 'w" where
  "replay_pass ops inner [] sequence deadline w = (PassDone, sequence, deadline, w)"
| "replay_pass ops inner (jpeg # jpegs) sequence deadline w =
     (case dr_stopping ops w of
        (True, w) \<Rightarrow> (PassBreak None, sequence, deadline, w)
      | (False, w) \<Rightarrow>
        (case dr_try_recv_status ops w of (status, w) \<Rightarrow>
         case check_sink status of
           Some (Inl e) \<Rightarrow> (PassBreak (Some e), sequence, deadline, w)
         | Some (Inr _) \<Rightarrow> (PassBreak None, sequence, deadline, w)
         | None \<Rightarrow>
           (case dr_try_send ops (replay_frame sequence jpeg) w of (answer, w) \<Rightarrow>
              if answer = SendDisconnected then (PassBreak None, sequence, deadline, w)
              else
                let sequence = sequence + 1; deadline = deadline + frame_interval
                in case wait_for_deadline ops inner deadline w of
                     (None, w) \<Rightarrow> (PassRunning, sequence, deadline, w)
                   | (Some True, w) \<Rightarrow> (PassBreak None, sequence, deadline, w)
                   | (Some False, w) \<Rightarrow> replay_pass ops inner jpegs sequence deadline w)))"

fun replay_loop ::
  "('w, 'm) driver_ops_scheme \<Rightarrow> nat \<Rightarrow> nat \<Rightarrow> bytes list \<Rightarrow> bool \<Rightarrow> u64 \<Rightarrow> nat \<Rightarrow> 'w
   \<Rightarrow> 'h app_error option option \<times> 'w" where
  "replay_loop ops inner 0 jpegs repeat sequence deadline w = (None, w)"
| "replay_loop ops inner (Suc steps) jpegs repeat sequence deadline w =
     (case replay_pass ops inner jpegs sequence deadline w of
        (PassDone, sequence, deadline, w) \<Rightarrow>
          if \<not> repeat then (Some None, w)
          else replay_loop ops inner steps jpegs repeat sequence deadline w
      | (PassBreak e, sequence, deadline, w) \<Rightarrow> (Some e, w)
      | (PassRunning, sequence, deadline, w) \<Rightarrow> (None, w))"

text \<open>The statuses that are left when the worker has ended: the last failure is the error.\<close>

fun drain_statuses ::
  "('w, 'm) driver_ops_scheme \<Rightarrow> nat \<Rightarrow> 'h app_error option \<Rightarrow> 'w \<Rightarrow> 'h app_error option option \<times> 'w" where
  "drain_statuses ops 0 sink_error w = (None, w)"
| "drain_statuses ops (Suc steps) sink_error w =
     (case dr_try_recv_status ops w of
        (Received (SinkFailed error), w) \<Rightarrow> drain_statuses ops steps (Some (SinkError error)) w
      | (Received _, w) \<Rightarrow> drain_statuses ops steps sink_error w
      | (_, w) \<Rightarrow> (Some sink_error, w))"

record replay_args =
  ra_input :: string
  ra_output :: string
  ra_format :: output_format
  ra_repeat :: bool

definition run_replay ::
  "replay_files \<Rightarrow> ('w, 'm) driver_ops_scheme \<Rightarrow> replay_args \<Rightarrow> nat \<Rightarrow> nat \<Rightarrow> 'w
   \<Rightarrow> ('h app_error + unit) option \<times> 'w" where
  "run_replay files ops args inner steps w =
     (case load_replay_frames files (ra_input args) of
        Inl e \<Rightarrow> (Some (Inl e), w)
      | Inr jpegs \<Rightarrow>
        (case dr_signals ops w of
           (Inl e, w) \<Rightarrow> (Some (Inl (SignalError e)), w)
         | (Inr _, w) \<Rightarrow>
           (case dr_recv_status ops (dr_spawn ops (choose_target (ra_output args)) (ra_format args) w) of
              (status, w) \<Rightarrow>
              case wait_for_sink status of
                Inl e \<Rightarrow> (Some (Inl e), w)
              | Inr _ \<Rightarrow>
                (case dr_now ops w of (now, w) \<Rightarrow>
                 case replay_loop ops inner steps jpegs (ra_repeat args) 0 now w of
                   (None, w) \<Rightarrow> (None, w)
                 | (Some sink_error, w) \<Rightarrow>
                   (case dr_join ops w of (joined, w) \<Rightarrow>
                      if \<not> joined then (Some (Inl SinkPanicked), w)
                      else
                        (case drain_statuses ops inner sink_error w of
                           (None, w) \<Rightarrow> (None, w)
                         | (Some None, w) \<Rightarrow> (Some (Inr ()), w)
                         | (Some (Some e), w) \<Rightarrow> (Some (Inl e), w)))))))"

subsection \<open>Extracted captures\<close>

text \<open>
  \<open>serde_json\<close>: parsing a text, and the string or unsigned number that a field of the
  value holds.
\<close>

record 'j json_ops =
  js_parse :: "string \<Rightarrow> string + 'j"
  js_str :: "'j \<Rightarrow> string \<Rightarrow> string option"
  js_u64 :: "'j \<Rightarrow> string \<Rightarrow> u64 option"

definition metadata_usize :: "'j json_ops \<Rightarrow> 'j \<Rightarrow> string \<Rightarrow> nat \<Rightarrow> 'h app_error + nat" where
  "metadata_usize json row field' line =
     (case js_u64 json row field' of
        None \<Rightarrow> Inl (ReplayMetadata line (field' @ '' is missing or is not an unsigned integer''))
      | Some v \<Rightarrow> Inr (unat v))"

text \<open>One line of the metadata: an error, nothing to do (\<open>continue\<close>), or a packet.\<close>

definition metadata_packet ::
  "'j json_ops \<Rightarrow> string \<Rightarrow> bytes \<Rightarrow> bytes \<Rightarrow> nat \<Rightarrow> string + string \<Rightarrow> 'h app_error + endpoint_packet option" where
  "metadata_packet json metadata_path ep81 ep82 line_number line_result =
     rbind (map_err (ReadReplay metadata_path) line_result) (\<lambda>line.
     rbind (map_err (ReplayMetadata line_number) (js_parse json line)) (\<lambda>row.
     case js_str json row ''endpoint'' of
       None \<Rightarrow> Inl (ReplayMetadata line_number ''endpoint is missing or is not a string'')
     | Some endpoint_name \<Rightarrow>
         case (if endpoint_name = ''0x81'' then Some (Boundary, ep81)
               else if endpoint_name = ''0x82'' then Some (Video, ep82)
               else None) of
           None \<Rightarrow> Inr None
         | Some (ep, source) \<Rightarrow>
             rbind (metadata_usize json row ''length'' line_number) (\<lambda>len.
             if len = 0 then Inr None
             else
               rbind (metadata_usize json row ''data_offset'' line_number) (\<lambda>data_offset.
               let end' = data_offset + len
               in if 2 ^ 64 \<le> end' then Inl (ReplayMetadata line_number ''data range overflows usize'')
                  else if length source < end'
                  then Inl (ReplayRange endpoint_name data_offset end' (length source))
                  else Inr (Some \<lparr>ep_endpoint = ep, ep_data = take len (drop data_offset source)\<rparr>)))))"

text \<open>The wait of \<open>--realtime\<close>, which does not look at the stop flag.\<close>

fun pace :: "('w, 'm) driver_ops_scheme \<Rightarrow> nat \<Rightarrow> nat \<Rightarrow> 'w \<Rightarrow> bool \<times> 'w" where
  "pace ops 0 deadline w = (False, w)"
| "pace ops (Suc steps) deadline w =
     (case dr_now ops w of (now, w) \<Rightarrow>
        if \<not> now < deadline then (True, w)
        else
          (case dr_now ops w of (now, w) \<Rightarrow>
             pace ops steps deadline (dr_sleep ops (min (deadline - now) 10000000) w)))"

text \<open>The counts that the command reports.\<close>

record replay_counts =
  rc_packets :: u64
  rc_frames :: u64
  rc_errors :: u64

text \<open>The loop over the lines, which end with the file; \<open>Inl\<close>: an early return.\<close>

fun replay_lines ::
  "'j json_ops \<Rightarrow> ('w, 'm) driver_ops_scheme \<Rightarrow> string \<Rightarrow> bytes \<Rightarrow> bytes \<Rightarrow> bool \<Rightarrow> nat \<Rightarrow> nat \<Rightarrow> (string + string) list
   \<Rightarrow> stream_decoder \<Rightarrow> nat \<Rightarrow> replay_counts \<Rightarrow> 'w
   \<Rightarrow> ('h app_error + unit) option \<times> replay_counts \<times> 'w" where
  "replay_lines json ops metadata_path ep81 ep82 realtime inner offset' [] decoder deadline counts w =
     (Some (Inr ()), counts, w)"
| "replay_lines json ops metadata_path ep81 ep82 realtime inner offset' (line # lines) decoder deadline counts w =
     (case metadata_packet json metadata_path ep81 ep82 (offset' + 1) line of
        Inl e \<Rightarrow> (Some (Inl e), counts, w)
      | Inr None \<Rightarrow>
          replay_lines json ops metadata_path ep81 ep82 realtime inner (offset' + 1) lines decoder deadline counts w
      | Inr (Some packet) \<Rightarrow>
          let counts = counts\<lparr>rc_packets := rc_packets counts + 1\<rparr>
          in case push_packet decoder packet of
               (Inr (Some frame), decoder) \<Rightarrow>
                 (case dr_send ops frame w of (delivered, w) \<Rightarrow>
                    if \<not> delivered then (Some (Inr ()), counts, w)
                    else
                      let counts = counts\<lparr>rc_frames := rc_frames counts + 1\<rparr>
                      in if realtime then
                           (case pace ops inner (deadline + frame_interval) w of
                              (False, w) \<Rightarrow> (None, counts, w)
                            | (True, w) \<Rightarrow>
                                replay_lines json ops metadata_path ep81 ep82 realtime inner (offset' + 1) lines
                                  decoder (deadline + frame_interval) counts w)
                         else
                           replay_lines json ops metadata_path ep81 ep82 realtime inner (offset' + 1) lines
                             decoder deadline counts w)
             | (Inr None, decoder) \<Rightarrow>
                 replay_lines json ops metadata_path ep81 ep82 realtime inner (offset' + 1) lines
                   decoder deadline counts w
             | (Inl _, decoder) \<Rightarrow>
                 replay_lines json ops metadata_path ep81 ep82 realtime inner (offset' + 1) lines
                   (decoder_reset decoder) deadline (counts\<lparr>rc_errors := rc_errors counts + 1\<rparr>) w)"

text \<open>The first failure among the statuses that are left.\<close>

fun first_failure :: "('w, 'm) driver_ops_scheme \<Rightarrow> nat \<Rightarrow> 'w \<Rightarrow> ('h app_error + unit) option \<times> 'w" where
  "first_failure ops 0 w = (None, w)"
| "first_failure ops (Suc steps) w =
     (case dr_try_recv_status ops w of
        (Received (SinkFailed error), w) \<Rightarrow> (Some (Inl (SinkError error)), w)
      | (Received _, w) \<Rightarrow> first_failure ops steps w
      | (_, w) \<Rightarrow> (Some (Inr ()), w))"

record replay_capture_args =
  rca_input :: string
  rca_output :: string
  rca_format :: output_format
  rca_realtime :: bool

text \<open>
  The files: opening the metadata for its lines, and reading an endpoint's data; joining a
  file name to the input directory is \<open>join\<close>.
\<close>

definition run_replay_capture ::
  "'j json_ops \<Rightarrow> (string \<Rightarrow> string \<Rightarrow> string) \<Rightarrow> (string \<Rightarrow> string + (string + string) list)
   \<Rightarrow> (string \<Rightarrow> string + bytes) \<Rightarrow> ('w, 'm) driver_ops_scheme \<Rightarrow> replay_capture_args \<Rightarrow> nat \<Rightarrow> 'w
   \<Rightarrow> ('h app_error + unit) option \<times> replay_counts \<times> 'w" where
  "run_replay_capture json join open_lines read_bytes ops args inner w =
     (let zero = \<lparr>rc_packets = 0, rc_frames = 0, rc_errors = 0\<rparr>;
          metadata_path = join (rca_input args) ''iso-packets.jsonl'';
          ep81_path = join (rca_input args) ''ep81.bin'';
          ep82_path = join (rca_input args) ''ep82.bin''
      in case rbind (map_err (ReadReplay metadata_path) (open_lines metadata_path)) (\<lambda>lines.
              rbind (map_err (ReadReplay ep81_path) (read_bytes ep81_path)) (\<lambda>ep81.
              rbind (map_err (ReadReplay ep82_path) (read_bytes ep82_path)) (\<lambda>ep82.
              Inr (lines, ep81, ep82)))) of
           Inl e \<Rightarrow> (Some (Inl e), zero, w)
         | Inr (lines, ep81, ep82) \<Rightarrow>
           (case dr_recv_status ops (dr_spawn ops (choose_target (rca_output args)) (rca_format args) w) of
              (status, w) \<Rightarrow>
              case wait_for_sink status of
                Inl e \<Rightarrow> (Some (Inl e), zero, w)
              | Inr _ \<Rightarrow>
                (case dr_now ops w of (now, w) \<Rightarrow>
                 case replay_lines json ops metadata_path ep81 ep82 (rca_realtime args) inner 0 lines
                        decoder_new now zero w of
                   (Some (Inr _), counts, w) \<Rightarrow>
                     (case dr_join ops w of (joined, w) \<Rightarrow>
                        if \<not> joined then (Some (Inl SinkPanicked), counts, w)
                        else (case first_failure ops inner w of (result, w) \<Rightarrow> (result, counts, w)))
                 | (r, counts, w) \<Rightarrow> (r, counts, w))))"

end
