(* ===== verification/Driver_Log.thy ===== *)
theory Driver_Log
  imports Driver_Common Usb_Session
begin

section \<open>What a command asks of its surroundings\<close>

text \<open>
  A log of the calls a command makes, which the properties of the stream and the replay
  commands are about, the reasons for ending that such a log shows, and the contract of the
  clock that the waits rely on.
\<close>

datatype driver_log =
    StopRead bool
  | TimeRead nat
  | Slept nat
  | StatusRead "sink_status try_recv"
  | Offered "compressed_frame \<times> try_send"
  | Sent "compressed_frame \<times> bool"
  | Opened "usb_transport_error + unit"
  | Polled "usb_transport_error + session_event list"
  | SessionStopped

definition log_result :: "('r \<Rightarrow> 'l) \<Rightarrow> ('w \<Rightarrow> 'r \<times> 'w) \<Rightarrow> 'w \<times> 'l list \<Rightarrow> 'r \<times> 'w \<times> 'l list" where
  "log_result entry f wl = (case wl of (w, l) \<Rightarrow> case f w of (r, w) \<Rightarrow> (r, w, l @ [entry r]))"

lemma log_result_simp [simp]:
  "log_result entry f (w, l) = (case f w of (r, w) \<Rightarrow> (r, w, l @ [entry r]))"
  by (simp add: log_result_def)

definition logged_driver :: "'w driver_ops \<Rightarrow> ('w \<times> driver_log list) driver_ops" where
  "logged_driver ops =
     \<lparr>dr_stopping = log_result StopRead (dr_stopping ops),
      dr_now = log_result TimeRead (dr_now ops),
      dr_sleep = (\<lambda>d (w, l). (dr_sleep ops d w, l @ [Slept d])),
      dr_signals = keep_log (dr_signals ops),
      dr_spawn = (\<lambda>target format (w, l). (dr_spawn ops target format w, l)),
      dr_recv_status = keep_log (dr_recv_status ops),
      dr_try_recv_status = log_result StatusRead (dr_try_recv_status ops),
      dr_try_send = (\<lambda>frame. log_result (\<lambda>r. Offered (frame, r)) (dr_try_send ops frame)),
      dr_send = (\<lambda>frame. log_result (\<lambda>r. Sent (frame, r)) (dr_send ops frame)),
      dr_join = keep_log (dr_join ops)\<rparr>"

lemma logged_driver_simps [simp]:
  "dr_stopping (logged_driver ops) = log_result StopRead (dr_stopping ops)"
  "dr_now (logged_driver ops) = log_result TimeRead (dr_now ops)"
  "dr_sleep (logged_driver ops) d (w, l) = (dr_sleep ops d w, l @ [Slept d])"
  "dr_signals (logged_driver ops) = keep_log (dr_signals ops)"
  "dr_spawn (logged_driver ops) target format (w, l) = (dr_spawn ops target format w, l)"
  "dr_recv_status (logged_driver ops) = keep_log (dr_recv_status ops)"
  "dr_try_recv_status (logged_driver ops) = log_result StatusRead (dr_try_recv_status ops)"
  "dr_try_send (logged_driver ops) frame = log_result (\<lambda>r. Offered (frame, r)) (dr_try_send ops frame)"
  "dr_send (logged_driver ops) frame = log_result (\<lambda>r. Sent (frame, r)) (dr_send ops frame)"
  "dr_join (logged_driver ops) = keep_log (dr_join ops)"
  by (simp_all add: logged_driver_def)

definition offers_of :: "driver_log list \<Rightarrow> (compressed_frame \<times> try_send) list" where
  "offers_of l = concat (map (\<lambda>x. case x of Offered offer \<Rightarrow> [offer] | _ \<Rightarrow> []) l)"

definition sends_of :: "driver_log list \<Rightarrow> (compressed_frame \<times> bool) list" where
  "sends_of l = concat (map (\<lambda>x. case x of Sent s \<Rightarrow> [s] | _ \<Rightarrow> []) l)"

definition polled_of :: "driver_log list \<Rightarrow> session_event list" where
  "polled_of l = concat (map (\<lambda>x. case x of Polled (Inr events) \<Rightarrow> events | _ \<Rightarrow> []) l)"

lemma log_projections [simp]:
  "offers_of [] = []" "polled_of [] = []"
  "offers_of (l @ l') = offers_of l @ offers_of l'" "polled_of (l @ l') = polled_of l @ polled_of l'"
  "offers_of (Offered offer # l) = offer # offers_of l" "polled_of (Offered offer # l) = polled_of l"
  "offers_of (Polled r # l) = offers_of l"
  "polled_of (Polled (Inr events) # l) = events @ polled_of l" "polled_of (Polled (Inl e) # l) = polled_of l"
  "offers_of (StopRead b # l) = offers_of l" "polled_of (StopRead b # l) = polled_of l"
  "offers_of (StatusRead s # l) = offers_of l" "polled_of (StatusRead s # l) = polled_of l"
  "offers_of (TimeRead t # l) = offers_of l" "offers_of (Slept n # l) = offers_of l"
  "sends_of [] = []" "sends_of (l @ l') = sends_of l @ sends_of l'"
  "sends_of (TimeRead t # l) = sends_of l" "sends_of (Slept n # l) = sends_of l"
  "sends_of (StatusRead s # l) = sends_of l" "sends_of (Sent sent # l) = sent # sends_of l"
  "offers_of (map Offered offers) = offers" "polled_of (map Offered offers) = []"
  by (induction offers) (simp_all add: offers_of_def polled_of_def sends_of_def)

text \<open>Why a command ends well, and with which error of the worker.\<close>

definition told_to_end :: "driver_log list \<Rightarrow> bool" where
  "told_to_end l \<longleftrightarrow>
     StopRead True \<in> set l \<or> StatusRead (Received SinkClosed) \<in> set l
     \<or> SendDisconnected \<in> snd ` set (offers_of l)"

definition worker_error :: "driver_log list \<Rightarrow> 'h app_error \<Rightarrow> bool" where
  "worker_error l e \<longleftrightarrow>
     (\<exists>message. e = SinkError message \<and> StatusRead (Received (SinkFailed message)) \<in> set l)
     \<or> (e = SinkStopped \<and> StatusRead Disconnected \<in> set l)"

lemma told_to_end_append [simp]:
  "told_to_end (l @ l') \<longleftrightarrow> told_to_end l \<or> told_to_end l'"
  by (auto simp: told_to_end_def)

lemma worker_error_append [intro]:
  "worker_error l e \<Longrightarrow> worker_error (l @ l') e" "worker_error l' e \<Longrightarrow> worker_error (l @ l') e"
  by (auto simp: worker_error_def)

lemma check_sink_reason:
  "check_sink status = Some (Inr () :: 'h app_error + unit) \<Longrightarrow> StatusRead status \<in> set l \<Longrightarrow> told_to_end l"
  "check_sink status = Some (Inl e) \<Longrightarrow> StatusRead status \<in> set l \<Longrightarrow> worker_error l e"
  by (auto simp: check_sink_def told_to_end_def worker_error_def split: try_recv.splits sink_status.splits)

text \<open>
  With which error a command ends before it has begun: the signal handlers cannot be
  installed, or the worker does not report that it is ready.
\<close>

definition start_error ::
  "('w, 'm) driver_ops_scheme \<Rightarrow> sink_target \<Rightarrow> output_format \<Rightarrow> 'w \<Rightarrow> 'h app_error \<Rightarrow> bool" where
  "start_error ops target format w e \<longleftrightarrow>
     (case dr_signals ops w of
        (Inl source, w1) \<Rightarrow> e = SignalError source
      | (Inr _, w1) \<Rightarrow>
          (case fst (dr_recv_status ops (dr_spawn ops target format w1)) of
             Some (SinkFailed message) \<Rightarrow> e = SinkError message
           | Some SinkReady \<Rightarrow> False
           | Some SinkClosed \<Rightarrow> e = SinkStopped
           | None \<Rightarrow> e = SinkStopped))"

lemma start_error_cases:
  "dr_signals ops w = (Inl source, w1) \<Longrightarrow> start_error ops target format w (SignalError source)"
  "dr_signals ops w = (Inr u, w1) \<Longrightarrow> dr_recv_status ops (dr_spawn ops target format w1) = (status, w2) \<Longrightarrow>
     wait_for_sink status = (Inl e :: 'h app_error + unit) \<Longrightarrow> start_error ops target format w e"
  by (auto simp: start_error_def wait_for_sink_def split: option.splits sink_status.splits)

text \<open>
  The contract of the clock that the waits of the commands rely on: a reading lies between
  the time before and the time after it, sleeping takes at least the given time, and time
  does not go back during the other operations. Under it every wait ends.
\<close>

locale sleeping_clock =
  fixes ops :: "('w, 'm) driver_ops_scheme"
    and clock :: "'w \<Rightarrow> nat"
  assumes now_between: "dr_now ops w = (t, w') \<Longrightarrow> clock w \<le> t \<and> t \<le> clock w'"
    and sleep_long: "clock w + n \<le> clock (dr_sleep ops n w)"
    and stopping_later: "dr_stopping ops w = (b, w') \<Longrightarrow> clock w \<le> clock w'"
    and status_later: "dr_try_recv_status ops w = (status, w') \<Longrightarrow> clock w \<le> clock w'"
    and send_later: "dr_try_send ops frame w = (answer, w') \<Longrightarrow> clock w \<le> clock w'"
begin

lemma wait_until_ends:
  "deadline \<le> clock w + k * 50000000 \<Longrightarrow> k < steps \<Longrightarrow>
     \<exists>r w'. wait_until ops steps deadline w = (Some (r :: 'h app_error + bool), w') \<and> clock w \<le> clock w'
       \<and> (r = Inr False \<longrightarrow> deadline \<le> clock w')"
proof (induction k arbitrary: w steps)
  case 0
  then obtain n where n: "steps = Suc n" by (cases steps) auto
  obtain t w1 where t: "dr_now ops w = (t, w1)" by fastforce
  show ?case using now_between [OF t] 0 t by (auto simp: n)
next
  case (Suc k)
  then obtain n where n: "steps = Suc n" "k < n" by (cases steps) auto
  obtain t w1 where t: "dr_now ops w = (t, w1)" by fastforce
  obtain b w2 where b: "dr_stopping ops w1 = (b, w2)" by fastforce
  obtain status w3 where status: "dr_try_recv_status ops w2 = (status, w3)" by fastforce
  note later = now_between [OF t] stopping_later [OF b] status_later [OF status] sleep_long [of w3 50000000]
  show ?case
  proof (cases "t < deadline \<and> \<not> b \<and> (check_sink status :: ('h app_error + unit) option) = None")
    case False
    then show ?thesis
      using t b status later
      by (auto simp: n rbind_def split: option.splits sum.splits bool.splits)
  next
    case True
    let ?w = "dr_sleep ops 50000000 w3"
    have "deadline \<le> clock ?w + k * 50000000" using Suc.prems(1) later by simp
    from Suc.IH [OF this n(2)] obtain r w' where
      "wait_until ops n deadline ?w = (Some (r :: 'h app_error + bool), w')" "clock ?w \<le> clock w'"
      "r = Inr False \<longrightarrow> deadline \<le> clock w'" by blast
    then show ?thesis using True t b status later by (auto simp: n)
  qed
qed

lemma wait_ends:
  assumes "duration div 50000000 + 1 < steps"
  shows "\<exists>r w'. wait_interruptibly ops steps duration w = (Some (r :: 'h app_error + bool), w')
    \<and> (r = Inr False \<longrightarrow> clock w + duration \<le> clock w')"
proof -
  obtain t w1 where t: "dr_now ops w = (t, w1)" by fastforce
  have "duration mod 50000000 < 50000000" by simp
  then have "t + duration \<le> clock w1 + (duration div 50000000 + 1) * 50000000"
    using now_between [OF t] div_mult_mod_eq [of duration 50000000] unfolding add_mult_distrib by linarith
  from wait_until_ends [OF this assms] show ?thesis
    using t now_between [OF t] by (fastforce simp: wait_interruptibly_def)
qed

end

end
