(* ===== verification/Replay_Log.thy ===== *)
theory Replay_Log
  imports Replay Driver_Log
begin

section \<open>What a replay does\<close>

text \<open>
  The correctness of the replay commands: the images are offered in order and at their pace,
  failures of the worker are reported, and the replay of an extracted capture sends exactly
  the frames that its packets decode to.
\<close>

subsection \<open>Recorded images\<close>

lemma read_frames_complete:
  "read_frames files paths = (Inr frames :: 'h app_error + bytes list) \<Longrightarrow>
     map (rf_read files) paths = map Inr frames \<and> list_all is_complete_jpeg frames"
proof (induction paths arbitrary: frames)
  case (Cons p ps)
  then show ?case
    by (cases "rf_read files p"; cases "read_frames files ps :: 'h app_error + bytes list")
      (auto simp: rbind_def split: if_splits)
qed simp

lemma jpeg_paths_filter:
  "jpeg_paths files path entries = (Inr paths :: 'h app_error + string list) \<Longrightarrow>
     \<exists>es. entries = map Inr es \<and> paths = filter (is_jpeg_file files) es"
proof (induction entries arbitrary: paths rule: jpeg_paths.induct [case_names Nil Bad Good])
  case (Good files path entry entries)
  then show ?case
    by (cases "jpeg_paths files path entries :: 'h app_error + string list")
      (fastforce simp: rbind_def split: if_splits intro: exI [of _ "entry # _"])+
qed auto

text \<open>
  A successful load reads, in the order of their names, exactly the JPEG files of the
  directory, or the one given file; there is at least one, and every one is complete.
\<close>

theorem load_replay_frames_ok:
  assumes "load_replay_frames files path = (Inr frames :: 'h app_error + bytes list)"
  shows "\<exists>paths. sorted paths \<and> map (rf_read files) paths = map Inr frames
    \<and> list_all is_complete_jpeg frames \<and> frames \<noteq> []
    \<and> (if rf_is_dir files path
       then \<exists>es. rf_read_dir files path = Inr (map Inr es) \<and> paths = sort (filter (is_jpeg_file files) es)
       else paths = [path])"
proof (cases "rf_is_dir files path")
  case False
  then have "read_frames files [path] = (Inr frames :: 'h app_error + bytes list)"
    using assms by (simp add: load_replay_frames_def rbind_def)
  from read_frames_complete [OF this] False show ?thesis by (intro exI [of _ "[path]"]) auto
next
  case True
  obtain entries where entries: "rf_read_dir files path = Inr entries"
    using assms True by (cases "rf_read_dir files path") (auto simp: load_replay_frames_def rbind_def)
  obtain paths where paths: "jpeg_paths files path entries = (Inr paths :: 'h app_error + string list)"
    using assms True entries
    by (cases "jpeg_paths files path entries :: 'h app_error + string list")
      (auto simp: load_replay_frames_def rbind_def)
  have "read_frames files (sort paths) = (Inr frames :: 'h app_error + bytes list)" "paths \<noteq> []"
    using assms True entries paths
    by (auto simp: load_replay_frames_def rbind_def split: if_splits)
  with read_frames_complete [OF this(1)] jpeg_paths_filter [OF paths] True entries
  show ?thesis by (intro exI [of _ "sort paths"]) (auto dest: map_eq_imp_length_eq)
qed

text \<open>
  The pace: a frame is only offered when the last reading of the clock has reached the time
  it is due, and then the next is due 40 milliseconds later.
\<close>

fun paced_step :: "nat \<times> nat \<Rightarrow> driver_log \<Rightarrow> (nat \<times> nat) option" where
  "paced_step (due, seen) (TimeRead t) = Some (due, t)"
| "paced_step (due, seen) (Offered offer) = (if due \<le> seen then Some (due + 40000000, seen) else None)"
| "paced_step s e = Some s"

fun paced :: "nat \<times> nat \<Rightarrow> driver_log list \<Rightarrow> (nat \<times> nat) option" where
  "paced s [] = Some s"
| "paced s (e # l) = (case paced_step s e of None \<Rightarrow> None | Some s' \<Rightarrow> paced s' l)"

lemma paced_append:
  "paced s (xs @ ys) = (case paced s xs of None \<Rightarrow> None | Some s' \<Rightarrow> paced s' ys)"
  by (induction xs arbitrary: s) (auto split: option.splits)

lemma frame_interval_value: "frame_interval = 40000000"
  by (simp add: frame_interval_def FPS_def)

definition no_failure :: "driver_log list \<Rightarrow> bool" where
  "no_failure l \<longleftrightarrow> (\<forall>message. StatusRead (Received (SinkFailed message)) \<notin> set l)"

lemma no_failure_simps [simp]:
  "no_failure []" "no_failure (l @ l') \<longleftrightarrow> no_failure l \<and> no_failure l'"
  "no_failure (TimeRead t # l) = no_failure l" "no_failure (StopRead b # l) = no_failure l"
  "no_failure (Slept n # l) = no_failure l" "no_failure (Offered offer # l) = no_failure l"
  "no_failure (StatusRead s # l) \<longleftrightarrow> (\<forall>message. s \<noteq> Received (SinkFailed message)) \<and> no_failure l"
  by (auto simp: no_failure_def)

lemma wait_for_deadline_log:
  "wait_for_deadline (logged_driver ops) steps deadline (w, l) = (r, w', l') \<Longrightarrow>
     \<exists>l1 seen'. l' = l @ l1 \<and> offers_of l1 = [] \<and> no_failure l1 \<and> paced (due, seen) l1 = Some (due, seen')
       \<and> (r = Some False \<longrightarrow> deadline \<le> seen') \<and> (r = Some True \<longrightarrow> told_to_end l1)"
proof (induction steps arbitrary: w l seen)
  case 0
  then show ?case by (intro exI [of _ "[]"]) auto
next
  case (Suc steps)
  obtain t w1 where t: "dr_now ops w = (t, w1)" by fastforce
  obtain b w2 where b: "dr_stopping ops w1 = (b, w2)" by fastforce
  obtain t' w3 where t': "dr_now ops w2 = (t', w3)" by fastforce
  let ?n = "min (deadline - t') 10000000"
  consider "\<not> t < deadline" | "t < deadline" "b" | "t < deadline" "\<not> b" by blast
  then show ?case
  proof cases
    case 1
    then show ?thesis using Suc.prems t by (intro exI [of _ "[TimeRead t]"]) auto
  next
    case 2
    then show ?thesis using Suc.prems t b by (intro exI [of _ "[TimeRead t, StopRead True]"]) (auto simp: told_to_end_def)
  next
    case 3
    let ?l1 = "[TimeRead t, StopRead False, TimeRead t', Slept ?n]"
    have "wait_for_deadline (logged_driver ops) steps deadline (dr_sleep ops ?n w3, l @ ?l1) = (r, w', l')"
      using Suc.prems t b t' 3 by simp
    from Suc.IH [OF this, of t'] obtain l2 seen' where "l' = (l @ ?l1) @ l2" "offers_of l2 = []"
      "no_failure l2" "paced (due, t') l2 = Some (due, seen')" "r = Some False \<longrightarrow> deadline \<le> seen'"
      "r = Some True \<longrightarrow> told_to_end l2" by blast
    then show ?thesis
      using told_to_end_append [of ?l1 l2] by (intro exI [of _ "?l1 @ l2"] exI [of _ seen']) simp
  qed
qed

text \<open>The offers of a pass: the first images in order, counted on from the sequence number.\<close>

definition first_offers :: "bytes list \<Rightarrow> u64 \<Rightarrow> nat \<Rightarrow> compressed_frame list" where
  "first_offers jpegs sequence n = map (\<lambda>i. replay_frame (sequence + of_nat i) (jpegs ! i)) [0..<n]"

lemma first_offers_Suc:
  "first_offers (jpeg # jpegs) sequence (Suc n) = replay_frame sequence jpeg # first_offers jpegs (sequence + 1) n"
  by (simp add: first_offers_def upt_conv_Cons map_Suc_upt [symmetric] del: upt_Suc) (simp add: comp_def algebra_simps)

lemma check_sink_no_failure:
  "(check_sink s :: ('h app_error + unit) option) = None \<Longrightarrow> s \<noteq> Received (SinkFailed message)"
  by (auto simp: check_sink_def)

definition pass_ok :: "'h pass_end \<Rightarrow> driver_log list \<Rightarrow> bool" where
  "pass_ok e l \<longleftrightarrow>
     (case e of
        PassDone \<Rightarrow> no_failure l
      | PassBreak None \<Rightarrow> no_failure l \<and> told_to_end l
      | PassBreak (Some e) \<Rightarrow> worker_error l e
      | PassRunning \<Rightarrow> True)"

lemma pass_ok_append: "no_failure l \<Longrightarrow> pass_ok e l' \<Longrightarrow> pass_ok e (l @ l')"
  by (auto simp: pass_ok_def split: pass_end.splits option.splits)

lemma replay_pass_log:
  "replay_pass (logged_driver ops) inner jpegs sequence deadline (w, l)
      = (e :: 'h pass_end, sequence', deadline', w', l') \<Longrightarrow> deadline \<le> seen \<Longrightarrow>
   \<exists>l1 n s'. l' = l @ l1 \<and> n \<le> length jpegs \<and> map fst (offers_of l1) = first_offers jpegs sequence n
     \<and> pass_ok e l1 \<and> paced (deadline, seen) l1 = Some s'
     \<and> (e = PassDone \<longrightarrow> n = length jpegs \<and> sequence' = sequence + of_nat n \<and> fst s' = deadline' \<and> deadline' \<le> snd s')"
proof (induction jpegs arbitrary: sequence deadline w l seen)
  case Nil
  then show ?case by (intro exI [of _ "[]"] exI [of _ 0]) (auto simp: first_offers_def pass_ok_def)
next
  case (Cons jpeg jpegs)
  have stop: ?case if "l' = l @ l1" "offers_of l1 = []" "pass_ok e l1" "paced (deadline, seen) l1 = Some s'" "e \<noteq> PassDone"
    for l1 s'
    using that by (intro exI [of _ l1] exI [of _ 0]) (auto simp: first_offers_def)
  obtain b w1 where b: "dr_stopping ops w = (b, w1)" by fastforce
  obtain status w2 where status: "dr_try_recv_status ops w1 = (status, w2)" by fastforce
  let ?frame = "replay_frame sequence jpeg"
  obtain answer w3 where answer: "dr_try_send ops ?frame w2 = (answer, w3)" by fastforce
  let ?read = "[StopRead False, StatusRead status]"
  let ?l = "?read @ [Offered (?frame, answer)]"
  have paced0: "paced (deadline, seen) ?l = Some (deadline + frame_interval, seen)"
    using Cons.prems(2) by (simp add: frame_interval_value)
  have one: "map fst (offers_of ?l) = first_offers (jpeg # jpegs) sequence 1"
    by (simp add: first_offers_def)
  consider "b" | r where "\<not> b" "check_sink status = Some (r :: 'h app_error + unit)"
    | "\<not> b" "(check_sink status :: ('h app_error + unit) option) = None" "answer = SendDisconnected"
    | "\<not> b" "(check_sink status :: ('h app_error + unit) option) = None" "answer \<noteq> SendDisconnected"
    by (cases "check_sink status :: ('h app_error + unit) option") auto
  then show ?case
  proof cases
    case 1
    then show ?thesis
      using Cons.prems b by (intro stop [of "[StopRead True]" "(deadline, seen)"]) (auto simp: pass_ok_def told_to_end_def)
  next
    case (2 r)
    have "StatusRead status \<in> set ?read" by simp
    note reason = check_sink_reason(1) [OF _ this] check_sink_reason(2) [OF _ this]
    show ?thesis
    proof (cases r)
      case (Inl err)
      then show ?thesis
        using Cons.prems b status 2 reason(2) [of err]
        by (intro stop [of ?read "(deadline, seen)"]) (auto simp: pass_ok_def)
    next
      case (Inr u)
      then show ?thesis
        using Cons.prems b status 2 reason(1)
        by (intro stop [of ?read "(deadline, seen)"]) (auto simp: pass_ok_def check_sink_def split: try_recv.splits sink_status.splits)
    qed
  next
    case 3
    then show ?thesis
      using Cons.prems b status answer check_sink_no_failure [OF 3(2)] paced0 one
      by (intro exI [of _ ?l] exI [of _ 1]) (auto simp: pass_ok_def told_to_end_def)
  next
    case 4
    obtain r w4 l4 where wait: "wait_for_deadline (logged_driver ops) inner (deadline + frame_interval) (w3, l @ ?l)
        = (r, w4, l4)" by (metis prod_cases3)
    from wait_for_deadline_log [OF wait, of "deadline + frame_interval" seen] obtain l1 seen' where l1:
      "l4 = (l @ ?l) @ l1" "offers_of l1 = []" "no_failure l1"
      "paced (deadline + frame_interval, seen) l1 = Some (deadline + frame_interval, seen')"
      "r = Some False \<longrightarrow> deadline + frame_interval \<le> seen'" "r = Some True \<longrightarrow> told_to_end l1" by blast
    have paced1: "paced (deadline, seen) (?l @ l1) = Some (deadline + frame_interval, seen')"
      using paced0 l1(4) by (simp only: paced_append) simp
    have ok: "no_failure (?l @ l1)" using check_sink_no_failure [OF 4(2)] l1(3) by simp
    show ?thesis
    proof (cases "r = Some False")
      case False
      then have e: "e = (if r = None then PassRunning else PassBreak None)" "l' = l @ (?l @ l1)"
        using Cons.prems b status answer 4 wait l1(1) by (auto simp: Let_def split: option.splits bool.splits)
      have "pass_ok e (?l @ l1)"
        using e(1) ok l1(6) False told_to_end_append [of ?l l1] by (cases r) (simp_all add: pass_ok_def)
      then show ?thesis
        using paced1 e one l1(2) by (intro exI [of _ "?l @ l1"] exI [of _ 1]) (auto split: if_splits)
    next
      case True
      have run: "replay_pass (logged_driver ops) inner jpegs (sequence + 1) (deadline + frame_interval) (w4, l4)
          = (e, sequence', deadline', w', l')"
        using Cons.prems b status answer 4 wait True by (simp add: Let_def)
      have "deadline + frame_interval \<le> seen'" using l1(5) True by simp
      from Cons.IH [OF run this] obtain l2 n s' where l2: "l' = l4 @ l2" "n \<le> length jpegs"
        "map fst (offers_of l2) = first_offers jpegs (sequence + 1) n" "pass_ok e l2"
        "paced (deadline + frame_interval, seen') l2 = Some s'"
        "e = PassDone \<longrightarrow> n = length jpegs \<and> sequence' = sequence + 1 + of_nat n \<and> fst s' = deadline' \<and> deadline' \<le> snd s'"
        by blast
      have "paced (deadline, seen) ((?l @ l1) @ l2) = Some s'"
        using paced1 l2(5) by (simp only: paced_append) simp
      moreover have "pass_ok e ((?l @ l1) @ l2)"
        using pass_ok_append [OF ok l2(4)] by simp
      ultimately show ?thesis
        using l1(1,2) l2
        by (intro exI [of _ "(?l @ l1) @ l2"] exI [of _ "Suc n"] exI [of _ s'])
          (auto simp: first_offers_Suc algebra_simps)
    qed
  qed
qed

text \<open>The offers of a replay: the images over and over.\<close>

definition looped_offers :: "bytes list \<Rightarrow> u64 \<Rightarrow> nat \<Rightarrow> compressed_frame list" where
  "looped_offers jpegs sequence n =
     map (\<lambda>k. replay_frame (sequence + of_nat k) (jpegs ! (k mod length jpegs))) [0..<n]"

lemma first_offers_looped: "n \<le> length jpegs \<Longrightarrow> first_offers jpegs sequence n = looped_offers jpegs sequence n"
  by (simp add: first_offers_def looped_offers_def)

lemma looped_offers_add:
  "looped_offers jpegs sequence (length jpegs + n)
     = looped_offers jpegs sequence (length jpegs) @ looped_offers jpegs (sequence + of_nat (length jpegs)) n"
  by (rule nth_equalityI) (auto simp: looped_offers_def nth_append le_mod_geq of_nat_diff)

lemma length_looped_offers [simp]: "length (looped_offers jpegs sequence n) = n"
  by (simp add: looped_offers_def)

lemma replay_loop_log:
  "replay_loop (logged_driver ops) inner steps jpegs repeat sequence deadline (w, l)
      = (r :: 'h app_error option option, w', l') \<Longrightarrow> deadline \<le> seen \<Longrightarrow>
   \<exists>l1 n s'. l' = l @ l1 \<and> map fst (offers_of l1) = looped_offers jpegs sequence n
     \<and> paced (deadline, seen) l1 = Some s' \<and> (\<not> repeat \<longrightarrow> n \<le> length jpegs)
     \<and> (r = Some None \<longrightarrow> no_failure l1 \<and> (told_to_end l1 \<or> (\<not> repeat \<and> n = length jpegs)))
     \<and> (\<forall>e. r = Some (Some e) \<longrightarrow> worker_error l1 e)"
proof (induction steps arbitrary: sequence deadline w l seen)
  case 0
  then show ?case by (intro exI [of _ "[]"] exI [of _ 0]) (auto simp: looped_offers_def)
next
  case (Suc steps)
  obtain e sequence1 deadline1 w1 l1' where pass: "replay_pass (logged_driver ops) inner jpegs sequence deadline (w, l)
      = (e :: 'h pass_end, sequence1, deadline1, w1, l1')" by (metis prod_cases5)
  obtain l1 n s1 where l1: "l1' = l @ l1" "n \<le> length jpegs" "map fst (offers_of l1) = looped_offers jpegs sequence n"
    "pass_ok e l1" "paced (deadline, seen) l1 = Some s1"
    "e = PassDone \<longrightarrow> n = length jpegs \<and> sequence1 = sequence + of_nat n \<and> fst s1 = deadline1 \<and> deadline1 \<le> snd s1"
    using replay_pass_log [OF pass Suc.prems(2)] first_offers_looped by metis
  show ?case
  proof (cases "e = PassDone \<and> repeat")
    case False
    then show ?thesis
      using Suc.prems pass l1
      by (intro exI [of _ l1] exI [of _ n] exI [of _ s1])
        (auto simp: pass_ok_def split: pass_end.splits)
  next
    case True
    then have run: "replay_loop (logged_driver ops) inner steps jpegs repeat sequence1 deadline1 (w1, l1') = (r, w', l')"
      and all: "n = length jpegs" "sequence1 = sequence + of_nat n" "s1 = (deadline1, snd s1)" "deadline1 \<le> snd s1"
      using Suc.prems pass l1(6) by (auto simp: prod_eq_iff)
    from Suc.IH [OF run all(4)] obtain l2 m s2 where l2: "l' = l1' @ l2"
      "map fst (offers_of l2) = looped_offers jpegs sequence1 m" "paced (deadline1, snd s1) l2 = Some s2"
      "r = Some None \<longrightarrow> no_failure l2 \<and> (told_to_end l2 \<or> (\<not> repeat \<and> m = length jpegs))"
      "\<forall>e. r = Some (Some e) \<longrightarrow> worker_error l2 e"
      by blast
    have "paced (deadline, seen) (l1 @ l2) = Some s2"
      using l1(5) all(3) l2(3) by (simp add: paced_append)
    then show ?thesis
      using l1 l2 all(1,2) True
      by (intro exI [of _ "l1 @ l2"] exI [of _ "length jpegs + m"] exI [of _ s2])
        (auto simp: looped_offers_add pass_ok_def)
  qed
qed

text \<open>
  What the worker leaves behind: its statuses, received one after the other until there
  is none, and the messages of the failures among them.
\<close>

fun statuses_left :: "('w, 'm) driver_ops_scheme \<Rightarrow> 'w \<Rightarrow> sink_status list \<Rightarrow> 'w \<Rightarrow> bool" where
  "statuses_left ops w [] w' \<longleftrightarrow>
     (case dr_try_recv_status ops w of (Received _, _) \<Rightarrow> False | (_, w1) \<Rightarrow> w' = w1)"
| "statuses_left ops w (s # ss) w' \<longleftrightarrow>
     (case dr_try_recv_status ops w of (Received s', w1) \<Rightarrow> s' = s \<and> statuses_left ops w1 ss w' | _ \<Rightarrow> False)"

fun failure_messages :: "sink_status list \<Rightarrow> string list" where
  "failure_messages [] = []"
| "failure_messages (SinkFailed message # ss) = message # failure_messages ss"
| "failure_messages (s # ss) = failure_messages ss"

definition drained_error :: "'h app_error option \<Rightarrow> sink_status list \<Rightarrow> 'h app_error option" where
  "drained_error sink_error ss =
     (if failure_messages ss = [] then sink_error else Some (SinkError (last (failure_messages ss))))"

lemma failure_messages_set: "message \<in> set (failure_messages ss) \<longleftrightarrow> SinkFailed message \<in> set ss"
  by (induction ss rule: failure_messages.induct) auto

lemma no_failure_received: "no_failure (map (\<lambda>s. StatusRead (Received s)) ss) \<longleftrightarrow> failure_messages ss = []"
  by (induction ss rule: failure_messages.induct) auto

lemma drained_error_Cons:
  "drained_error sink_error (s # ss)
     = drained_error (case s of SinkFailed message \<Rightarrow> Some (SinkError message) | _ \<Rightarrow> sink_error) ss"
  by (cases s) (simp_all add: drained_error_def)

text \<open>The log of a drain.\<close>

definition drain_log :: "sink_status list \<Rightarrow> driver_log list \<Rightarrow> bool" where
  "drain_log ss l \<longleftrightarrow>
     (\<exists>end'. l = map (\<lambda>s. StatusRead (Received s)) ss @ [StatusRead end'] \<and> end' \<in> {Empty, Disconnected})"

lemma drain_log_quiet:
  assumes "drain_log ss l"
  shows "offers_of l = []" "paced s l = Some s" "no_failure l \<longleftrightarrow> failure_messages ss = []"
proof -
  have "offers_of (map (\<lambda>s. StatusRead (Received s)) ss) = []"
    "paced s (map (\<lambda>s. StatusRead (Received s)) ss) = Some s" for ss
    by (induction ss; cases s; simp)+
  then show "offers_of l = []" "paced s l = Some s" "no_failure l \<longleftrightarrow> failure_messages ss = []"
    using assms by (cases s; auto simp: drain_log_def paced_append no_failure_received)+
qed

lemma drain_log_error:
  assumes "drain_log ss l2" and "drained_error sink_error ss = Some e"
    and "\<forall>e. sink_error = Some e \<longrightarrow> worker_error l1 e"
  shows "worker_error (l1 @ l2) e"
proof (cases "failure_messages ss = []")
  case True
  then show ?thesis using assms(2,3) by (auto simp: drained_error_def)
next
  case False
  then have "SinkFailed (last (failure_messages ss)) \<in> set ss" by (simp add: failure_messages_set [symmetric])
  then have "worker_error l2 (SinkError (last (failure_messages ss)))"
    using assms(1) by (auto simp: drain_log_def worker_error_def)
  then show ?thesis using assms(2) False by (auto simp: drained_error_def)
qed

lemma drain_statuses_log:
  "drain_statuses (logged_driver ops) steps sink_error (w, l) = (r :: 'h app_error option option, w', l') \<Longrightarrow>
     \<exists>l1. l' = l @ l1 \<and> offers_of l1 = [] \<and> paced s l1 = Some s
       \<and> (\<forall>d. r = Some d \<longrightarrow> (\<exists>ss. drain_log ss l1 \<and> statuses_left ops w ss w' \<and> d = drained_error sink_error ss))"
proof (induction steps arbitrary: sink_error w l)
  case 0
  then show ?case by (intro exI [of _ "[]"]) auto
next
  case (Suc steps)
  obtain status w1 where status: "dr_try_recv_status ops w = (status, w1)" by fastforce
  show ?case
  proof (cases "\<exists>x. status = Received x")
    case False
    then have "drain_log [] [StatusRead status] \<and> statuses_left ops w [] w' \<and> r = Some (drained_error sink_error [])"
      and "l' = l @ [StatusRead status]"
      using Suc.prems status by (auto simp: drain_log_def drained_error_def split: try_recv.splits)
    then show ?thesis by (cases s) auto
  next
    case True
    then obtain x where x: "status = Received x" by blast
    let ?error = "case x of SinkFailed error \<Rightarrow> Some (SinkError error) | _ \<Rightarrow> sink_error"
    have "drain_statuses (logged_driver ops) steps ?error (w1, l @ [StatusRead status]) = (r, w', l')"
      using Suc.prems status x by (auto split: sink_status.splits)
    from Suc.IH [OF this] obtain l1 where l1: "l' = (l @ [StatusRead status]) @ l1" "offers_of l1 = []"
      "paced s l1 = Some s"
      and rest: "\<And>d. r = Some d \<Longrightarrow> \<exists>ss. drain_log ss l1 \<and> statuses_left ops w1 ss w' \<and> d = drained_error ?error ss"
      by blast
    have "\<exists>ss. drain_log ss (StatusRead status # l1) \<and> statuses_left ops w ss w' \<and> d = drained_error sink_error ss"
      if "r = Some d" for d
    proof -
      from rest [OF that] obtain ss where "drain_log ss l1" "statuses_left ops w1 ss w'" "d = drained_error ?error ss" by blast
      then show ?thesis
        by (intro exI [of _ "x # ss"]) (auto simp: drain_log_def drained_error_Cons status x)
    qed
    then show ?thesis
      using l1 by (cases s) (auto intro!: exI [of _ "StatusRead status # l1"])
  qed
qed

lemma run_replay_cases:
  assumes "run_replay files (logged_driver ops) args inner steps (w, []) = (result :: ('h app_error + unit) option, w', l)"
  obtains (refused) e where "result = Some (Inl e)" "l = []"
      "load_replay_frames files (ra_input args) = (Inl e :: 'h app_error + bytes list)
        \<or> start_error ops (choose_target (ra_output args)) (ra_format args) w e"
  | (running) jpegs t w1 w2 where "load_replay_frames files (ra_input args) = (Inr jpegs :: 'h app_error + bytes list)"
      "replay_loop (logged_driver ops) inner steps jpegs (ra_repeat args) 0 t (w1, [TimeRead t])
        = (None :: 'h app_error option option, w2, l)" "result = None"
  | (panicked) jpegs t w1 sink_error w2 where "load_replay_frames files (ra_input args) = (Inr jpegs :: 'h app_error + bytes list)"
      "replay_loop (logged_driver ops) inner steps jpegs (ra_repeat args) 0 t (w1, [TimeRead t])
        = (Some sink_error :: 'h app_error option option, w2, l)"
      "dr_join ops w2 = (False, w')" "result = Some (Inl SinkPanicked)"
  | (joined) jpegs t w1 sink_error w2 l2 w3 d where "load_replay_frames files (ra_input args) = (Inr jpegs :: 'h app_error + bytes list)"
      "replay_loop (logged_driver ops) inner steps jpegs (ra_repeat args) 0 t (w1, [TimeRead t])
        = (Some sink_error :: 'h app_error option option, w2, l2)"
      "dr_join ops w2 = (True, w3)"
      "drain_statuses (logged_driver ops) inner sink_error (w3, l2) = (d, w', l)"
      "result = map_option (\<lambda>d. case d of None \<Rightarrow> Inr () | Some e \<Rightarrow> Inl e) d"
proof (cases "load_replay_frames files (ra_input args) :: 'h app_error + bytes list")
  case (Inl e)
  then show ?thesis using assms by (intro refused [of e]) (auto simp: run_replay_def)
next
  case (Inr jpegs)
  obtain signals w1 where signals: "dr_signals ops w = (signals, w1)" by fastforce
  let ?spawned = "dr_spawn ops (choose_target (ra_output args)) (ra_format args) w1"
  obtain status w2 where status: "dr_recv_status ops ?spawned = (status, w2)" by fastforce
  note loaded = Inr
  show ?thesis
  proof (cases signals)
    case (Inl source)
    then show ?thesis
      using assms loaded signals start_error_cases(1) [of ops w source w1]
      by (intro refused [of "SignalError source"]) (auto simp: run_replay_def)
  next
    case (Inr u)
    note installed = signals [unfolded Inr]
    show ?thesis
    proof (cases "wait_for_sink status :: 'h app_error + unit")
      case (Inl e)
      then show ?thesis
        using assms loaded installed status start_error_cases(2) [OF installed status Inl]
        by (intro refused [of e]) (auto simp: run_replay_def)
    next
      case (Inr u')
      obtain t w3 where t: "dr_now ops w2 = (t, w3)" by fastforce
      obtain r w4 l4 where run: "replay_loop (logged_driver ops) inner steps jpegs (ra_repeat args) 0 t (w3, [TimeRead t])
          = (r :: 'h app_error option option, w4, l4)" by (metis prod_cases3)
      obtain j w5 where j: "dr_join ops w4 = (j, w5)" by fastforce
      note all = loaded installed status Inr t run j
      show ?thesis
      proof (cases r)
        case None
        then show ?thesis using assms all by (intro running [of jpegs t w3 w4]) (auto simp: run_replay_def)
      next
        case (Some e)
        obtain d w6 l6 where drain: "drain_statuses (logged_driver ops) inner e (w5, l4)
            = (d :: 'h app_error option option, w6, l6)" by (metis prod_cases3)
        show ?thesis
        proof (cases j)
          case False
          then show ?thesis
            using assms all Some by (intro panicked [of jpegs t w3 e w4]) (auto simp: run_replay_def)
        next
          case True
          then have "(result, w', l) = (map_option (\<lambda>d. case d of None \<Rightarrow> Inr () | Some e \<Rightarrow> Inl e) d, w6, l6)"
            using assms all Some drain by (auto simp: run_replay_def split: option.splits)
          then show ?thesis
            using all Some True drain by (intro joined [of jpegs t w3 e w4 l4 w5 d]) auto
        qed
      qed
    qed
  qed
qed

lemma run_replay_log:
  assumes "run_replay files (logged_driver ops) args inner steps (w, []) = (result :: ('h app_error + unit) option, w', l)"
    and "l \<noteq> []"
  shows "\<exists>jpegs t l1 n s. load_replay_frames files (ra_input args) = (Inr jpegs :: 'h app_error + bytes list)
      \<and> l = TimeRead t # l1 \<and> paced (t, t) l1 = Some s \<and> map fst (offers_of l) = looped_offers jpegs 0 n
      \<and> (\<not> ra_repeat args \<longrightarrow> n \<le> length jpegs)"
proof -
  have quiet: ?thesis if "load_replay_frames files (ra_input args) = (Inr jpegs :: 'h app_error + bytes list)"
    "replay_loop (logged_driver ops) inner steps jpegs (ra_repeat args) 0 t (w1, [TimeRead t])
      = (r :: 'h app_error option option, w2, l2)" "l = l2 @ l3" "offers_of l3 = []" "\<And>s. paced s l3 = Some s"
    for jpegs t w1 r w2 l2 l3
    using replay_loop_log [OF that(2) order_refl] that by (fastforce simp: paced_append)
  show ?thesis
    using assms(1)
  proof (cases rule: run_replay_cases)
    case (refused e)
    then show ?thesis using assms(2) by simp
  next
    case (running jpegs t w1 w2)
    then show ?thesis by (intro quiet [of jpegs t w1 None w2 l "[]"]) simp_all
  next
    case (panicked jpegs t w1 e w2)
    then show ?thesis by (intro quiet [of jpegs t w1 "Some e" w2 l "[]"]) simp_all
  next
    case (joined jpegs t w1 e w2 l2 w3 d)
    obtain l3 where l3: "l = l2 @ l3" "offers_of l3 = []"
      using drain_statuses_log [OF joined(4), of "(0, 0)"] by blast
    then have "paced s l3 = Some s" for s
      using drain_statuses_log [OF joined(4), of s] by auto
    with l3 joined(1,2) show ?thesis by (intro quiet)
  qed
qed

text \<open>One image, and a clock whose sleeping takes 40 milliseconds.\<close>

definition one_image :: replay_files where
  "one_image =
     \<lparr>rf_is_dir = (\<lambda>_. False), rf_read_dir = (\<lambda>_. Inr []), rf_is_file = (\<lambda>_. True),
      rf_extension = (\<lambda>_. None), rf_read = (\<lambda>_. Inr [0xff, 0xd8, 0xff, 0xd9])\<rparr>"

definition slow_clock :: "nat driver_ops" where
  "slow_clock =
     \<lparr>dr_stopping = (\<lambda>t. (False, t)), dr_now = (\<lambda>t. (t, t)), dr_sleep = (\<lambda>n t. t + max n 40000000),
      dr_signals = (\<lambda>t. (Inr (), t)), dr_spawn = (\<lambda>_ _ t. t), dr_recv_status = (\<lambda>t. (Some SinkReady, t)),
      dr_try_recv_status = (\<lambda>t. (Empty, t)), dr_try_send = (\<lambda>_ t. (SendOk, t)),
      dr_send = (\<lambda>_ t. (True, t)), dr_join = (\<lambda>t. (True, t))\<rparr>"

definition image_args :: replay_args where
  "image_args = \<lparr>ra_input = ''image.jpg'', ra_output = ''-'', ra_format = Mjpeg, ra_repeat = False\<rparr>"

interpretation slow: sleeping_clock slow_clock "\<lambda>t. t"
  by unfold_locales (auto simp: slow_clock_def)

lemma one_image_replayed:
  "\<exists>l. run_replay one_image (logged_driver slow_clock) image_args 2 1 (0, [])
      = (Some (Inr ()) :: (string app_error + unit) option, 40000000, l) \<and> length (offers_of l) = 1"
  unfolding run_replay_def One_nat_def numeral_2_eq_2 replay_loop.simps drain_statuses.simps
  by (simp add: load_replay_frames_def one_image_def image_args_def rbind_def is_complete_jpeg_def
      starts_with_def ends_with_def slow_clock_def wait_for_sink_def check_sink_def frame_interval_value Let_def)

text \<open>
  Property C25. The replay command offers the loaded images to the worker in order, from
  the first, over and over when it repeats, with consecutive sequence numbers and the
  timestamps of a 25 Hz camera; and it keeps the pace: frame \<open>k\<close> is never offered before
  the clock has shown 40\<open>k\<close> milliseconds after the start. Without repetition each image is
  offered at most once.
\<close>

theorem replay_offers_in_pace:
  assumes "run_replay files (logged_driver ops) args inner steps (w, []) = (result :: ('h app_error + unit) option, w', l)"
    and "offers_of l \<noteq> []"
  shows "\<exists>jpegs t l1. load_replay_frames files (ra_input args) = (Inr jpegs :: 'h app_error + bytes list)
    \<and> l = TimeRead t # l1 \<and> paced (t, t) l1 \<noteq> None
    \<and> map fst (offers_of l) = looped_offers jpegs 0 (length (offers_of l))
    \<and> (\<not> ra_repeat args \<longrightarrow> length (offers_of l) \<le> length jpegs)"
proof -
  have "l \<noteq> []" using assms(2) by auto
  from run_replay_log [OF assms(1) this] obtain jpegs t l1 n s where
    frames: "load_replay_frames files (ra_input args) = (Inr jpegs :: 'h app_error + bytes list)"
    and log: "l = TimeRead t # l1" "paced (t, t) l1 = Some s" "\<not> ra_repeat args \<longrightarrow> n \<le> length jpegs"
    and offers: "map fst (offers_of l) = looped_offers jpegs 0 n" by blast
  have "n = length (offers_of l)" using arg_cong [OF offers, of length] by simp
  then show ?thesis using frames log offers by auto
qed

theorem replay_offers_in_pace_witness:
  "\<exists>jpegs t l1 l. run_replay one_image (logged_driver slow_clock) image_args 2 1 (0, [])
      = (Some (Inr ()) :: (string app_error + unit) option, 40000000, l)
    \<and> l = TimeRead t # l1 \<and> paced (t, t) l1 \<noteq> None
    \<and> map fst (offers_of l) = looped_offers jpegs 0 1"
proof -
  obtain l where run: "run_replay one_image (logged_driver slow_clock) image_args 2 1 (0, [])
      = (Some (Inr ()) :: (string app_error + unit) option, 40000000, l)" and one: "length (offers_of l) = 1"
    using one_image_replayed by blast
  from one have "offers_of l \<noteq> []" by auto
  from replay_offers_in_pace [OF run this] run one show ?thesis by auto
qed

text \<open>
  Property C27. The replay command does not lose a failure of the worker. When it reports
  success, the worker was joined without a panic, every status that it had left was then
  received, until there was none, no status received before or after was a failure, and
  before the worker was joined the command had offered every image or was told to end.
  When it reports an error, either it had not started, because the images cannot be loaded
  or the signal handlers or the worker fail at the start with this error; or joining the
  worker showed a panic; or a status of the worker reported it, again with every
  status received that was left, the last failure among these being the one reported.
\<close>

theorem replay_reports_failures:
  assumes "run_replay files (logged_driver ops) args inner steps (w, []) = (Some result :: ('h app_error + unit) option, w', l)"
  shows "case result of
      Inr _ \<Rightarrow> (\<exists>w1 w2 l1 l2 ss. dr_join ops w1 = (True, w2) \<and> statuses_left ops w2 ss w'
          \<and> l = l1 @ l2 \<and> drain_log ss l2 \<and> no_failure l
          \<and> (told_to_end l1 \<or>
              (\<exists>jpegs. load_replay_frames files (ra_input args) = (Inr jpegs :: 'h app_error + bytes list)
                \<and> \<not> ra_repeat args \<and> map fst (offers_of l1) = looped_offers jpegs 0 (length jpegs))))
    | Inl e \<Rightarrow>
        if l = []
        then load_replay_frames files (ra_input args) = (Inl e :: 'h app_error + bytes list)
          \<or> start_error ops (choose_target (ra_output args)) (ra_format args) w e
        else (e = SinkPanicked \<and> (\<exists>w1. dr_join ops w1 = (False, w')))
          \<or> (worker_error l e
            \<and> (\<exists>w1 w2 ss. dr_join ops w1 = (True, w2) \<and> statuses_left ops w2 ss w'
              \<and> (failure_messages ss \<noteq> [] \<longrightarrow> e = SinkError (last (failure_messages ss)))))"
  using assms
proof (cases rule: run_replay_cases)
  case (refused e)
  then show ?thesis by simp
next
  case (panicked jpegs t w1 sink_error w2)
  then show ?thesis using replay_loop_log [OF panicked(2) order_refl] by auto
next
  case (joined jpegs t w1 sink_error w2 l2 w3 d)
  from replay_loop_log [OF joined(2) order_refl] obtain l1 n where l1: "l2 = TimeRead t # l1"
    "map fst (offers_of l2) = looped_offers jpegs 0 n"
    "sink_error = None \<longrightarrow> no_failure l1 \<and> (told_to_end l1 \<or> (\<not> ra_repeat args \<and> n = length jpegs))"
    "\<forall>e. sink_error = Some e \<longrightarrow> worker_error l1 e" by auto
  then have told: "told_to_end l1 \<longrightarrow> told_to_end l2" and fails: "\<forall>e. sink_error = Some e \<longrightarrow> worker_error l2 e"
    using told_to_end_append [of "[TimeRead t]" l1] worker_error_append(2) [of l1 _ "[TimeRead t]"] by auto
  obtain d' where d: "d = Some d'" using joined(5) by (cases d) auto
  then obtain l3 ss where l3: "l = l2 @ l3" "drain_log ss l3" "statuses_left ops w3 ss w'" "d' = drained_error sink_error ss"
    using drain_statuses_log [OF joined(4), of "(0, 0)"] by blast
  show ?thesis
  proof (cases d')
    case None
    then have "sink_error = None" "failure_messages ss = []"
      using l3(4) by (auto simp: drained_error_def split: if_splits)
    then have "no_failure l" "told_to_end l2 \<or> (\<not> ra_repeat args \<and> map fst (offers_of l2) = looped_offers jpegs 0 (length jpegs))"
      using l1 l3(1) told drain_log_quiet(3) [OF l3(2)] by auto
    moreover have "result = Inr ()" using None joined(5) d by simp
    ultimately show ?thesis
      using joined(1,3) l3(1-3)
      by (simp only: sum.case) (intro exI [of _ w2] exI [of _ w3] exI [of _ l2] exI [of _ l3] exI [of _ ss], blast)
  next
    case (Some e)
    have "worker_error l e" "failure_messages ss \<noteq> [] \<longrightarrow> e = SinkError (last (failure_messages ss))"
      using drain_log_error [OF l3(2) _ fails] l3(1,4) Some by (auto simp: drained_error_def)
    then show ?thesis using Some joined(3,5) d l1(1) l3 by auto
  qed
qed simp

theorem replay_reports_failures_witness:
  "\<exists>l ss t. run_replay one_image (logged_driver slow_clock) image_args 2 1 (0, [])
      = (Some (Inr ()) :: (string app_error + unit) option, 40000000, l) \<and> no_failure l
    \<and> dr_join slow_clock t = (True, t) \<and> statuses_left slow_clock t ss 40000000"
proof -
  obtain l where run: "run_replay one_image (logged_driver slow_clock) image_args 2 1 (0, [])
      = (Some (Inr ()) :: (string app_error + unit) option, 40000000, l)"
    using one_image_replayed by blast
  from replay_reports_failures [OF run] run show ?thesis by (auto simp: slow_clock_def)
qed

subsection \<open>Extracted captures\<close>

text \<open>
  The packets that the lines of the metadata describe, read independently of the decoder;
  \<open>None\<close> when a line is in error.
\<close>

fun metadata_packets ::
  "'j json_ops \<Rightarrow> bytes \<Rightarrow> bytes \<Rightarrow> (string + string) list \<Rightarrow> endpoint_packet list option" where
  "metadata_packets json ep81 ep82 [] = Some []"
| "metadata_packets json ep81 ep82 (line # lines) =
     (case (metadata_packet json [] ep81 ep82 0 line :: unit app_error + endpoint_packet option) of
        Inl _ \<Rightarrow> None
      | Inr packet \<Rightarrow>
          map_option (\<lambda>packets. case packet of None \<Rightarrow> packets | Some p \<Rightarrow> p # packets)
            (metadata_packets json ep81 ep82 lines))"

text \<open>Only the error of a line depends on its number and the path.\<close>

lemma metadata_packet_number:
  assumes "(metadata_packet json path ep81 ep82 n line :: 'h app_error + endpoint_packet option) = Inr r"
  shows "(metadata_packet json path' ep81 ep82 m line :: 'k app_error + endpoint_packet option) = Inr r"
proof -
  obtain content where line: "line = Inr content"
    using assms by (cases line) (auto simp: metadata_packet_def rbind_def)
  obtain row where row: "js_parse json content = Inr row"
    using assms line by (cases "js_parse json content") (auto simp: metadata_packet_def rbind_def)
  obtain name where name: "js_str json row ''endpoint'' = Some name"
    using assms line row by (cases "js_str json row ''endpoint''") (auto simp: metadata_packet_def rbind_def)
  show ?thesis
    using assms line row name
    by (cases "js_u64 json row ''length''"; cases "js_u64 json row ''data_offset''")
      (simp_all add: metadata_packet_def metadata_usize_def rbind_def Let_def split: if_splits)
qed

lemma pace_log:
  "pace (logged_driver ops) steps deadline (w, l) = (r, w', l') \<Longrightarrow>
     \<exists>l1. l' = l @ l1 \<and> sends_of l1 = [] \<and> no_failure l1"
proof (induction steps arbitrary: w l)
  case 0
  then show ?case by auto
next
  case (Suc steps)
  obtain t w1 where t: "dr_now ops w = (t, w1)" by fastforce
  obtain t' w2 where t': "dr_now ops w1 = (t', w2)" by fastforce
  show ?case
  proof (cases "t < deadline")
    case False
    then show ?thesis using Suc.prems t by (intro exI [of _ "[TimeRead t]"]) auto
  next
    case True
    let ?n = "min (deadline - t') 10000000"
    have "pace (logged_driver ops) steps deadline (dr_sleep ops ?n w2, l @ [TimeRead t, TimeRead t', Slept ?n]) = (r, w', l')"
      using Suc.prems t t' True by simp
    from Suc.IH [OF this] show ?thesis by auto
  qed
qed

definition packet_event :: "endpoint_packet \<Rightarrow> session_event" where
  "packet_event p = Packet (ep_endpoint p) (ep_data p) 0"

text \<open>The counts after some packets, of whose frames this many were delivered.\<close>

definition replay_counted ::
  "stream_decoder \<Rightarrow> endpoint_packet list \<Rightarrow> nat \<Rightarrow> replay_counts \<Rightarrow> replay_counts" where
  "replay_counted decoder ps frames counts =
     counts\<lparr>rc_packets := rc_packets counts + of_nat (length ps),
            rc_frames := rc_frames counts + of_nat frames,
            rc_errors := rc_errors counts + of_nat (decode_errors (map packet_event ps) decoder)\<rparr>"

definition delivered :: "driver_log list \<Rightarrow> nat" where
  "delivered l = length (filter snd (sends_of l))"

lemma replay_lines_log:
  "replay_lines json (logged_driver ops) path ep81 ep82 realtime inner offset' lines decoder deadline counts (w, l)
      = (r :: ('h app_error + unit) option, counts', w', l') \<Longrightarrow>
   \<exists>l1 past rest ps. l' = l @ l1 \<and> lines = past @ rest \<and> metadata_packets json ep81 ep82 past = Some ps
     \<and> map fst (sends_of l1) = fst (decoded_frames (map packet_event ps) decoder)
     \<and> counts' = replay_counted decoder ps (delivered l1) counts
     \<and> (r = Some (Inr ()) \<longrightarrow> rest = [] \<or> False \<in> snd ` set (sends_of l1)) \<and> no_failure l1"
proof (induction lines arbitrary: offset' decoder deadline counts w l)
  case Nil
  then show ?case
    by (intro exI [of _ "[]"]) (auto simp: replay_counted_def delivered_def)
next
  case (Cons line lines)
  obtain mp where mp: "metadata_packet json path ep81 ep82 (offset' + 1) line = (mp :: 'h app_error + endpoint_packet option)"
    by blast
  consider err where "mp = Inl err" | "mp = Inr None" | packet where "mp = Inr (Some packet)"
    by (cases mp) auto
  then show ?case
  proof cases
    case (1 err)
    then show ?thesis
      using Cons.prems mp
      by (intro exI [of _ "[]"] exI [of _ "line # lines"]) (auto simp: replay_counted_def delivered_def)
  next
    case 2
    then have "replay_lines json (logged_driver ops) path ep81 ep82 realtime inner (offset' + 1) lines decoder deadline
        counts (w, l) = (r, counts', w', l')"
      using Cons.prems mp by simp
    from Cons.IH [OF this] obtain l1 past rest ps where rest: "l' = l @ l1" "lines = past @ rest"
      "metadata_packets json ep81 ep82 past = Some ps"
      "map fst (sends_of l1) = fst (decoded_frames (map packet_event ps) decoder)"
      "counts' = replay_counted decoder ps (delivered l1) counts"
      "r = Some (Inr ()) \<longrightarrow> rest = [] \<or> False \<in> snd ` set (sends_of l1)" "no_failure l1" by blast
    have "metadata_packets json ep81 ep82 (line # past) = Some ps"
      using rest(3) metadata_packet_number [OF mp [unfolded 2], where path' = "[]" and m = 0 and 'k = unit] by simp
    then show ?thesis
      using rest
      by (intro exI [of _ l1] exI [of _ "line # past"] exI [of _ rest] exI [of _ ps]) simp
  next
    case (3 packet)
    let ?counts = "counts\<lparr>rc_packets := rc_packets counts + 1\<rparr>"
    have line: "metadata_packets json ep81 ep82 (line # past) = Some (packet # ps)"
      if "metadata_packets json ep81 ep82 past = Some ps" for past ps
      using that metadata_packet_number [OF mp [unfolded 3], where path' = "[]" and m = 0 and 'k = unit] by simp
    have go_on: ?thesis
      if run: "replay_lines json (logged_driver ops) path ep81 ep82 realtime inner (offset' + 1) lines decoder1 deadline1
          counts1 (w1, l @ l0) = (r, counts', w', l')"
        and l0: "no_failure l0" "False \<notin> snd ` set (sends_of l0)"
        and frames: "decoded_frames [packet_event packet] decoder = (map fst (sends_of l0), decoder1)"
        and counts1: "counts1 = replay_counted decoder [packet] (delivered l0) counts"
      for decoder1 deadline1 counts1 w1 l0
    proof -
      from Cons.IH [OF run] obtain l1 past rest ps where rest: "l' = (l @ l0) @ l1" "lines = past @ rest"
        "metadata_packets json ep81 ep82 past = Some ps"
        "map fst (sends_of l1) = fst (decoded_frames (map packet_event ps) decoder1)"
        "counts' = replay_counted decoder1 ps (delivered l1) counts1"
        "r = Some (Inr ()) \<longrightarrow> rest = [] \<or> False \<in> snd ` set (sends_of l1)" "no_failure l1" by blast
      have "counts' = replay_counted decoder (packet # ps) (delivered (l0 @ l1)) counts"
        using decode_errors_append [of "[packet_event packet]" "map packet_event ps" decoder] frames
        by (simp add: rest(5) counts1 replay_counted_def delivered_def add.assoc)
      moreover have "map fst (sends_of (l0 @ l1)) = fst (decoded_frames (map packet_event (packet # ps)) decoder)"
        using decoded_frames_append [of "[packet_event packet]" "map packet_event ps" decoder] frames rest(4)
        by (simp split: prod.split)
      ultimately show ?thesis
        using rest line [OF rest(3)] l0
        by (intro exI [of _ "l0 @ l1"] exI [of _ "line # past"] exI [of _ rest] exI [of _ "packet # ps"]) auto
    qed
    have stop: ?thesis
      if "l' = l @ l0" "no_failure l0"
        and "fst (decoded_frames [packet_event packet] decoder) = map fst (sends_of l0)"
        and "counts' = replay_counted decoder [packet] (delivered l0) counts"
        and "r = Some (Inr ()) \<longrightarrow> False \<in> snd ` set (sends_of l0)"
      for l0
      using that line [of "[]" "[]"]
      by (intro exI [of _ l0] exI [of _ "[line]"] exI [of _ lines] exI [of _ "[packet]"]) auto
    have event: "packet_event packet = Packet (ep_endpoint packet) (ep_data packet) 0"
      "\<lparr>ep_endpoint = ep_endpoint packet, ep_data = ep_data packet\<rparr> = packet"
      by (simp_all add: packet_event_def)
    obtain result decoder1 where push: "push_packet decoder packet = (result, decoder1)" by fastforce
    consider err where "result = Inl err" | "result = Inr None" | frame where "result = Inr (Some frame)"
      by (cases result) auto
    then show ?thesis
    proof cases
      case (1 err)
      then show ?thesis
        using Cons.prems mp 3 push
        by (intro go_on [of "decoder_reset decoder1" deadline _ w "[]"])
          (auto simp: Let_def event replay_counted_def delivered_def)
    next
      case 2
      then show ?thesis
        using Cons.prems mp 3 push
        by (intro go_on [of decoder1 deadline _ w "[]"]) (auto simp: Let_def event replay_counted_def delivered_def)
    next
      case (3 frame)
      obtain ok w1 where send: "dr_send ops frame w = (ok, w1)" by fastforce
      have decoded: "decoded_frames [packet_event packet] decoder = ([frame], decoder1)"
        using push 3 by (simp add: event)
      have errors: "decode_errors [packet_event packet] decoder = 0"
        using push 3 by (simp add: event)
      let ?l0 = "[Sent (frame, ok)]"
      have l0: "no_failure ?l0" "sends_of ?l0 = [(frame, ok)]" by (simp_all add: no_failure_def)
      note eq = Cons.prems mp \<open>mp = Inr (Some packet)\<close> push 3 send
      show ?thesis
      proof (cases ok)
        case False
        then show ?thesis
          using eq l0 decoded errors
          by (intro stop [of ?l0]) (auto simp: Let_def replay_counted_def delivered_def)
      next
        case True
        note delivered = \<open>ok\<close>
        let ?counts1 = "replay_counted decoder [packet] 1 counts"
        have counts1: "?counts\<lparr>rc_frames := rc_frames ?counts + 1\<rparr> = ?counts1"
          using errors by (simp add: replay_counted_def)
        show ?thesis
        proof (cases realtime)
          case False
          then show ?thesis
            using eq l0 decoded delivered counts1
            by (intro go_on [of decoder1 deadline ?counts1 w1 ?l0]) (auto simp: Let_def delivered_def)
        next
          case True
          obtain paced w2 l2 where pace: "pace (logged_driver ops) inner (deadline + frame_interval) (w1, l @ ?l0)
              = (paced, w2, l2)" by (metis prod_cases3)
          from pace_log [OF pace] obtain l1 where l1: "l2 = l @ (?l0 @ l1)" "sends_of l1 = []" "no_failure l1"
            by auto
          have l01: "no_failure (?l0 @ l1)" "sends_of (?l0 @ l1) = [(frame, ok)]"
            using l0 l1 by (simp_all add: no_failure_def)
          show ?thesis
          proof (cases paced)
            case False
            then show ?thesis
              using eq True delivered pace l1(1) l01 decoded counts1
              by (intro stop [of "?l0 @ l1"]) (auto simp: Let_def delivered_def)
          next
            case paced: True
            then show ?thesis
              using eq True delivered pace l1(1) l01 decoded counts1
              by (intro go_on [of decoder1 "deadline + frame_interval" ?counts1 w2 "?l0 @ l1"])
                (auto simp: Let_def delivered_def)
          qed
        qed
      qed
    qed
  qed
qed

lemma first_failure_log:
  "first_failure (logged_driver ops) steps (w, l) = (r :: ('h app_error + unit) option, w', l') \<Longrightarrow>
     \<exists>l1. l' = l @ l1 \<and> sends_of l1 = [] \<and> (r = Some (Inr ()) \<longrightarrow> no_failure l1)"
proof (induction steps arbitrary: w l)
  case 0
  then show ?case by auto
next
  case (Suc steps)
  obtain status w1 where status: "dr_try_recv_status ops w = (status, w1)" by fastforce
  consider (failed) error where "status = Received (SinkFailed error)"
    | (other) x where "status = Received x" "\<forall>error. x \<noteq> SinkFailed error"
    | (ended) "\<forall>x. status \<noteq> Received x"
    by (cases status; blast)
  then show ?case
  proof cases
    case failed
    then show ?thesis using Suc.prems status by (intro exI [of _ "[StatusRead status]"]) auto
  next
    case other
    then have "first_failure (logged_driver ops) steps (w1, l @ [StatusRead status]) = (r, w', l')"
      using Suc.prems status by (cases x) auto
    from Suc.IH [OF this] other show ?thesis by auto
  next
    case ended
    then show ?thesis
      using Suc.prems status by (cases status; intro exI [of _ "[StatusRead status]"]) auto
  qed
qed

lemma run_replay_capture_log:
  assumes "run_replay_capture json join open_lines read_bytes (logged_driver ops) args inner (w, [])
      = (Some (Inr ()) :: ('h app_error + unit) option, counts, w', l)"
  obtains lines ep81 ep82 t l1 counts1 w1 w2 l2 where
    "open_lines (join (rca_input args) ''iso-packets.jsonl'') = Inr lines"
    "read_bytes (join (rca_input args) ''ep81.bin'') = Inr ep81"
    "read_bytes (join (rca_input args) ''ep82.bin'') = Inr ep82"
    "replay_lines json (logged_driver ops) (join (rca_input args) ''iso-packets.jsonl'') ep81 ep82
       (rca_realtime args) inner 0 lines decoder_new t \<lparr>rc_packets = 0, rc_frames = 0, rc_errors = 0\<rparr>
       (w1, [TimeRead t]) = (Some (Inr ()) :: ('h app_error + unit) option, counts, w2, l1)"
    "l = l1 @ l2" "sends_of l2 = []" "no_failure l2"
proof -
  let ?path = "join (rca_input args) ''iso-packets.jsonl''"
  obtain lines where lines: "open_lines ?path = Inr lines"
    using assms by (cases "open_lines ?path") (auto simp: run_replay_capture_def rbind_def Let_def)
  obtain ep81 where ep81: "read_bytes (join (rca_input args) ''ep81.bin'') = Inr ep81"
    using assms lines
    by (cases "read_bytes (join (rca_input args) ''ep81.bin'')") (auto simp: run_replay_capture_def rbind_def Let_def)
  obtain ep82 where ep82: "read_bytes (join (rca_input args) ''ep82.bin'') = Inr ep82"
    using assms lines ep81
    by (cases "read_bytes (join (rca_input args) ''ep82.bin'')") (auto simp: run_replay_capture_def rbind_def Let_def)
  let ?spawned = "dr_spawn ops (choose_target (rca_output args)) (rca_format args) w"
  obtain status w1 where status: "dr_recv_status ops ?spawned = (status, w1)" by fastforce
  obtain u where ready: "(wait_for_sink status :: 'h app_error + unit) = Inr u"
    using assms lines ep81 ep82 status
    by (cases "wait_for_sink status :: 'h app_error + unit") (auto simp: run_replay_capture_def rbind_def Let_def)
  obtain t w2 where t: "dr_now ops w1 = (t, w2)" by fastforce
  obtain r counts1 w3 l1 where run: "replay_lines json (logged_driver ops) ?path ep81 ep82
       (rca_realtime args) inner 0 lines decoder_new t \<lparr>rc_packets = 0, rc_frames = 0, rc_errors = 0\<rparr>
       (w2, [TimeRead t]) = (r :: ('h app_error + unit) option, counts1, w3, l1)"
    by (metis prod_cases4)
  note eq = lines ep81 ep82 status ready t run
  have r: "r = Some (Inr ())"
    using assms eq
    by (cases r; cases "the r") (auto simp: run_replay_capture_def rbind_def Let_def)
  obtain joined w4 where joined: "dr_join ops w3 = (joined, w4)" by fastforce
  obtain d w5 l5 where drain: "first_failure (logged_driver ops) inner (w4, l1)
      = (d :: ('h app_error + unit) option, w5, l5)" by (metis prod_cases3)
  have d: "d = Some (Inr ())" "counts1 = counts" "l5 = l"
    using assms eq r joined drain by (auto simp: run_replay_capture_def rbind_def Let_def split: if_splits)
  from first_failure_log [OF drain] d obtain l2 where "l = l1 @ l2" "sends_of l2 = []" "no_failure l2" by auto
  then show thesis using that lines ep81 ep82 run r d(2) by blast
qed

text \<open>Well-formed lines and a worker that takes everything are enough for the loop to succeed.\<close>

lemma replay_lines_goes_on:
  "metadata_packets json ep81 ep82 lines = Some packets \<Longrightarrow> (\<And>f w. fst (dr_send ops f w)) \<Longrightarrow>
     fst (replay_lines json ops path ep81 ep82 False inner offset' lines decoder deadline counts w)
       = (Some (Inr ()) :: ('h app_error + unit) option)"
proof (induction lines arbitrary: packets offset' decoder counts w)
  case (Cons line lines)
  obtain packet ps where line:
    "(metadata_packet json [] ep81 ep82 0 line :: unit app_error + endpoint_packet option) = Inr packet"
    "metadata_packets json ep81 ep82 lines = Some ps"
    using Cons.prems(1) by (auto split: sum.splits)
  have "(metadata_packet json path ep81 ep82 (offset' + 1) line :: 'h app_error + endpoint_packet option) = Inr packet"
    using line(1) by (rule metadata_packet_number)
  then show ?case
    using Cons.IH [OF line(2) Cons.prems(2)] Cons.prems(2)
    by (auto simp: Let_def split: prod.split sum.split option.split)
qed simp

lemma replay_lines_all_sent:
  "(\<And>f w. fst (dr_send ops f w)) \<Longrightarrow>
   replay_lines json (logged_driver ops) path ep81 ep82 False inner offset' lines decoder deadline counts (w, l)
     = (r :: ('h app_error + unit) option, counts', w', l') \<Longrightarrow>
   \<forall>(frame, ok) \<in> set (sends_of l). ok \<Longrightarrow> \<forall>(frame, ok) \<in> set (sends_of l'). ok"
proof (induction lines arbitrary: offset' decoder counts w l)
  case (Cons line lines)
  obtain mp where mp: "metadata_packet json path ep81 ep82 (offset' + 1) line = (mp :: 'h app_error + endpoint_packet option)"
    by blast
  consider err where "mp = Inl err" | "mp = Inr None" | packet where "mp = Inr (Some packet)"
    by (cases mp) auto
  then show ?case
  proof cases
    case (3 packet)
    obtain result decoder1 where push: "push_packet decoder packet = (result, decoder1)" by fastforce
    consider err where "result = Inl err" | "result = Inr None" | frame where "result = Inr (Some frame)"
      by (cases result) auto
    then show ?thesis
    proof cases
      case (3 frame)
      obtain w1 where "dr_send ops frame w = (True, w1)"
        using Cons.prems(1) [of frame w] by (cases "dr_send ops frame w") auto
      then show ?thesis
        using Cons.prems mp \<open>mp = Inr (Some packet)\<close> push 3
        by (intro Cons.IH [OF Cons.prems(1), of "offset' + 1" decoder1 _ w1 "l @ [Sent (frame, True)]"])
          (auto simp: Let_def)
    qed (use Cons mp \<open>mp = Inr (Some packet)\<close> push in \<open>auto simp: Let_def\<close>)
  qed (use Cons mp in auto)
qed simp

text \<open>An extracted capture of the sample packets: each line is the name of a row.\<close>

definition extracted_rows :: "(string \<times> string \<times> u64 \<times> u64) list" where
  "extracted_rows =
     [(''mark'', ''0x81'', 1, 0), (''a'', ''0x82'', 2, 0), (''b'', ''0x82'', 9, 2), (''c'', ''0x82'', 9, 11),
      (''d'', ''0x82'', 2, 20), (''e'', ''0x82'', 9, 22), (''f'', ''0x82'', 9, 31), (''g'', ''0x82'', 9, 40)]"

definition row_json :: "(string \<times> u64 \<times> u64) json_ops" where
  "row_json =
     \<lparr>js_parse = (\<lambda>line. case map_of extracted_rows line of None \<Rightarrow> Inl line | Some row \<Rightarrow> Inr row),
      js_str = (\<lambda>(name, len, offset') field'. Some name),
      js_u64 = (\<lambda>(name, len, offset') field'. Some (if field' = ''length'' then len else offset'))\<rparr>"

definition extracted_lines :: "(string + string) list" where
  "extracted_lines =
     map Inr [''a'', ''mark'', ''b'', ''mark'', ''c'', ''d'', ''e'', ''mark'', ''f'', ''mark'', ''g'']"

definition extracted_video :: bytes where
  "extracted_video = concat (map ep_data (filter (\<lambda>p. ep_endpoint p = Video) sample_packets))"

lemma extracted_video_bytes:
  "extracted_video = [1, 2, 255, 255, 255, 255, 255, 255, 0, 16, 9, 255, 255, 255, 255, 255, 255, 7, 240, 1,
     255, 0, 255, 255, 255, 255, 255, 255, 1, 1, 5, 255, 255, 255, 255, 255, 255, 0, 16, 3,
     255, 255, 255, 255, 255, 255, 0, 56, 7]"
  by code_simp

lemma sample_packets_bytes:
  "map (\<lambda>p. (ep_endpoint p, ep_data p)) sample_packets =
     [(Video, [1, 2]), (Boundary, [8]), (Video, [255, 255, 255, 255, 255, 255, 0, 16, 9]), (Boundary, [8]),
      (Video, [255, 255, 255, 255, 255, 255, 7, 240, 1]), (Video, [255, 0]),
      (Video, [255, 255, 255, 255, 255, 255, 1, 1, 5]), (Boundary, [8]),
      (Video, [255, 255, 255, 255, 255, 255, 0, 16, 3]), (Boundary, [8]),
      (Video, [255, 255, 255, 255, 255, 255, 0, 56, 7])]"
  by code_simp

lemma extracted_packets: "metadata_packets row_json [8] extracted_video extracted_lines = Some sample_packets"
proof -
  have "metadata_packets row_json [8] extracted_video extracted_lines
      = Some (map (\<lambda>(ep, data). \<lparr>ep_endpoint = ep, ep_data = data\<rparr>)
          (map (\<lambda>p. (ep_endpoint p, ep_data p)) sample_packets))"
    unfolding sample_packets_bytes
    by (simp add: extracted_lines_def row_json_def extracted_rows_def extracted_video_bytes metadata_packet_def
        metadata_usize_def rbind_def Let_def)
  then show ?thesis by (simp add: comp_def map_idI)
qed

text \<open>
  When the replay of an extracted capture succeeds and the worker took every
  frame that was sent, then every line of the metadata was well-formed, the frames sent are
  exactly those the decoder completes from the packets of these lines, in order and none
  dropped, the reported counts are exact, and no failure of the worker went unreported. On
  standard output, the bytes written for these frames in MJPEG format are the concatenation
  of their JPEG images.
\<close>

theorem replay_capture_decodes:
  assumes "run_replay_capture json join open_lines read_bytes (logged_driver ops) args inner (w, [])
      = (Some (Inr ()) :: ('h app_error + unit) option, counts, w', l)"
    and "\<forall>(frame, ok) \<in> set (sends_of l). ok"
  shows "\<exists>lines ep81 ep82 packets.
    open_lines (join (rca_input args) ''iso-packets.jsonl'') = Inr lines
    \<and> read_bytes (join (rca_input args) ''ep81.bin'') = Inr ep81
    \<and> read_bytes (join (rca_input args) ''ep82.bin'') = Inr ep82
    \<and> metadata_packets json ep81 ep82 lines = Some packets
    \<and> map fst (sends_of l) = fst (decoded_frames (map packet_event packets) decoder_new)
    \<and> counts = \<lparr>rc_packets = of_nat (length packets), rc_frames = of_nat (length (sends_of l)),
        rc_errors = of_nat (decode_errors (map packet_event packets) decoder_new)\<rparr>
    \<and> no_failure l
    \<and> sink_worker message jpeg_decoder pipe_ops device Stdout Mjpeg (map fst (sends_of l))
         \<lparr>pi_bytes = [], pi_statuses = []\<rparr>
       = \<lparr>pi_bytes = concat (map fr_jpeg (map fst (sends_of l))), pi_statuses = [SinkReady, SinkClosed]\<rparr>"
proof (rule run_replay_capture_log [OF assms(1)])
  fix lines ep81 ep82 t l1 w1 w2 l2
  assume files: "open_lines (join (rca_input args) ''iso-packets.jsonl'') = Inr lines"
    "read_bytes (join (rca_input args) ''ep81.bin'') = Inr ep81"
    "read_bytes (join (rca_input args) ''ep82.bin'') = Inr ep82"
    and run: "replay_lines json (logged_driver ops) (join (rca_input args) ''iso-packets.jsonl'') ep81 ep82
       (rca_realtime args) inner 0 lines decoder_new t \<lparr>rc_packets = 0, rc_frames = 0, rc_errors = 0\<rparr>
       (w1, [TimeRead t]) = (Some (Inr ()) :: ('h app_error + unit) option, counts, w2, l1)"
    and l: "l = l1 @ l2" "sends_of l2 = []" "no_failure l2"
  from replay_lines_log [OF run] obtain l3 past rest packets where log: "l1 = [TimeRead t] @ l3" "lines = past @ rest"
    "metadata_packets json ep81 ep82 past = Some packets"
    "map fst (sends_of l3) = fst (decoded_frames (map packet_event packets) decoder_new)"
    "counts = replay_counted decoder_new packets (delivered l3) \<lparr>rc_packets = 0, rc_frames = 0, rc_errors = 0\<rparr>"
    "rest = [] \<or> False \<in> snd ` set (sends_of l3)" "no_failure l3" by blast
  have sends: "sends_of l = sends_of l3" using l log(1) by simp
  have all: "False \<notin> snd ` set (sends_of l3)" "delivered l3 = length (sends_of l3)"
    using assms(2) by (auto simp: sends delivered_def intro!: arg_cong [of _ _ length] filter_True)
  then have "past = lines" using log(2,6) by blast
  then show ?thesis
    using files log(1,3-5,7) l sends all(2)
    by - (rule exI [of _ lines], rule exI [of _ ep81], rule exI [of _ ep82], rule exI [of _ packets],
      simp add: replay_counted_def stdout_worker_pipe convertible_mjpeg)
qed

text \<open>The replay of the extracted capture succeeds and the worker takes every frame.\<close>

lemma extracted_replay:
  "\<exists>counts w l. run_replay_capture row_json (\<lambda>a b. b) (\<lambda>_. Inr extracted_lines)
      (\<lambda>p. Inr (if p = ''ep81.bin'' then [8] else extracted_video)) (logged_driver slow_clock)
      \<lparr>rca_input = ''capture'', rca_output = ''-'', rca_format = Mjpeg, rca_realtime = False\<rparr> 1 (0, [])
      = (Some (Inr ()) :: (unit app_error + unit) option, counts, w, l)
    \<and> (\<forall>(frame, ok) \<in> set (sends_of l). ok)"
proof -
  let ?args = "\<lparr>rca_input = ''capture'', rca_output = ''-'', rca_format = Mjpeg, rca_realtime = False\<rparr>"
  let ?files = "\<lambda>p. Inr (if p = ''ep81.bin'' then [8] else extracted_video) :: string + bytes"
  let ?zero = "\<lparr>rc_packets = 0, rc_frames = 0, rc_errors = 0\<rparr>"
  have sent: "fst (dr_send (logged_driver slow_clock) f w)" for f w
    by (cases w) (simp add: slow_clock_def)
  obtain r counts w1 l1 where run: "replay_lines row_json (logged_driver slow_clock) ''iso-packets.jsonl'' [8] extracted_video
      False 1 0 extracted_lines decoder_new 0 ?zero (0, [TimeRead 0])
    = (r :: (unit app_error + unit) option, counts, w1, l1)" by (metis prod_cases4)
  have r: "r = Some (Inr ())"
    using replay_lines_goes_on [OF extracted_packets sent] run by (metis fst_conv)
  have all: "run_replay_capture row_json (\<lambda>a b. b) (\<lambda>_. Inr extracted_lines) ?files (logged_driver slow_clock) ?args 1 (0, [])
      = (Some (Inr ()) :: (unit app_error + unit) option, counts, w1, l1 @ [StatusRead Empty])"
    using run r unfolding run_replay_capture_def One_nat_def first_failure.simps
    by (simp add: rbind_def Let_def slow_clock_def wait_for_sink_def)
  have "\<forall>(frame, ok) \<in> set (sends_of l1). ok"
    by (rule replay_lines_all_sent [OF _ run]) (simp_all add: slow_clock_def)
  then have "\<forall>(frame, ok) \<in> set (sends_of (l1 @ [StatusRead Empty])). ok" by simp
  with all show ?thesis by blast
qed

lemma extracted_frames:
  "fst (decoded_frames (map packet_event sample_packets) decoder_new) = map tv_frame sample_decoded"
  unfolding packet_event_def [abs_def] by (rule sample_packets_decoded)

theorem replay_capture_decodes_witness:
  "\<exists>counts w l. run_replay_capture row_json (\<lambda>a b. b) (\<lambda>_. Inr extracted_lines)
      (\<lambda>p. Inr (if p = ''ep81.bin'' then [8] else extracted_video)) (logged_driver slow_clock)
      \<lparr>rca_input = ''capture'', rca_output = ''-'', rca_format = Mjpeg, rca_realtime = False\<rparr> 1 (0, [])
      = (Some (Inr ()) :: (unit app_error + unit) option, counts, w, l)
    \<and> map fst (sends_of l) = map tv_frame sample_decoded \<and> rc_packets counts = 11 \<and> rc_frames counts = 2"
proof -
  obtain counts w l where all: "run_replay_capture row_json (\<lambda>a b. b) (\<lambda>_. Inr extracted_lines)
      (\<lambda>p. Inr (if p = ''ep81.bin'' then [8] else extracted_video)) (logged_driver slow_clock)
      \<lparr>rca_input = ''capture'', rca_output = ''-'', rca_format = Mjpeg, rca_realtime = False\<rparr> 1 (0, [])
      = (Some (Inr ()) :: (unit app_error + unit) option, counts, w, l)"
    and "\<forall>(frame, ok) \<in> set (sends_of l). ok"
    using extracted_replay by blast
  from replay_capture_decodes [OF this, where message = "\<lambda>_. []"]
  have frames: "map fst (sends_of l) = map tv_frame sample_decoded"
    and counts: "rc_packets counts = of_nat (length sample_packets)" "rc_frames counts = of_nat (length (sends_of l))"
    using extracted_packets by (auto simp: extracted_frames)
  have "length (sends_of l) = 2"
    using arg_cong [OF frames, of length] by (simp add: sample_decoded_def)
  moreover have "length sample_packets = 11" by (simp add: sample_packets_def Let_def)
  ultimately show ?thesis using all frames counts by auto
qed

end
