(* ===== verification/Frame_Channel.thy ===== *)
theory Frame_Channel
  imports Driver_Log "HOL-Library.Sublist"
begin

section \<open>The frame channel\<close>

text \<open>
  The bounded channel between a command of \<open>crates/handycam-cli/src/main.rs\<close> and its output
  worker (\<open>mpsc::sync_channel(1)\<close>), as the standard library has it: the command offers
  frames without waiting (\<open>try_send\<close>) or with waiting (\<open>send\<close>), the worker takes them in
  order, sees the end once the sender is dropped and the channel is empty, and drops the receiver when it
  returns. An interleaving of both threads is the list of their steps on the channel;
  a step that cannot happen in a state has no successor.
\<close>

datatype channel_event =
    TrySend compressed_frame try_send
  | Send compressed_frame bool
  | Take compressed_frame
  | SeeEnd
  | DropReceiver
  | DropSender

record frame_channel =
  ch_queue :: "compressed_frame list"
  ch_sender :: bool
  ch_receiver :: bool

text \<open>\<open>mpsc::sync_channel(1)\<close>.\<close>

definition FRAME_QUEUE :: nat where
  "FRAME_QUEUE = 1"

definition sync_channel :: frame_channel where
  "sync_channel = \<lparr>ch_queue = [], ch_sender = True, ch_receiver = True\<rparr>"

fun channel_step :: "nat \<Rightarrow> channel_event \<Rightarrow> frame_channel \<Rightarrow> frame_channel option" where
  "channel_step bound (TrySend frame answer) c =
     (if \<not> ch_sender c then None
      else if \<not> ch_receiver c then (if answer = SendDisconnected then Some c else None)
      else if length (ch_queue c) < bound
      then (if answer = SendOk then Some (c\<lparr>ch_queue := ch_queue c @ [frame]\<rparr>) else None)
      else (if answer = SendFull then Some c else None))"
| "channel_step bound (Send frame delivered) c =
     (if \<not> ch_sender c then None
      else if \<not> ch_receiver c then (if delivered then None else Some c)
      else if length (ch_queue c) < bound \<and> delivered then Some (c\<lparr>ch_queue := ch_queue c @ [frame]\<rparr>)
      else None)"
| "channel_step bound (Take frame) c =
     (if ch_receiver c \<and> ch_queue c \<noteq> [] \<and> hd (ch_queue c) = frame
      then Some (c\<lparr>ch_queue := tl (ch_queue c)\<rparr>) else None)"
| "channel_step bound SeeEnd c =
     (if ch_receiver c \<and> ch_queue c = [] \<and> \<not> ch_sender c then Some (c\<lparr>ch_receiver := False\<rparr>) else None)"
| "channel_step bound DropReceiver c =
     (if ch_receiver c then Some (c\<lparr>ch_receiver := False, ch_queue := []\<rparr>) else None)"
| "channel_step bound DropSender c =
     (if ch_sender c then Some (c\<lparr>ch_sender := False\<rparr>) else None)"

fun channel_run :: "nat \<Rightarrow> channel_event list \<Rightarrow> frame_channel \<Rightarrow> frame_channel option" where
  "channel_run bound [] c = Some c"
| "channel_run bound (step # steps) c = Option.bind (channel_step bound step c) (channel_run bound steps)"

lemma channel_run_append:
  "channel_run bound (xs @ ys) c = Option.bind (channel_run bound xs c) (channel_run bound ys)"
  by (induction xs arbitrary: c) (auto split: Option.bind_splits)

subsection \<open>What the two threads see\<close>

definition offered :: "channel_event list \<Rightarrow> (compressed_frame \<times> try_send) list" where
  "offered steps = concat (map (\<lambda>s. case s of TrySend f r \<Rightarrow> [(f, r)] | _ \<Rightarrow> []) steps)"

definition sent :: "channel_event list \<Rightarrow> (compressed_frame \<times> bool) list" where
  "sent steps = concat (map (\<lambda>s. case s of Send f r \<Rightarrow> [(f, r)] | _ \<Rightarrow> []) steps)"

definition taken :: "channel_event list \<Rightarrow> compressed_frame list" where
  "taken steps = concat (map (\<lambda>s. case s of Take f \<Rightarrow> [f] | _ \<Rightarrow> []) steps)"

text \<open>The frames that have entered the channel.\<close>

definition entered :: "channel_event list \<Rightarrow> compressed_frame list" where
  "entered steps = concat (map (\<lambda>s. case s of TrySend f r \<Rightarrow> if r = SendOk then [f] else []
     | Send f r \<Rightarrow> if r then [f] else [] | _ \<Rightarrow> []) steps)"

lemma views_append [simp]:
  "offered (xs @ ys) = offered xs @ offered ys" "sent (xs @ ys) = sent xs @ sent ys"
  "taken (xs @ ys) = taken xs @ taken ys" "entered (xs @ ys) = entered xs @ entered ys"
  "offered [] = []" "sent [] = []" "taken [] = []" "entered [] = []"
  by (simp_all add: offered_def sent_def taken_def entered_def)

lemma views_Cons [simp]:
  "offered (s # xs) = (case s of TrySend f r \<Rightarrow> [(f, r)] | _ \<Rightarrow> []) @ offered xs"
  "sent (s # xs) = (case s of Send f r \<Rightarrow> [(f, r)] | _ \<Rightarrow> []) @ sent xs"
  "taken (s # xs) = (case s of Take f \<Rightarrow> [f] | _ \<Rightarrow> []) @ taken xs"
  "entered (s # xs) = (case s of TrySend f r \<Rightarrow> if r = SendOk then [f] else []
     | Send f r \<Rightarrow> if r then [f] else [] | _ \<Rightarrow> []) @ entered xs"
  by (simp_all add: offered_def sent_def taken_def entered_def)

text \<open>
  The invariant of every interleaving: the queue keeps its bound, and what has entered is what
  the worker has taken, followed by the queue while the receiver is alive.
\<close>

definition channel_inv :: "nat \<Rightarrow> channel_event list \<Rightarrow> frame_channel \<Rightarrow> bool" where
  "channel_inv bound steps c \<longleftrightarrow>
     length (ch_queue c) \<le> bound
     \<and> prefix (taken steps @ ch_queue c) (entered steps)
     \<and> (ch_receiver c \<longrightarrow> entered steps = taken steps @ ch_queue c)
     \<and> (SeeEnd \<in> set steps \<longrightarrow> \<not> ch_receiver c \<and> \<not> ch_sender c \<and> entered steps = taken steps)"

lemma channel_step_inv:
  assumes "channel_inv bound steps c" and "channel_step bound s c = Some c'"
  shows "channel_inv bound (steps @ [s]) c'"
proof (cases s)
  case (Take f)
  then obtain q where "ch_receiver c" "ch_queue c = f # q" "c' = c\<lparr>ch_queue := q\<rparr>"
    using assms(2) by (cases "ch_queue c") (auto split: if_splits)
  then show ?thesis using assms(1) Take by (auto simp: channel_inv_def)
qed (use assms in \<open>auto simp: channel_inv_def split: if_splits\<close>)

lemma channel_run_inv:
  "channel_run bound steps sync_channel = Some c \<Longrightarrow> channel_inv bound steps c"
proof (induction steps arbitrary: c rule: rev_induct)
  case Nil
  then show ?case by (auto simp: channel_inv_def sync_channel_def)
next
  case (snoc s steps)
  then obtain c1 where "channel_run bound steps sync_channel = Some c1" "channel_step bound s c1 = Some c"
    by (auto simp: channel_run_append split: Option.bind_splits)
  then show ?case using channel_step_inv snoc.IH by blast
qed

text \<open>A frame is refused as too many only while an earlier one waits for the worker.\<close>

lemma full_means_waiting:
  assumes "channel_run bound (steps @ TrySend f SendFull # later) sync_channel = Some c"
  shows "length (entered steps) = length (taken steps) + bound"
proof -
  obtain c1 where c1: "channel_run bound steps sync_channel = Some c1" "channel_step bound (TrySend f SendFull) c1 \<noteq> None"
    using assms by (auto simp: channel_run_append split: Option.bind_splits)
  then have "ch_receiver c1" "\<not> length (ch_queue c1) < bound" by (auto split: if_splits)
  then show ?thesis using channel_run_inv [OF c1(1)] by (simp add: channel_inv_def)
qed

lemma entered_offers:
  "sent steps = [] \<Longrightarrow> entered steps = map fst (filter (\<lambda>(f, r). r = SendOk) (offered steps))"
  by (induction steps) (auto split: channel_event.splits)

lemma entered_subseq: "sent steps = [] \<Longrightarrow> subseq (entered steps) (map fst (offered steps))"
  by (simp add: entered_offers subseq_map)

lemma entered_sends:
  "offered steps = [] \<Longrightarrow> entered steps = map fst (filter snd (sent steps))"
  by (induction steps) (auto split: channel_event.splits)

text \<open>A worker that sees the end of the channel has never refused a frame.\<close>

lemma delivered_while_alive:
  "channel_run bound steps sync_channel = Some c \<Longrightarrow> ch_receiver c \<or> SeeEnd \<in> set steps \<Longrightarrow>
     \<forall>(frame, ok) \<in> set (sent steps). ok"
proof (induction steps arbitrary: c rule: rev_induct)
  case (snoc s steps)
  then obtain c1 where before: "channel_run bound steps sync_channel = Some c1" and step: "channel_step bound s c1 = Some c"
    by (auto simp: channel_run_append split: Option.bind_splits)
  have "SeeEnd \<in> set steps \<Longrightarrow> \<not> ch_sender c1"
    using channel_run_inv [OF before] by (simp add: channel_inv_def)
  then show ?case
    using snoc.IH [OF before] snoc.prems(2) step by (cases s) (auto split: if_splits)
qed simp

lemma no_end_without_receiver:
  "channel_run bound steps c = Some c' \<Longrightarrow> \<not> ch_receiver c \<Longrightarrow> SeeEnd \<notin> set steps"
proof (induction steps arbitrary: c)
  case (Cons s steps)
  then obtain c1 where step: "channel_step bound s c = Some c1" "channel_run bound steps c1 = Some c'"
    by (auto split: Option.bind_splits)
  then have "\<not> ch_receiver c1 \<and> s \<noteq> SeeEnd" using Cons.prems(2) by (cases s) (auto split: if_splits)
  then show ?case using Cons.IH step(2) by auto
qed simp

end
