(* ===== verification/Replay_Output.thy ===== *)
theory Replay_Output
  imports Replay_Log Frame_Channel
begin

section \<open>From an extracted capture to the output\<close>

text \<open>
  The replay of an extracted capture together with its output worker: the frames that its packets
  decode to, through the bounded channel, to the bytes that the worker writes, for every
  interleaving of the two threads.
\<close>

text \<open>
  Property C12. From the extracted files to the output, for every interleaving of the replay and its
  worker on their channel: when the replay succeeds and the worker has run to the end of the
  channel, every line of the metadata was well-formed, the worker has taken exactly the frames that
  the decoder completes from the packets of these lines, in order, none dropped and none
  twice, the reported counts are exact and no failure of the worker went unreported; on standard
  output it has written the concatenation of their images. At any earlier moment it has taken a beginning of
  these frames and is at most one frame behind.
\<close>

theorem replay_output_of_threads:
  assumes replay: "run_replay_capture json join open_lines read_bytes (logged_driver ops) args inner (w, [])
      = (Some (Inr ()) :: ('h app_error + unit) option, counts, w', l)"
    and threads: "channel_run FRAME_QUEUE trace sync_channel = Some c" and "SeeEnd \<in> set trace"
    and sends: "sent trace = sends_of l" "offered trace = []"
  shows "\<exists>lines ep81 ep82 packets.
    open_lines (join (rca_input args) ''iso-packets.jsonl'') = Inr lines
    \<and> read_bytes (join (rca_input args) ''ep81.bin'') = Inr ep81
    \<and> read_bytes (join (rca_input args) ''ep82.bin'') = Inr ep82
    \<and> metadata_packets json ep81 ep82 lines = Some packets
    \<and> taken trace = fst (decoded_frames (map packet_event packets) decoder_new)
    \<and> counts = \<lparr>rc_packets = of_nat (length packets), rc_frames = of_nat (length (taken trace)),
        rc_errors = of_nat (decode_errors (map packet_event packets) decoder_new)\<rparr>
    \<and> no_failure l
    \<and> sink_worker message jpeg_decoder pipe_ops device Stdout Mjpeg (taken trace) \<lparr>pi_bytes = [], pi_statuses = []\<rparr>
       = \<lparr>pi_bytes = concat (map fr_jpeg (taken trace)), pi_statuses = [SinkReady, SinkClosed]\<rparr>
    \<and> (\<forall>before later. trace = before @ later \<longrightarrow>
        prefix (taken before) (taken trace) \<and> length (entered before) \<le> length (taken before) + 1)"
proof -
  note inv = channel_run_inv [OF threads, unfolded channel_inv_def]
  have ok: "\<forall>(frame, ok) \<in> set (sends_of l). ok"
    using delivered_while_alive [OF threads] assms(3) by (simp add: sends(1))
  then have "filter snd (sends_of l) = sends_of l" by (intro filter_True) auto
  then have taken: "taken trace = map fst (sends_of l)"
    using inv assms(3) entered_sends [OF sends(2)] by (simp add: sends(1))
  have "prefix (taken before) (taken trace) \<and> length (entered before) \<le> length (taken before) + 1"
    if split: "trace = before @ later" for before later
  proof -
    obtain c1 where c1: "channel_run FRAME_QUEUE before sync_channel = Some c1" "channel_run FRAME_QUEUE later c1 = Some c"
      using threads by (auto simp: split channel_run_append split: Option.bind_splits)
    note before = channel_run_inv [OF c1(1), unfolded channel_inv_def FRAME_QUEUE_def]
    have "ch_receiver c1 \<or> SeeEnd \<in> set before"
      using assms(3) no_end_without_receiver [OF c1(2)] by (auto simp: split)
    then show ?thesis using before by (auto simp: split)
  qed
  then show ?thesis
    using replay_capture_decodes [OF replay ok, of message jpeg_decoder device] by (simp add: taken)
qed

text \<open>The sample capture, with a worker that takes every frame at once.\<close>

definition prompt_sends :: "compressed_frame list \<Rightarrow> channel_event list" where
  "prompt_sends frames = concat (map (\<lambda>f. [Send f True, Take f]) frames) @ [DropSender, SeeEnd]"

lemma prompt_sends_runs:
  "channel_run FRAME_QUEUE (prompt_sends frames) sync_channel = Some \<lparr>ch_queue = [], ch_sender = False, ch_receiver = False\<rparr>"
  by (induction frames) (simp_all add: prompt_sends_def sync_channel_def FRAME_QUEUE_def)

lemma prompt_sends_views:
  "sent (prompt_sends frames) = map (\<lambda>f. (f, True)) frames" "offered (prompt_sends frames) = []"
  "taken (prompt_sends frames) = frames" "SeeEnd \<in> set (prompt_sends frames)"
  by (induction frames) (simp_all add: prompt_sends_def)

theorem replay_output_of_threads_witness:
  "\<exists>counts w l. run_replay_capture row_json (\<lambda>a b. b) (\<lambda>_. Inr extracted_lines)
      (\<lambda>p. Inr (if p = ''ep81.bin'' then [8] else extracted_video)) (logged_driver slow_clock)
      \<lparr>rca_input = ''capture'', rca_output = ''-'', rca_format = Mjpeg, rca_realtime = False\<rparr> 1 (0, [])
      = (Some (Inr ()) :: (unit app_error + unit) option, counts, w, l)
    \<and> sent (prompt_sends (map fst (sends_of l))) = sends_of l
    \<and> taken (prompt_sends (map fst (sends_of l))) = map tv_frame sample_decoded"
proof -
  obtain counts w l where run: "run_replay_capture row_json (\<lambda>a b. b) (\<lambda>_. Inr extracted_lines)
      (\<lambda>p. Inr (if p = ''ep81.bin'' then [8] else extracted_video)) (logged_driver slow_clock)
      \<lparr>rca_input = ''capture'', rca_output = ''-'', rca_format = Mjpeg, rca_realtime = False\<rparr> 1 (0, [])
      = (Some (Inr ()) :: (unit app_error + unit) option, counts, w, l)"
    and ok: "\<forall>(frame, ok) \<in> set (sends_of l). ok"
    using extracted_replay by blast
  have sends: "sent (prompt_sends (map fst (sends_of l))) = sends_of l"
    unfolding prompt_sends_views map_map using ok by (intro map_idI) auto
  from replay_output_of_threads [OF run prompt_sends_runs prompt_sends_views(4) sends prompt_sends_views(2),
      where message = "\<lambda>_. []"]
  have "taken (prompt_sends (map fst (sends_of l))) = map tv_frame sample_decoded"
    using extracted_packets by (auto simp: extracted_frames)
  then show ?thesis using run sends by blast
qed

end
