(* ===== verification/Usb_Lifecycle.thy ===== *)
theory Usb_Lifecycle
  imports Usb_Session
begin

section \<open>The life of a session\<close>

text \<open>
  The whole of \<open>UsbSession\<close> in \<open>crates/handycam-libusb/src/transport.rs\<close>: opening with the
  allocation of the transfers, and stopping or dropping it, with the device handle and the
  transfers together.
\<close>

record open_session =
  us_state :: usb_session
  us_bus :: u8
  us_address :: u8
  us_port_path :: "u8 list"

definition session_stats_snapshot :: "open_session \<Rightarrow> session_stats" where
  "session_stats_snapshot ses = ses_stats (us_state ses)"

text \<open>
  \<open>stop\<close>: the transfers are cancelled and reaped,
  the interface is reset and released (errors are only logged), the transfers are freed. The
  results are the new state and the freed transfers; \<open>None\<close>: still reaping.
\<close>

definition stop_session ::
  "'d usb_ops \<Rightarrow> callback list list \<Rightarrow> usb_session \<Rightarrow> 'd \<Rightarrow> (usb_session \<times> nat list \<times> 'd) option" where
  "stop_session ops batches s d =
     (if stopped s then Some (s, [], d)
      else
        (case session_stop batches s of
           None \<Rightarrow> None
         | Some (s, cancelled, to_free) \<Rightarrow>
             (case op_alternate ops VIDEO_INTERFACE 0 d of (_, d) \<Rightarrow>
              case op_release ops VIDEO_INTERFACE d of (_, d) \<Rightarrow>
              Some (s, to_free, d))))"

text \<open>Dropping a session.\<close>

definition drop_session ::
  "'d usb_ops \<Rightarrow> callback list list \<Rightarrow> usb_session \<Rightarrow> 'd \<Rightarrow> (usb_session \<times> nat list \<times> 'd) option" where
  "drop_session ops batches s d = stop_session ops batches s d"

lemma drop_session_stops [simp]: "drop_session = stop_session"
  by (simp add: fun_eq_iff drop_session_def)

text \<open>
  \<open>open_with_init_strategy\<close>: when the transfers cannot be allocated or submitted, the session
  built so far is dropped. The second result lists the transfers that this frees.
\<close>

definition open_with_init_strategy ::
  "usb_error + usb_device list \<Rightarrow> (usb_device \<Rightarrow> usb_error + unit) \<Rightarrow> 'd usb_ops
   \<Rightarrow> (nat \<Rightarrow> bool) \<Rightarrow> (nat \<Rightarrow> int) \<Rightarrow> callback list list
   \<Rightarrow> camera_selector \<Rightarrow> init_op list \<Rightarrow> init_strategy \<Rightarrow> 'd
   \<Rightarrow> ((usb_transport_error + open_session) \<times> nat list \<times> 'd) option" where
  "open_with_init_strategy devices open_device ops alloc submit batches selector plan strategy d =
     (case open_device_session devices open_device ops selector plan strategy d of
        None \<Rightarrow> None
      | Some (Inl e, d) \<Rightarrow> Some (Inl e, [], d)
      | Some (Inr (device, port_path), d) \<Rightarrow>
          (case allocate_and_submit alloc submit session_initial of
             (Inr _, s) \<Rightarrow>
               Some (Inr \<lparr>us_state = s, us_bus = dev_bus device, us_address = dev_address device,
                          us_port_path = port_path\<rparr>, [], d)
           | (Inl e, s) \<Rightarrow>
               (case drop_session ops batches s d of
                  None \<Rightarrow> None
                | Some (s, to_free, d) \<Rightarrow> Some (Inl e, to_free, d))))"

definition usb_session_open ::
  "usb_error + usb_device list \<Rightarrow> (usb_device \<Rightarrow> usb_error + unit) \<Rightarrow> 'd usb_ops
   \<Rightarrow> (nat \<Rightarrow> bool) \<Rightarrow> (nat \<Rightarrow> int) \<Rightarrow> callback list list
   \<Rightarrow> camera_selector \<Rightarrow> init_op list \<Rightarrow> 'd
   \<Rightarrow> ((usb_transport_error + open_session) \<times> nat list \<times> 'd) option" where
  "usb_session_open devices open_device ops alloc submit batches selector plan d =
     open_with_init_strategy devices open_device ops alloc submit batches selector plan LiteralReplay d"

subsection \<open>Allocation\<close>

text \<open>How many transfers have been allocated when the allocation ends.\<close>

definition allocated ::
  "(nat \<Rightarrow> bool) \<Rightarrow> (nat \<Rightarrow> int) \<Rightarrow> usb_transport_error + unit \<Rightarrow> nat \<Rightarrow> bool" where
  "allocated alloc submit r n \<longleftrightarrow>
     n \<le> 64 \<and> (\<forall>i < n. alloc i) \<and>
     (case r of
        Inr _ \<Rightarrow> n = 64 \<and> (\<forall>i < n. submit i = 0)
      | Inl e \<Rightarrow>
          (n < 64 \<and> \<not> alloc n \<and> e = TransferAllocation \<and> (\<forall>i < n. submit i = 0))
          \<or> (0 < n \<and> submit (n - 1) \<noteq> 0 \<and> e = TransferSubmission (submit (n - 1)) \<and> (\<forall>i < n - 1. submit i = 0)))"

lemma allocate_from_allocated:
  "allocate_from alloc submit [k..<64] s = (r, s') \<Longrightarrow> length (slots s) = k \<Longrightarrow> k \<le> 64 \<Longrightarrow>
   \<forall>i < k. alloc i \<and> submit i = 0 \<Longrightarrow>
     allocated alloc submit r (length (slots s')) \<and> stopped s' = stopped s"
proof (induction "64 - k" arbitrary: k s)
  case 0
  then show ?case by (auto simp: allocated_def)
next
  case (Suc n)
  then have k: "k < 64" "[k..<64] = k # [Suc k..<64]" by (auto simp: upt_conv_Cons)
  consider "\<not> alloc k" | "alloc k" "submit k \<noteq> 0" | "alloc k \<and> submit k = 0" by blast
  then show ?case
  proof cases
    case 1
    then have "r = Inl TransferAllocation" "s' = s" using Suc.prems(1) k(2) by simp_all
    then show ?thesis using Suc.prems k(1) 1 by (simp add: allocated_def)
  next
    case 2
    then have "r = Inl (TransferSubmission (submit k))" "length (slots s') = Suc k" "stopped s' = stopped s"
      using Suc.prems(1,2) k(2) by (auto simp: Let_def)
    then show ?thesis using Suc.prems(4) k(1) 2 by (auto simp: allocated_def less_Suc_eq)
  next
    case True: 3
    let ?slot = "\<lparr>slot_endpoint = (if k mod 2 = 0 then Boundary else Video),
      slot_buffer_size = (case if k mod 2 = 0 then Boundary else Video of
        Boundary \<Rightarrow> BOUNDARY_PACKET_SIZE | Video \<Rightarrow> VIDEO_PACKET_SIZE), slot_submitted = False\<rparr>"
    let ?t = "set_submitted k True (s\<lparr>slots := slots s @ [?slot]\<rparr>)"
    have "allocate_from alloc submit [Suc k..<64] ?t = (r, s')"
      using Suc.prems True k by (simp add: Let_def)
    moreover have "length (slots ?t) = Suc k" "stopped ?t = stopped s" using Suc.prems(2) by simp_all
    moreover have "\<forall>i < Suc k. alloc i \<and> submit i = 0" using Suc.prems(4) True by (simp add: less_Suc_eq)
    ultimately show ?thesis using Suc.hyps(1) [of "Suc k" ?t] Suc.hyps(2) k(1) by simp
  qed
qed

lemma allocate_allocated:
  assumes "allocate_and_submit alloc submit session_initial = (r, s)"
  shows "allocated alloc submit r (length (slots s))" "\<not> stopped s"
  using allocate_from_allocated [of alloc submit 0 session_initial r s] assms
  by (simp_all add: allocate_and_submit_def TRANSFERS_PER_ENDPOINT_def session_initial_def)

subsection \<open>Stopping\<close>

lemma run_callback_frame:
  "stopped (fst (run_callback cb s)) = stopped s \<and> length (slots (fst (run_callback cb s))) = length (slots s)"
  by (cases cb) (simp add: run_callback_def transfer_callback_def handle_transfer_callback_def Let_def)

lemma deliver_frame:
  "stopped (deliver cbs s) = stopped s" "length (slots (deliver cbs s)) = length (slots s)"
proof (induction cbs arbitrary: s)
  case (Cons cb cbs)
  { case 1 then show ?case using Cons(1) run_callback_frame [of cb s] by (simp add: deliver_def) }
  { case 2 then show ?case using Cons(2) run_callback_frame [of cb s] by (simp add: deliver_def) }
qed (simp_all add: deliver_def)

lemma reap_frame:
  "reap batches s = Some s' \<Longrightarrow> stopped s' = stopped s \<and> length (slots s') = length (slots s)"
proof (induction batches arbitrary: s)
  case Nil
  then show ?case by (simp add: reap.simps [of "[]" s] split: if_splits)
next
  case (Cons b bs)
  show ?case
  proof (cases "submitted_slots s = []")
    case True
    then show ?thesis using Cons.prems by (simp add: reap.simps [of "b # bs" s])
  next
    case False
    then have "reap bs (deliver b s) = Some s'" using Cons.prems by (simp add: reap.simps [of "b # bs" s])
    then show ?thesis using Cons.IH deliver_frame by metis
  qed
qed

lemma stop_session_log:
  assumes "stop_session (logged ops) batches s (d, log) = Some (s', to_free, d', log')" and "\<not> stopped s"
  shows "log' = log @ [AlternateCall 0 0, ReleaseCall] \<and> to_free = [0..<length (slots s)] \<and> stopped s'"
proof -
  let ?t = "s\<lparr>stopped := True, running := False\<rparr>"
  have stop: "session_stop batches s = (case reap batches ?t of None \<Rightarrow> None
      | Some t \<Rightarrow> Some (t\<lparr>slots := []\<rparr>, submitted_slots ?t, [0..<length (slots t)]))"
    using assms(2) by (rule session_stop_eq)
  show ?thesis
  proof (cases "reap batches ?t")
    case None
    then show ?thesis using assms unfolding stop_session_def stop by simp
  next
    case (Some t)
    have "Some (t\<lparr>slots := []\<rparr>, [0..<length (slots t)],
        snd (op_release ops 0 (snd (op_alternate ops 0 0 d))), log @ [AlternateCall 0 0, ReleaseCall]) = Some (s', to_free, d', log')"
      using assms Some unfolding stop_session_def stop by (simp add: logged_handle VIDEO_INTERFACE_def)
    then show ?thesis using reap_frame [OF Some] by auto
  qed
qed

lemma open_balance:
  assumes "open_with_init_strategy devices open_device (logged ops) alloc submit batches selector plan strategy (d, [])
      = Some (r, to_free, d', log)"
  shows "case r of
      Inl e \<Rightarrow> claims log = releases log
        \<and> (0 < releases log \<longrightarrow> (\<exists>l. log = l @ [AlternateCall 0 0, ReleaseCall]))
        \<and> (to_free = [] \<or> (\<exists>n. allocated alloc submit (Inl e) n \<and> to_free = [0..<n]))
    | Inr ses \<Rightarrow> to_free = [] \<and> claims log = 1 \<and> releases log = 0
        \<and> allocated alloc submit (Inr ()) 64
        \<and> length (slots (us_state ses)) = 64 \<and> \<not> stopped (us_state ses)"
proof -
  obtain x d1 l1 where opened:
    "open_device_session devices open_device (logged ops) selector plan strategy (d, []) = Some (x, d1, l1)"
    using assms by (auto simp: open_with_init_strategy_def split: option.splits)
  note device = open_claims_balanced [OF opened]
  show ?thesis
  proof (cases x)
    case (Inl e)
    then show ?thesis using assms opened device by (auto simp: open_with_init_strategy_def)
  next
    case (Inr identity)
    then have held: "claims l1 = 1" "releases l1 = 0" using device by simp_all
    obtain y s where allocation: "allocate_and_submit alloc submit session_initial = (y, s)" by fastforce
    note all = allocate_allocated [OF allocation]
    show ?thesis
    proof (cases y)
      case (Inl e)
      then have "(case stop_session (logged ops) batches s (d1, l1) of None \<Rightarrow> None
          | Some (s, to_free, d) \<Rightarrow> Some (Inl e, to_free, d)) = Some (r, to_free, d', log)"
        using assms opened \<open>x = Inr identity\<close> allocation
        by (simp add: open_with_init_strategy_def case_prod_unfold)
      then obtain s' where stop: "stop_session (logged ops) batches s (d1, l1) = Some (s', to_free, d', log)"
        and r: "r = Inl e"
        by (auto split: option.splits)
      show ?thesis using stop_session_log [OF stop all(2)] all(1) Inl held by (auto simp: r)
    next
      case (Inr u)
      then show ?thesis
        using assms opened \<open>x = Inr identity\<close> allocation all held
        by (simp add: open_with_init_strategy_def case_prod_unfold) (auto simp: allocated_def)
    qed
  qed
qed

lemma stop_delivered_session:
  assumes "stop_session (logged ops) batches (deliver cbs s) (d, log) = Some (s', to_free, d', log')"
    and "\<not> stopped s"
  shows "log' = log @ [AlternateCall 0 0, ReleaseCall] \<and> to_free = [0..<length (slots s)] \<and> stopped s'"
  using stop_session_log [OF assms(1)] assms(2) by (simp add: deliver_frame)

text \<open>Stopping returns once a callback has run for every transfer, and the initial allocation can succeed.\<close>

lemma stop_session_returns:
  assumes "\<not> stopped s" and "fst ` set (concat batches) = {0..<length (slots s)}"
  shows "\<exists>s' to_free d'. stop_session ops batches s d = Some (s', to_free, d')"
proof -
  let ?t = "s\<lparr>stopped := True, running := False\<rparr>"
  have "set (submitted_slots ?t) \<subseteq> {0..<length (slots s)}" by (auto simp: submitted_slots_def)
  moreover have "\<forall>cb \<in> set (concat batches). fst cb < length (slots s)" using assms(2) by (metis atLeastLessThan_iff imageI)
  ultimately obtain t where "reap batches ?t = Some t"
    using reap_returns [of ?t batches] assms(2) by auto
  then show ?thesis using assms(1) by (simp add: stop_session_def session_stop_eq Let_def case_prod_unfold)
qed

lemma allocate_succeeds:
  obtains s where "allocate_and_submit (\<lambda>_. True) (\<lambda>_. 0) session_initial = (Inr (), s)" "length (slots s) = 64" "\<not> stopped s"
proof -
  obtain y s where allocation: "allocate_and_submit (\<lambda>_. True) (\<lambda>_. 0) session_initial = (y, s)" by fastforce
  note all = allocate_allocated [OF allocation]
  then have "y = Inr ()" by (cases y) (auto simp: allocated_def)
  then show ?thesis using that allocation all by (simp add: allocated_def)
qed

text \<open>
  Property C17. A session never leaks what it has acquired. When opening fails, at whatever
  point and whatever the device does, every claim of the interface has been released, with
  alternate setting 0 selected before, and exactly the transfers allocated so far have been
  freed. When it succeeds, one claim and 64 transfers are held; and whatever callbacks run
  then, a stop that returns has reset and released the interface once and freed every
  transfer once, and stopping or dropping the session again does nothing.
\<close>

theorem usb_session_lifecycle:
  assumes "open_with_init_strategy devices open_device (logged ops) alloc submit batches selector plan strategy (d, [])
      = Some (r, to_free, d', log)"
  shows "case r of
      Inl e \<Rightarrow> claims log = releases log
        \<and> (0 < releases log \<longrightarrow> (\<exists>l. log = l @ [AlternateCall 0 0, ReleaseCall]))
        \<and> (to_free = [] \<or> (\<exists>n. allocated alloc submit (Inl e) n \<and> to_free = [0..<n]))
    | Inr ses \<Rightarrow> to_free = [] \<and> claims log = 1 \<and> releases log = 0
        \<and> allocated alloc submit (Inr ()) (length (slots (us_state ses)))
        \<and> (\<forall>cbs batches' s' to_free' d'' log'.
            stop_session (logged ops) batches' (deliver cbs (us_state ses)) (d', log) = Some (s', to_free', d'', log') \<longrightarrow>
              log' = log @ [AlternateCall 0 0, ReleaseCall] \<and> to_free' = [0..<64]
              \<and> (\<forall>batches''. stop_session (logged ops) batches'' s' (d'', log') = Some (s', [], d'', log')))"
proof (cases r)
  case (Inr ses)
  then have held: "to_free = [] \<and> claims log = 1 \<and> releases log = 0 \<and> allocated alloc submit (Inr ()) 64
      \<and> length (slots (us_state ses)) = 64 \<and> \<not> stopped (us_state ses)"
    using open_balance [OF assms] by simp
  have "log' = log @ [AlternateCall 0 0, ReleaseCall] \<and> to_free' = [0..<64]
      \<and> (\<forall>batches''. stop_session (logged ops) batches'' s' (d'', log') = Some (s', [], d'', log'))"
    if "stop_session (logged ops) batches' (deliver cbs (us_state ses)) (d', log) = Some (s', to_free', d'', log')"
    for cbs batches' s' to_free' d'' log'
    using stop_delivered_session [OF that] held by simp (simp add: stop_session_def)
  then show ?thesis using held Inr by simp
qed (use open_balance [OF assms] in simp)

text \<open>A session whose third transfer cannot be allocated, on the sample device.\<close>

definition sample_batches :: "callback list list" where
  "sample_batches = [[(1, False, sample_completion)], [(0, True, sample_completion)]]"

lemma sample_allocation: "allocate_and_submit (\<lambda>i. i < 2) (\<lambda>i. 0) session_initial = (Inl TransferAllocation, sample_opened)"
proof -
  have "fst (allocate_and_submit (\<lambda>i. i < 2) (\<lambda>i. 0) session_initial) = Inl TransferAllocation"
    by (simp add: allocate_and_submit_def TRANSFERS_PER_ENDPOINT_def upt_conv_Cons Let_def)
  then show ?thesis by (simp add: sample_opened_def prod_eq_iff)
qed

theorem usb_session_lifecycle_witness:
  "\<exists>d' log. open_with_init_strategy (Inr [sample_camera]) (\<lambda>_. Inr ()) (logged sample_handle) (\<lambda>i. i < 2) (\<lambda>i. 0)
        sample_batches \<lparr>sel_bus = None, sel_ports = []\<rparr> sample_plan ConditionPolling (0, [])
      = Some (Inl TransferAllocation, [0, 1], d', log)
    \<and> claims log = 1 \<and> releases log = 1 \<and> (\<exists>l. log = l @ [AlternateCall 0 0, ReleaseCall])"
proof -
  let ?sel = "\<lparr>sel_bus = None, sel_ports = []\<rparr>"
  have io: "op_kernel_driver (logged sample_handle) i (d, log) = (Inl NOT_SUPPORTED, d, log)"
    "op_claim (logged sample_handle) i (d, log) = (Inr (), d, log @ [ClaimCall True])" for i d log
    by (simp_all add: logged_def sample_handle_def)
  obtain d1 where "replay_initialization (logged sample_handle) sample_plan ConditionPolling (0, [ClaimCall True])
      = Some (Inr (), d1, [ClaimCall True] @ plan_calls sample_plan)"
    using sample_replay [of 0 "[ClaimCall True]"] by blast
  then have device: "open_device_session (Inr [sample_camera]) (\<lambda>_. Inr ()) (logged sample_handle) ?sel sample_plan ConditionPolling (0, [])
       = Some (Inr (sample_camera, [2]), d1, [ClaimCall True] @ plan_calls sample_plan)"
    by (simp add: open_device_session_def sample_camera_selected usb_result_def io)
  have running: "\<not> stopped sample_opened" "length (slots sample_opened) = 2"
    by (simp_all add: sample_opened_eq session_initial_def)
  have "\<exists>t. reap sample_batches (sample_opened\<lparr>stopped := True, running := False\<rparr>) = Some t"
    using reap_returns [of "sample_opened\<lparr>stopped := True, running := False\<rparr>" sample_batches]
    by (auto simp: sample_batches_def sample_opened_eq submitted_slots_def)
  then obtain s' to_free d' log where
    stop: "stop_session (logged sample_handle) sample_batches sample_opened (d1, [ClaimCall True] @ plan_calls sample_plan)
      = Some (s', to_free, d', log)"
    using running by (auto simp: stop_session_def session_stop_eq Let_def logged_handle)
  have to_free: "to_free = [0, 1]" using stop_session_log [OF stop running(1)] running(2) by (simp add: upt_conv_Cons)
  have run: "open_with_init_strategy (Inr [sample_camera]) (\<lambda>_. Inr ()) (logged sample_handle) (\<lambda>i. i < 2) (\<lambda>i. 0)
        sample_batches ?sel sample_plan ConditionPolling (0, []) = Some (Inl TransferAllocation, [0, 1], d', log)"
    using device stop sample_allocation to_free by (simp add: open_with_init_strategy_def)
  have "claims log = 1" using stop_session_log [OF stop running(1)] by (simp add: sample_plan_def)
  then show ?thesis using usb_session_lifecycle [OF run] run by auto
qed

end
