(* ===== verification/Capture_Lifecycle.thy ===== *)
theory Capture_Lifecycle
  imports Capture Usb_Lifecycle Linux_Audio
begin

section \<open>The resources of a capture\<close>

text \<open>
  \<open>run_capture\<close> of \<open>crates/handycam-cli/src/main.rs\<close> with the handles it owns: the USB session with its
  transfers, and the audio capture with its worker or child process. On every way out of the
  command the handles are stopped or dropped; what the command answers and writes is
  what \<open>Capture\<close> describes.
\<close>

subsection \<open>The audio capture\<close>

datatype audio_backend_arg = AlsaBackend | ArecordBackend

datatype running_audio_capture =
    RunningAlsa alsa_capture
  | RunningArecord arecord_capture

text \<open>\<open>RunningAudioCapture::stop\<close>, and dropping the handle.\<close>

definition stop_audio ::
  "bool \<Rightarrow> running_audio_capture \<Rightarrow> (audio_capture_error + unit) \<times> running_audio_capture" where
  "stop_audio panicked audio =
     (case audio of
        RunningAlsa capture \<Rightarrow> map_prod id RunningAlsa (alsa_stop panicked capture)
      | RunningArecord capture \<Rightarrow> map_prod id RunningArecord (arecord_stop panicked capture))"

definition drop_audio :: "bool \<Rightarrow> running_audio_capture \<Rightarrow> running_audio_capture" where
  "drop_audio panicked audio =
     (case audio of
        RunningAlsa capture \<Rightarrow> RunningAlsa (alsa_drop panicked capture)
      | RunningArecord capture \<Rightarrow> RunningArecord (arecord_drop capture))"

text \<open>
  What starting an audio capture meets: the PCM device, the clocks, whether a thread and the
  child process can be started, and whether the worker panics before it is joined.
\<close>

record audio_surroundings =
  au_pcm :: pcm_device
  au_now :: nat
  au_clock :: "int \<times> timespec"
  au_thread :: "string + unit"
  au_child :: "string + bool"
  au_panicked :: bool

text \<open>The match on the backend; the second result is what a failed start has left of its child.\<close>

definition start_audio ::
  "audio_backend_arg \<Rightarrow> audio_surroundings \<Rightarrow> nat
   \<Rightarrow> (audio_capture_error + running_audio_capture) \<times> running_audio_capture option" where
  "start_audio backend au session_origin =
     (case backend of
        AlsaBackend \<Rightarrow>
          (case alsa_spawn (au_pcm au) session_origin (au_now au) (au_clock au) (au_thread au) of
             Inl e \<Rightarrow> (Inl e, None)
           | Inr (capture, _) \<Rightarrow> (Inr (RunningAlsa capture), None))
      | ArecordBackend \<Rightarrow>
          (case arecord_spawn (au_child au) (au_thread au) of
             (Inl e, left) \<Rightarrow> (Inl e, map_option RunningArecord left)
           | (Inr _, capture) \<Rightarrow> (Inr (RunningArecord (the capture)), None)))"

text \<open>An audio capture that has ended: nothing of it runs any more.\<close>

fun audio_ended :: "running_audio_capture \<Rightarrow> bool" where
  "audio_ended (RunningAlsa capture) \<longleftrightarrow> \<not> ac_running capture \<and> \<not> ac_worker capture"
| "audio_ended (RunningArecord capture) \<longleftrightarrow> ar_killed capture \<and> ar_waited capture \<and> \<not> ar_worker capture"

lemma stopped_audio_ended: "audio_ended (snd (stop_audio panicked audio))" "audio_ended (drop_audio panicked audio)"
  by (cases audio; simp add: stop_audio_def drop_audio_def alsa_stop_def alsa_drop_def alsa_stop_inner_def
      arecord_stop_def arecord_drop_def reap_child_def Let_def)+

lemma failed_start_ended:
  assumes "start_audio backend au session_origin = (Inl e, Some left)" and "au_child au \<noteq> Inr False"
  shows "audio_ended left"
  using assms
  by (auto simp: start_audio_def arecord_spawn_def reap_child_def Let_def split: audio_backend_arg.splits sum.splits)

subsection \<open>The command with its handles\<close>

text \<open>The camera: libusb, and the callbacks it runs while the session is polled and while it is stopped.\<close>

record 'd camera_surroundings =
  cm_devices :: "usb_error + usb_device list"
  cm_open_device :: "usb_device \<Rightarrow> usb_error + unit"
  cm_usb :: "'d usb_ops"
  cm_selector :: camera_selector
  cm_alloc :: "nat \<Rightarrow> bool"
  cm_submit :: "nat \<Rightarrow> int"
  cm_polled :: "callback list"
  cm_stopping :: "callback list list"

text \<open>
  What a command has left when it has returned: its result and output, the transfers it has freed, the audio handle,
  and the device.
\<close>

record ('h, 'w, 'd) capture_end =
  cx_result :: "'h app_error + unit"
  cx_output :: "'w option"
  cx_freed :: "nat list"
  cx_audio :: "running_audio_capture option"
  cx_usb :: 'd

definition open_camera ::
  "'d camera_surroundings \<Rightarrow> init_op list \<Rightarrow> init_strategy \<Rightarrow> 'd
   \<Rightarrow> ((usb_transport_error + open_session) \<times> nat list \<times> 'd) option" where
  "open_camera cm plan strategy d =
     open_with_init_strategy (cm_devices cm) (cm_open_device cm) (cm_usb cm) (cm_alloc cm) (cm_submit cm)
       (cm_stopping cm) (cm_selector cm) plan strategy d"

text \<open>Leaving the command early: the session is dropped, after the audio handle.\<close>

definition leave ::
  "'d camera_surroundings \<Rightarrow> usb_session \<Rightarrow> running_audio_capture option \<Rightarrow> 'h app_error + unit \<Rightarrow> 'w option
   \<Rightarrow> 'd \<Rightarrow> ('h, 'w, 'd) capture_end option" where
  "leave cm session' audio result out d =
     (case drop_session (cm_usb cm) (cm_stopping cm) session' d of
        None \<Rightarrow> None
      | Some (_, to_free, d) \<Rightarrow>
          Some \<lparr>cx_result = result, cx_output = out, cx_freed = to_free, cx_audio = audio, cx_usb = d\<rparr>)"

text \<open>\<open>run_capture\<close>; \<open>None\<close>: it has not returned yet.\<close>

definition capture_program ::
  "app_text \<Rightarrow> 'h hex_decoder \<Rightarrow> string \<Rightarrow> 'w output_ops \<Rightarrow> (string \<Rightarrow> string + string) \<Rightarrow> string + unit
   \<Rightarrow> string + 'w \<Rightarrow> 'd camera_surroundings \<Rightarrow> audio_surroundings \<Rightarrow> audio_backend_arg \<Rightarrow> capture_args \<Rightarrow> nat
   \<Rightarrow> capture_tick list \<Rightarrow> 'd \<Rightarrow> ('h, 'w, 'd) capture_end option" where
  "capture_program text hex_decode embedded ops read_plan signals create cm au backend args session_origin ticks d =
     (case rbind (load_plan hex_decode embedded read_plan (ca_init_plan args)) (\<lambda>plan.
           rbind (apply_quality (ca_quality args) plan) (\<lambda>plan.
           rbind (map_err SignalError signals) (\<lambda>_. Inr plan))) of
        Inl e \<Rightarrow> Some \<lparr>cx_result = Inl e, cx_output = None, cx_freed = [], cx_audio = None, cx_usb = d\<rparr>
      | Inr plan \<Rightarrow>
        (case open_camera cm plan (choose_strategy (ca_semantic_init args) (ca_playback_init args)) d of
           None \<Rightarrow> None
         | Some (Inl e, to_free, d) \<Rightarrow>
             Some \<lparr>cx_result = Inl (UsbError e), cx_output = None, cx_freed = to_free, cx_audio = None, cx_usb = d\<rparr>
         | Some (Inr ses, _, d) \<Rightarrow>
           (case start_audio backend au session_origin of
              (Inl e, left) \<Rightarrow> leave cm (us_state ses) left (Inl (AudioError e)) None d
            | (Inr audio, _) \<Rightarrow>
              (case rbind (map_err (CreateCapture (ca_output args)) create) (\<lambda>output.
                    map_err MatroskaError (matroska_new ops output camera_format)) of
                 Inl e \<Rightarrow> leave cm (us_state ses) (Some (drop_audio (au_panicked au) audio)) (Inl e) None d
               | Inr writer \<Rightarrow>
                 (case run_capture_session text ops session_origin (ca_audio_delay_ms args) ticks (capture_initial writer) of
                    (None, s) \<Rightarrow> None
                  | (Some result, s) \<Rightarrow>
                    (case stop_session (cm_usb cm) (cm_stopping cm) (deliver (cm_polled cm) (us_state ses)) d of
                       None \<Rightarrow> None
                     | Some (_, to_free, d) \<Rightarrow>
                       (case stop_audio (au_panicked au) audio of (audio_result, audio) \<Rightarrow>
                        case (case rbind result (\<lambda>_. map_err AudioError audio_result) of
                                Inl e \<Rightarrow> (Inl e, cs_writer s)
                              | Inr _ \<Rightarrow>
                                  (case matroska_flush ops (cs_writer s) of
                                     (flushed, writer) \<Rightarrow> (map_err MatroskaError flushed, writer))) of
                          (result, writer) \<Rightarrow>
                            Some \<lparr>cx_result = result, cx_output = Some (mw_output writer), cx_freed = to_free,
                                  cx_audio = Some audio, cx_usb = d\<rparr>)))))))"

subsection \<open>Agreement with the description without handles\<close>

text \<open>What the camera and the audio capture answer, as the surroundings of \<open>run_capture\<close>.\<close>

definition capture_env_of ::
  "(string \<Rightarrow> string + string) \<Rightarrow> string + unit \<Rightarrow> string + 'w \<Rightarrow> 'd camera_surroundings \<Rightarrow> audio_surroundings
   \<Rightarrow> audio_backend_arg \<Rightarrow> nat \<Rightarrow> 'd \<Rightarrow> 'w capture_env" where
  "capture_env_of read_plan signals create cm au backend session_origin d =
     \<lparr>ce_read_plan = read_plan, ce_signals = signals,
      ce_open = (\<lambda>plan strategy. case open_camera cm plan strategy d of
          None \<Rightarrow> Inr () | Some (r, _) \<Rightarrow> map_sum id (\<lambda>_. ()) r),
      ce_audio = map_sum id (\<lambda>_. ()) (fst (start_audio backend au session_origin)),
      ce_create = create,
      ce_audio_stop = (case fst (start_audio backend au session_origin) of
          Inl _ \<Rightarrow> Inr () | Inr audio \<Rightarrow> fst (stop_audio (au_panicked au) audio))\<rparr>"

lemma capture_setup_after_plan:
  "capture_setup hex_decode embedded ops env args =
     rbind (rbind (load_plan hex_decode embedded (ce_read_plan env) (ca_init_plan args)) (\<lambda>plan.
           rbind (apply_quality (ca_quality args) plan) (\<lambda>plan.
           rbind (map_err SignalError (ce_signals env)) (\<lambda>_. Inr plan)))) (\<lambda>plan.
     rbind (map_err UsbError
       (ce_open env plan (choose_strategy (ca_semantic_init args) (ca_playback_init args)))) (\<lambda>_.
     rbind (map_err AudioError (ce_audio env)) (\<lambda>_.
     rbind (map_err (CreateCapture (ca_output args)) (ce_create env)) (\<lambda>output.
     map_err MatroskaError (matroska_new ops output camera_format)))))"
  by (simp add: capture_setup_def rbind_def split: sum.split)

lemma capture_program_answers:
  assumes "capture_program text hex_decode embedded ops read_plan signals create cm au backend args session_origin ticks d
      = Some (e :: ('h, 'w, 'd) capture_end)"
  shows "run_capture text hex_decode embedded ops (capture_env_of read_plan signals create cm au backend session_origin d)
      args session_origin ticks = (Some (cx_result e), cx_output e)"
proof -
  let ?env = "capture_env_of read_plan signals create cm au backend session_origin d"
  let ?plan = "rbind (load_plan hex_decode embedded read_plan (ca_init_plan args)) (\<lambda>plan.
           rbind (apply_quality (ca_quality args) plan) (\<lambda>plan.
           rbind (map_err SignalError signals) (\<lambda>_. Inr plan))) :: 'h app_error + init_op list"
  have env: "ce_read_plan ?env = read_plan" "ce_signals ?env = signals" "ce_create ?env = create"
    by (simp_all add: capture_env_of_def)
  show ?thesis
  proof (cases ?plan)
    case (Inl err)
    then show ?thesis
      using assms unfolding capture_program_def run_capture_def capture_setup_after_plan env by auto
  next
    case (Inr plan)
    have prepared: "capture_setup hex_decode embedded ops ?env args =
        rbind (map_err UsbError (ce_open ?env plan (choose_strategy (ca_semantic_init args) (ca_playback_init args)))) (\<lambda>_.
        rbind (map_err AudioError (ce_audio ?env)) (\<lambda>_.
        rbind (map_err (CreateCapture (ca_output args)) create) (\<lambda>output.
        map_err MatroskaError (matroska_new ops output camera_format))))"
      unfolding capture_setup_after_plan env Inr by simp
    show ?thesis
      using assms unfolding capture_program_def Inr run_capture_def prepared
      by (auto simp: capture_env_of_def leave_def rbind_def split: sum.splits option.splits prod.splits)
  qed
qed

subsection \<open>Nothing is left open\<close>

text \<open>A device that is closed again, and every transfer of an open session freed.\<close>

definition session_closed :: "usb_call list \<Rightarrow> nat list \<Rightarrow> bool" where
  "session_closed log to_free \<longleftrightarrow>
     claims log = 1 \<and> releases log = 1 \<and> (\<exists>l. log = l @ [AlternateCall 0 0, ReleaseCall]) \<and> to_free = [0..<64]"

lemma stop_closes:
  assumes "stop_session (logged usb) batches (deliver cbs s) (d, log) = Some (s', to_free, d')"
    and "\<not> stopped s" "length (slots s) = 64" "claims log = 1" "releases log = 0"
  shows "session_closed (snd d') to_free"
proof -
  obtain d1 l1 where d': "d' = (d1, l1)" by fastforce
  then show ?thesis
    using stop_delivered_session [of usb batches cbs s d log s' to_free d1 l1] assms by (simp add: session_closed_def)
qed

lemma leave_closes:
  assumes "leave cm s audio r out (d, log) = Some e" and usb: "cm_usb cm = logged usb"
    and "\<not> stopped s" "length (slots s) = 64" "claims log = 1" "releases log = 0"
  shows "cx_audio e = audio \<and> session_closed (snd (cx_usb e)) (cx_freed e)"
proof -
  obtain s' to_free d' where "stop_session (logged usb) (cm_stopping cm) (deliver [] s) (d, log) = Some (s', to_free, d')"
    and e: "e = \<lparr>cx_result = r, cx_output = out, cx_freed = to_free, cx_audio = audio, cx_usb = d'\<rparr>"
    using assms(1) by (auto simp: leave_def deliver_def usb split: option.splits)
  from stop_closes [OF this(1) assms(3-6)] show ?thesis by (simp add: e)
qed

text \<open>
  The two ways to return: before a session was open, with what a failed opening has freed; and after, with the
  session closed and the audio capture ended.
\<close>

lemma capture_program_ends:
  assumes run: "capture_program text hex_decode embedded ops read_plan signals create
        cm au backend args session_origin ticks (d, [])
      = Some (e :: ('h, 'w, 'd \<times> usb_call list) capture_end)"
    and usb: "cm_usb cm = logged usb" and piped: "au_child au \<noteq> Inr False"
  shows "(cx_output e = None \<and> cx_audio e = None \<and> claims (snd (cx_usb e)) = releases (snd (cx_usb e))
      \<and> (0 < releases (snd (cx_usb e)) \<longrightarrow> (\<exists>l. snd (cx_usb e) = l @ [AlternateCall 0 0, ReleaseCall]))
      \<and> (cx_freed e = [] \<or> (\<exists>u n. cx_result e = Inl (UsbError u) \<and> allocated (cm_alloc cm) (cm_submit cm) (Inl u) n
            \<and> cx_freed e = [0..<n])))
    \<or> session_closed (snd (cx_usb e)) (cx_freed e) \<and> (\<forall>audio. cx_audio e = Some audio \<longrightarrow> audio_ended audio)"
proof -
  let ?plan = "rbind (load_plan hex_decode embedded read_plan (ca_init_plan args)) (\<lambda>plan.
           rbind (apply_quality (ca_quality args) plan) (\<lambda>plan.
           rbind (map_err SignalError signals) (\<lambda>_. Inr plan))) :: 'h app_error + init_op list"
  show ?thesis
  proof (cases ?plan)
    case (Inl err)
    then show ?thesis using run by (auto simp: capture_program_def)
  next
    case (Inr plan)
    let ?strategy = "choose_strategy (ca_semantic_init args) (ca_playback_init args)"
    obtain r to_free d1 log where opened:
      "open_camera cm plan ?strategy (d, []) = Some (r, to_free, d1, log)"
      using run Inr by (auto simp: capture_program_def split: option.splits)
    note balance = open_balance [of "cm_devices cm" "cm_open_device cm" usb "cm_alloc cm" "cm_submit cm" "cm_stopping cm"
        "cm_selector cm" plan ?strategy d r to_free d1 log]
    have balanced: "case r of
        Inl e \<Rightarrow> claims log = releases log
          \<and> (0 < releases log \<longrightarrow> (\<exists>l. log = l @ [AlternateCall 0 0, ReleaseCall]))
          \<and> (to_free = [] \<or> (\<exists>n. allocated (cm_alloc cm) (cm_submit cm) (Inl e) n \<and> to_free = [0..<n]))
      | Inr ses \<Rightarrow> to_free = [] \<and> claims log = 1 \<and> releases log = 0
          \<and> allocated (cm_alloc cm) (cm_submit cm) (Inr ()) 64
          \<and> length (slots (us_state ses)) = 64 \<and> \<not> stopped (us_state ses)"
      by (rule balance) (use opened in \<open>simp add: open_camera_def usb\<close>)
    show ?thesis
    proof (cases r)
      case (Inl u)
      then show ?thesis using run Inr opened balanced by (auto simp: capture_program_def)
    next
      case (Inr ses)
      note held = balanced [unfolded Inr sum.case]
      obtain started left where start: "start_audio backend au session_origin = (started, left)" by fastforce
      show ?thesis
      proof (cases started)
        case (Inl a)
        have "leave cm (us_state ses) left (Inl (AudioError a)) None (d1, log) = Some e"
          using run \<open>?plan = Inr plan\<close> opened Inr start Inl by (simp add: capture_program_def)
        from leave_closes [OF this usb] held show ?thesis
          using failed_start_ended [OF _ piped] start Inl by auto
      next
        case running: (Inr audio)
        let ?writer = "rbind (map_err (CreateCapture (ca_output args)) create) (\<lambda>output.
                    map_err MatroskaError (matroska_new ops output camera_format)) :: 'h app_error + 'w matroska_writer"
        show ?thesis
        proof (cases ?writer)
          case (Inl a)
          have "leave cm (us_state ses) (Some (drop_audio (au_panicked au) audio)) (Inl a) None (d1, log) = Some e"
            using run \<open>?plan = Inr plan\<close> opened Inr start running Inl by (simp add: capture_program_def)
          from leave_closes [OF this usb] held show ?thesis using stopped_audio_ended(2) by auto
        next
          case writing: (Inr writer)
          obtain s' to_free' d' where
            "stop_session (logged usb) (cm_stopping cm) (deliver (cm_polled cm) (us_state ses)) (d1, log) = Some (s', to_free', d')"
            and "cx_freed e = to_free'" "cx_usb e = d'" "cx_audio e = Some (snd (stop_audio (au_panicked au) audio))"
            using run \<open>?plan = Inr plan\<close> opened Inr start running writing usb
            by (auto simp: capture_program_def split: option.splits prod.splits)
          with stop_closes [OF this(1)] held show ?thesis using stopped_audio_ended(1) by auto
        qed
      qed
    qed
  qed
qed

text \<open>
  Property C8. When a capture command has returned, on whatever path, it has left nothing behind and answered what
  its description without handles says. Every claim of the interface has been released,
  with alternate setting 0 selected before; every transfer it has allocated was freed exactly once, and these are all
  64 once the session was open; and an audio capture that was started has ended, with its worker
  joined and its child process killed and reaped.
\<close>

theorem capture_leaves_nothing_open:
  assumes "capture_program text hex_decode embedded ops read_plan signals create
        cm au backend args session_origin ticks (d, [])
      = Some (e :: ('h, 'w, 'd \<times> usb_call list) capture_end)"
    and "cm_usb cm = logged usb" and "au_child au \<noteq> Inr False"
  shows "run_capture text hex_decode embedded ops
        (capture_env_of read_plan signals create cm au backend session_origin (d, []))
        args session_origin ticks = (Some (cx_result e), cx_output e)
    \<and> claims (snd (cx_usb e)) = releases (snd (cx_usb e))
    \<and> (0 < releases (snd (cx_usb e)) \<longrightarrow> (\<exists>l. snd (cx_usb e) = l @ [AlternateCall 0 0, ReleaseCall]))
    \<and> (cx_freed e = [0..<64] \<or> cx_output e = None \<and> cx_audio e = None \<and>
         (cx_freed e = [] \<or> (\<exists>u n. cx_result e = Inl (UsbError u) \<and> allocated (cm_alloc cm) (cm_submit cm) (Inl u) n
            \<and> cx_freed e = [0..<n])))
    \<and> (\<forall>audio. cx_audio e = Some audio \<longrightarrow> audio_ended audio)"
  using capture_program_answers [OF assms(1)] capture_program_ends [OF assms]
  by (auto simp: session_closed_def)

text \<open>
  A capture whose session and \<open>arecord\<close> are running when its output turns out to exist.
\<close>

definition completions :: "nat \<Rightarrow> callback list list" where
  "completions n = [map (\<lambda>i. (i, True, sample_completion)) [0..<n]]"

lemma completions_slots: "fst ` set (concat (completions n)) = {0..<n}"
  by (simp add: completions_def image_image)

definition sample_studio :: "(nat \<times> usb_call list) camera_surroundings" where
  "sample_studio =
     \<lparr>cm_devices = Inr [sample_camera], cm_open_device = (\<lambda>_. Inr ()), cm_usb = logged sample_handle,
      cm_selector = \<lparr>sel_bus = None, sel_ports = []\<rparr>, cm_alloc = (\<lambda>_. True), cm_submit = (\<lambda>_. 0), cm_polled = [],
      cm_stopping = completions 64\<rparr>"

definition sample_capture :: capture_args where
  "sample_capture =
     \<lparr>ca_output = ''tape.mkv'', ca_audio_delay_ms = 0, ca_init_plan = None, ca_quality = None,
      ca_semantic_init = False, ca_playback_init = False\<rparr>"

lemma sample_studio_opens:
  "\<exists>ses d'. open_camera sample_studio [] LiteralReplay (0, [])
      = Some (Inr ses, [], d', [ClaimCall True])
    \<and> length (slots (us_state ses)) = 64 \<and> \<not> stopped (us_state ses)"
proof -
  obtain s where "allocate_and_submit (\<lambda>_. True) (\<lambda>_. 0) session_initial = (Inr (), s)" "length (slots s) = 64" "\<not> stopped s"
    by (rule allocate_succeeds)
  moreover have "open_device_session (Inr [sample_camera]) (\<lambda>_. Inr ()) (logged sample_handle)
       \<lparr>sel_bus = None, sel_ports = []\<rparr> [] LiteralReplay (0, []) = Some (Inr (sample_camera, [2]), 0, [ClaimCall True])"
    by (simp add: open_device_session_def sample_camera_selected usb_result_def replay_initialization_def replay_from_list
        logged_def sample_handle_def)
  ultimately show ?thesis
    by (auto simp: open_camera_def sample_studio_def open_with_init_strategy_def)
qed

definition sample_audio :: audio_surroundings where
  "sample_audio =
     \<lparr>au_pcm = \<lparr>cf_new = Inl (- 2), cf_any = Inr (), cf_access = Inr (), cf_format = Inr (), cf_channels = (\<lambda>_. Inr ()),
        cf_rate_near = Inr, cf_period_near = Inr, cf_buffer = (\<lambda>_. Inr ()), cf_hw_params = Inr (), cf_sw_current = Inr (),
        cf_avail_min = (\<lambda>_. Inr ()), cf_tstamp_mode = (\<lambda>_. Inr ()), cf_tstamp_monotonic = Inr (), cf_sw_params = Inr (),
        cf_prepare = Inr (), cf_start = Inr ()\<rparr>,
      au_now = 7, au_clock = (0, \<lparr>tv_sec = 0, tv_nsec = 7\<rparr>), au_thread = Inr (), au_child = Inr True, au_panicked = False\<rparr>"

theorem capture_leaves_nothing_open_witness:
  "\<exists>e :: (string, nat, nat \<times> usb_call list) capture_end.
     capture_program \<lparr>tx_event = (\<lambda>_. ''event''), tx_sync = (\<lambda>_. ''sync''), tx_usb = (\<lambda>_. ''usb'')\<rparr> (\<lambda>_. Inl ''none'') []
        \<lparr>out_write_all = (\<lambda>_ w. (Inr (), w)), out_seek_end = (\<lambda>w. (Inr 0, w)), out_seek_start = (\<lambda>_ w. (Inr (), w)),
         out_position = (\<lambda>w. (Inr 0, w)), out_flush = (\<lambda>w. (Inr (), w))\<rparr>
        (\<lambda>_. Inl ''none'') (Inr ()) (Inl ''exists'') sample_studio sample_audio ArecordBackend sample_capture 0 [] (0, [])
      = Some e
    \<and> cx_result e = Inl (CreateCapture ''tape.mkv'' ''exists'') \<and> cx_freed e = [0..<64]
    \<and> claims (snd (cx_usb e)) = releases (snd (cx_usb e)) \<and> (\<exists>audio. cx_audio e = Some audio \<and> audio_ended audio)"
    (is "\<exists>e. ?run = Some e \<and> _")
proof -
  obtain ses d' where opened: "open_camera sample_studio [] LiteralReplay (0, []) = Some (Inr ses, [], d', [ClaimCall True])"
    and ses: "length (slots (us_state ses)) = 64" "\<not> stopped (us_state ses)"
    using sample_studio_opens by blast
  have all: "fst ` set (concat (cm_stopping sample_studio)) = {0..<length (slots (us_state ses))}"
    unfolding ses(1) by (simp only: sample_studio_def camera_surroundings.simps completions_slots)
  obtain s' to_free d'' where stop: "stop_session (cm_usb sample_studio) (cm_stopping sample_studio) (us_state ses) (d', [ClaimCall True])
      = Some (s', to_free, d'')"
    using stop_session_returns [OF ses(2) all, of "cm_usb sample_studio" "(d', [ClaimCall True])"] by (elim exE)
  then obtain e where run: "?run = Some e" and e: "cx_result e = Inl (CreateCapture ''tape.mkv'' ''exists'')"
    "\<exists>audio. cx_audio e = Some audio"
    using opened
    by (auto simp: capture_program_def sample_capture_def load_plan_def record_mode_init_plan_def parse_init_plan_def
        str_lines_def apply_quality_def choose_strategy_def start_audio_def arecord_spawn_def sample_audio_def leave_def)
  have "cm_usb sample_studio = logged sample_handle" "au_child sample_audio \<noteq> Inr False"
    by (simp_all add: sample_studio_def sample_audio_def)
  from capture_leaves_nothing_open [OF run this] e run show ?thesis by (auto simp del: upt_rec_numeral)
qed

end
