(* ===== verification/Stream_Session.thy ===== *)
theory Stream_Session
  imports Session_Frames
begin

section \<open>The stream command\<close>

text \<open>
  Model of \<open>run_stream\<close>, \<open>run_session\<close> and \<open>wait_interruptibly\<close> of
  \<open>crates/handycam-cli/src/main.rs\<close>: frames of the camera go to the output worker through
  a bounded channel, and the camera is opened again after a failure. The surroundings
  are the operations of \<open>driver_ops\<close> and the camera. The
  periodic report, which only logs, is left out.
\<close>

record driver_stats =
  ds_boundaries :: u64
  ds_headers :: u64
  ds_frames :: u64
  ds_timestamp_gaps :: u64
  ds_queue_drops :: u64
  ds_protocol_errors :: u64
  ds_reconnects :: u64

definition driver_stats_default :: driver_stats where
  "driver_stats_default =
     \<lparr>ds_boundaries = 0, ds_headers = 0, ds_frames = 0, ds_timestamp_gaps = 0, ds_queue_drops = 0,
      ds_protocol_errors = 0, ds_reconnects = 0\<rparr>"

text \<open>The camera: opening a session, polling it, and stopping it.\<close>

record 'w stream_ops = "'w driver_ops" +
  st_open :: "init_op list \<Rightarrow> init_strategy \<Rightarrow> 'w \<Rightarrow> (usb_transport_error + unit) \<times> 'w"
  st_poll :: "'w \<Rightarrow> (usb_transport_error + session_event list) \<times> 'w"
  st_stop :: "'w \<Rightarrow> 'w"

subsection \<open>One camera session\<close>

datatype session_end =
    Stopped
  | SinkEnded
  | SessionDisconnected string

text \<open>The two counters of a packet.\<close>

definition count_stream_packet :: "endpoint \<Rightarrow> bytes \<Rightarrow> driver_stats \<Rightarrow> driver_stats" where
  "count_stream_packet ep data stats =
     (case ep of
        Boundary \<Rightarrow>
          if data \<noteq> [] \<and> hd data AND 0x08 \<noteq> 0
          then stats\<lparr>ds_boundaries := ds_boundaries stats + 1\<rparr> else stats
      | Video \<Rightarrow>
          if length data \<ge> 8 \<and> take 6 data = replicate 6 0xff
          then stats\<lparr>ds_headers := ds_headers stats + 1\<rparr> else stats)"

text \<open>A completed frame: counted, and offered to the worker without waiting.\<close>

definition offer_frame ::
  "'w stream_ops \<Rightarrow> compressed_frame \<Rightarrow> driver_stats \<Rightarrow> 'w \<Rightarrow> session_end option \<times> driver_stats \<times> 'w" where
  "offer_frame ops frame stats w =
     (let stats = (if is_nominal_camera_delta (timestamp_delta_to_next_ms frame) then stats
                   else stats\<lparr>ds_timestamp_gaps := ds_timestamp_gaps stats + 1\<rparr>)
      in case dr_try_send ops frame w of
           (SendOk, w) \<Rightarrow> (None, stats\<lparr>ds_frames := ds_frames stats + 1\<rparr>, w)
         | (SendFull, w) \<Rightarrow> (None, stats\<lparr>ds_queue_drops := ds_queue_drops stats + 1\<rparr>, w)
         | (SendDisconnected, w) \<Rightarrow> (Some SinkEnded, stats, w))"

text \<open>One event; \<open>Some\<close>: the session ends with it.\<close>

definition stream_event ::
  "app_text \<Rightarrow> 'w stream_ops \<Rightarrow> session_event \<Rightarrow> stream_decoder \<Rightarrow> driver_stats \<Rightarrow> 'w
   \<Rightarrow> session_end option \<times> stream_decoder \<times> driver_stats \<times> 'w" where
  "stream_event text ops event decoder stats w =
     (case event of
        Packet ep data _ \<Rightarrow>
          let stats = count_stream_packet ep data stats
          in case push_packet decoder \<lparr>ep_endpoint = ep, ep_data = data\<rparr> of
               (Inr (Some frame), decoder) \<Rightarrow>
                 (case offer_frame ops frame stats w of (e, stats, w) \<Rightarrow> (e, decoder, stats, w))
             | (Inr None, decoder) \<Rightarrow> (None, decoder, stats, w)
             | (Inl _, decoder) \<Rightarrow>
                 (None, decoder_reset decoder,
                  stats\<lparr>ds_protocol_errors := ds_protocol_errors stats + 1\<rparr>, w)
      | PacketError _ _ \<Rightarrow> (None, decoder_reset decoder, stats, w)
      | _ \<Rightarrow>
          if ends_session event
          then (Some (SessionDisconnected (tx_event text event)), decoder, stats, w)
          else (None, decoder, stats, w))"

fun stream_events ::
  "app_text \<Rightarrow> 'w stream_ops \<Rightarrow> session_event list \<Rightarrow> stream_decoder \<Rightarrow> driver_stats \<Rightarrow> 'w
   \<Rightarrow> session_end option \<times> stream_decoder \<times> driver_stats \<times> 'w" where
  "stream_events text ops [] decoder stats w = (None, decoder, stats, w)"
| "stream_events text ops (event # events) decoder stats w =
     (case stream_event text ops event decoder stats w of
        (Some e, rest) \<Rightarrow> (Some e, rest)
      | (None, decoder, stats, w) \<Rightarrow> stream_events text ops events decoder stats w)"

text \<open>\<open>run_session\<close> for at most the given number of iterations; \<open>None\<close>: still running.\<close>

fun run_session ::
  "app_text \<Rightarrow> 'w stream_ops \<Rightarrow> nat \<Rightarrow> stream_decoder \<Rightarrow> driver_stats \<Rightarrow> 'w
   \<Rightarrow> ('h app_error + session_end) option \<times> driver_stats \<times> 'w" where
  "run_session text ops 0 decoder stats w = (None, stats, w)"
| "run_session text ops (Suc steps) decoder stats w =
     (case dr_stopping ops w of
        (True, w) \<Rightarrow> (Some (Inr Stopped), stats, w)
      | (False, w) \<Rightarrow>
        (case dr_try_recv_status ops w of (status, w) \<Rightarrow>
         case check_sink status of
           Some result \<Rightarrow> (Some (map_sum (\<lambda>e. e) (\<lambda>_. SinkEnded) result), stats, w)
         | None \<Rightarrow>
           (case st_poll ops w of
              (Inl e, w) \<Rightarrow>
                (case dr_stopping ops w of (stopping, w) \<Rightarrow>
                   (Some (Inr (if stopping then Stopped else SessionDisconnected (tx_usb text e))),
                    stats, w))
            | (Inr events, w) \<Rightarrow>
                (case stream_events text ops events decoder stats w of
                   (Some e, decoder, stats, w) \<Rightarrow> (Some (Inr e), stats, w)
                 | (None, decoder, stats, w) \<Rightarrow> run_session text ops steps decoder stats w))))"

subsection \<open>Opening the camera again\<close>

definition RETRY_DELAY :: nat where
  "RETRY_DELAY = 500000000"

text \<open>\<open>(retry_delay * 2).min(Duration::from_secs(5))\<close>.\<close>

definition next_retry_delay :: "nat \<Rightarrow> nat" where
  "next_retry_delay delay = min (delay * 2) 5000000000"

text \<open>
  How the loop of \<open>run_stream\<close> ends: with a \<open>break\<close>, or with the \<open>?\<close> of the waiting, which
  returns from the command without joining the worker.
\<close>

datatype 'h stream_exit =
    BreakWith "'h app_error + unit"
  | ReturnError "'h app_error"
  | StillRunning

record stream_args =
  sa_output :: string
  sa_format :: output_format
  sa_init_plan :: "string option"
  sa_quality :: "u8 option"
  sa_semantic_init :: bool
  sa_playback_init :: bool
  sa_no_reconnect :: bool

text \<open>\<open>inner\<close> bounds the iterations of a session and of a wait, the next argument those of the loop.\<close>

fun stream_loop ::
  "app_text \<Rightarrow> 'w stream_ops \<Rightarrow> init_op list \<Rightarrow> init_strategy \<Rightarrow> bool \<Rightarrow> nat \<Rightarrow> nat \<Rightarrow> nat
   \<Rightarrow> driver_stats \<Rightarrow> 'w \<Rightarrow> 'h stream_exit \<times> driver_stats \<times> 'w" where
  "stream_loop text ops plan strategy no_reconnect inner 0 delay stats w = (StillRunning, stats, w)"
| "stream_loop text ops plan strategy no_reconnect inner (Suc steps) delay stats w =
     (case dr_stopping ops w of
        (True, w) \<Rightarrow> (BreakWith (Inr ()), stats, w)
      | (False, w) \<Rightarrow>
        (case dr_try_recv_status ops w of (status, w) \<Rightarrow>
         case check_sink status of
           Some result \<Rightarrow> (BreakWith result, stats, w)
         | None \<Rightarrow>
           (case st_open ops plan strategy w of
              (Inl e, w) \<Rightarrow>
                if should_retry_open e \<and> \<not> no_reconnect then
                  (case wait_interruptibly ops inner delay w of
                     (None, w) \<Rightarrow> (StillRunning, stats, w)
                   | (Some (Inl e), w) \<Rightarrow> (ReturnError e, stats, w)
                   | (Some (Inr True), w) \<Rightarrow> (BreakWith (Inr ()), stats, w)
                   | (Some (Inr False), w) \<Rightarrow>
                       stream_loop text ops plan strategy no_reconnect inner steps
                         (next_retry_delay delay) stats w)
                else (BreakWith (Inl (UsbError e)), stats, w)
            | (Inr _, w) \<Rightarrow>
                let stats = stats\<lparr>ds_reconnects := ds_reconnects stats + 1\<rparr>
                in case run_session text ops inner decoder_new stats w of
                     (None, stats, w) \<Rightarrow> (StillRunning, stats, w)
                   | (Some session_result, stats, w) \<Rightarrow>
                     let w = st_stop ops w
                     in case session_result of
                          Inr Stopped \<Rightarrow> (BreakWith (Inr ()), stats, w)
                        | Inr SinkEnded \<Rightarrow> (BreakWith (Inr ()), stats, w)
                        | Inr (SessionDisconnected reason) \<Rightarrow>
                            if no_reconnect
                            then (BreakWith (Inl (SinkError (''camera disconnected: '' @ reason))), stats, w)
                            else stream_loop text ops plan strategy no_reconnect inner steps
                                   RETRY_DELAY stats w
                        | Inl e \<Rightarrow> (BreakWith (Inl e), stats, w))))"

text \<open>What \<open>run_stream\<close> does before the worker is started.\<close>

definition stream_setup ::
  "'h hex_decoder \<Rightarrow> string \<Rightarrow> (string \<Rightarrow> string + string) \<Rightarrow> stream_args \<Rightarrow> 'h app_error + init_op list"
  where
  "stream_setup hex_decode embedded read_file_text args =
     rbind (load_plan hex_decode embedded read_file_text (sa_init_plan args))
       (apply_quality (sa_quality args))"

text \<open>\<open>run_stream\<close>: its result (\<open>None\<close> while it runs), the statistics, and the world.\<close>

definition run_stream ::
  "app_text \<Rightarrow> 'h hex_decoder \<Rightarrow> string \<Rightarrow> (string \<Rightarrow> string + string) \<Rightarrow> 'w stream_ops \<Rightarrow> stream_args
   \<Rightarrow> nat \<Rightarrow> nat \<Rightarrow> 'w \<Rightarrow> ('h app_error + unit) option \<times> driver_stats \<times> 'w" where
  "run_stream text hex_decode embedded read_file_text ops args inner steps w =
     (case stream_setup hex_decode embedded read_file_text args of
        Inl e \<Rightarrow> (Some (Inl e), driver_stats_default, w)
      | Inr plan \<Rightarrow>
        (case dr_signals ops w of
           (Inl e, w) \<Rightarrow> (Some (Inl (SignalError e)), driver_stats_default, w)
         | (Inr _, w) \<Rightarrow>
           (case dr_recv_status ops (dr_spawn ops (choose_target (sa_output args)) (sa_format args) w) of
              (status, w) \<Rightarrow>
              case wait_for_sink status of
                Inl e \<Rightarrow> (Some (Inl e), driver_stats_default, w)
              | Inr _ \<Rightarrow>
                (case stream_loop text ops plan
                        (choose_strategy (sa_semantic_init args) (sa_playback_init args))
                        (sa_no_reconnect args) inner steps RETRY_DELAY driver_stats_default w of
                   (StillRunning, stats, w) \<Rightarrow> (None, stats, w)
                 | (ReturnError e, stats, w) \<Rightarrow> (Some (Inl e), stats, w)
                 | (BreakWith result, stats, w) \<Rightarrow>
                     (case dr_join ops w of
                        (joined, w) \<Rightarrow>
                          (Some (if joined then result else Inl SinkPanicked), stats, w))))))"

end
