(* ===== verification/Stream_Log.thy ===== *)
theory Stream_Log
  imports Stream_Session Driver_Log
begin

section \<open>What a stream does\<close>

text \<open>
  The correctness of the stream command against a log of what it asks of its surroundings
  and of the camera: its statistics, the frames it offers to the worker, the order of opening, retrying
  and stopping, and the reasons for which it ends.
\<close>

definition logged_stream :: "'w stream_ops \<Rightarrow> ('w \<times> driver_log list) stream_ops" where
  "logged_stream ops =
     driver_ops.extend (logged_driver (driver_ops.truncate ops))
       (stream_ops.fields
         (\<lambda>plan strategy. log_result Opened (st_open ops plan strategy))
         (log_result Polled (st_poll ops))
         (\<lambda>(w, l). (st_stop ops w, l @ [SessionStopped])))"

lemma logged_stream_simps [simp]:
  "dr_stopping (logged_stream ops) = log_result StopRead (dr_stopping ops)"
  "dr_now (logged_stream ops) = log_result TimeRead (dr_now ops)"
  "dr_sleep (logged_stream ops) d (w, l) = (dr_sleep ops d w, l @ [Slept d])"
  "dr_signals (logged_stream ops) = keep_log (dr_signals ops)"
  "dr_spawn (logged_stream ops) target format (w, l) = (dr_spawn ops target format w, l)"
  "dr_recv_status (logged_stream ops) = keep_log (dr_recv_status ops)"
  "dr_try_recv_status (logged_stream ops) = log_result StatusRead (dr_try_recv_status ops)"
  "dr_try_send (logged_stream ops) frame = log_result (\<lambda>r. Offered (frame, r)) (dr_try_send ops frame)"
  "dr_join (logged_stream ops) = keep_log (dr_join ops)"
  "st_open (logged_stream ops) plan strategy = log_result Opened (st_open ops plan strategy)"
  "st_poll (logged_stream ops) = log_result Polled (st_poll ops)"
  "st_stop (logged_stream ops) (w, l) = (st_stop ops w, l @ [SessionStopped])"
  by (simp_all add: logged_stream_def logged_driver_def driver_ops.defs stream_ops.defs)

subsection \<open>Statistics of a session\<close>

definition is_boundary :: "session_event \<Rightarrow> bool" where
  "is_boundary event \<longleftrightarrow>
     (case event of Packet Boundary data _ \<Rightarrow> data \<noteq> [] \<and> hd data AND 0x08 \<noteq> 0 | _ \<Rightarrow> False)"

definition is_header :: "session_event \<Rightarrow> bool" where
  "is_header event \<longleftrightarrow> (case event of Packet Video data _ \<Rightarrow> has_header_prefix data | _ \<Rightarrow> False)"

text \<open>The counts that some events and the offers of their frames stand for.\<close>

definition session_counts ::
  "stream_decoder \<Rightarrow> session_event list \<Rightarrow> (compressed_frame \<times> try_send) list \<Rightarrow> driver_stats \<Rightarrow> driver_stats"
  where
  "session_counts decoder events offers stats = stats
     \<lparr>ds_boundaries := ds_boundaries stats + of_nat (length (filter is_boundary events)),
      ds_headers := ds_headers stats + of_nat (length (filter is_header events)),
      ds_frames := ds_frames stats + of_nat (length (filter (\<lambda>(f, r). r = SendOk) offers)),
      ds_timestamp_gaps := ds_timestamp_gaps stats
        + of_nat (length (filter (\<lambda>(f, r). \<not> is_nominal_camera_delta (timestamp_delta_to_next_ms f)) offers)),
      ds_queue_drops := ds_queue_drops stats + of_nat (length (filter (\<lambda>(f, r). r = SendFull) offers)),
      ds_protocol_errors := ds_protocol_errors stats + of_nat (decode_errors events decoder)\<rparr>"

lemma session_counts_Nil [simp]: "session_counts decoder [] [] stats = stats"
  by (simp add: session_counts_def)

lemma session_counts_append:
  "session_counts (snd (decoded_frames xs decoder)) ys offers' (session_counts decoder xs offers stats)
     = session_counts decoder (xs @ ys) (offers @ offers') stats"
  by (simp add: session_counts_def decode_errors_append add.assoc)

text \<open>
  The session ends with this result at this event, after these offers: the event ends the
  session, or the worker had gone when the last frame was offered.
\<close>

definition ending_event ::
  "app_text \<Rightarrow> session_event \<Rightarrow> (compressed_frame \<times> try_send) list \<Rightarrow> session_end \<Rightarrow> bool" where
  "ending_event text event offers e \<longleftrightarrow>
     SendDisconnected \<notin> snd ` set (butlast offers)
     \<and> ((ends_session event \<and> e = SessionDisconnected (tx_event text event)
            \<and> SendDisconnected \<notin> snd ` set offers)
        \<or> (offers \<noteq> [] \<and> snd (last offers) = SendDisconnected \<and> e = SinkEnded))"

lemma ending_event_results:
  "ending_event text event offers SinkEnded \<Longrightarrow> SendDisconnected \<in> snd ` set offers"
  "\<not> ending_event text event offers Stopped"
  by (auto simp: ending_event_def) (metis imageI last_in_set)

lemma ending_event_append:
  assumes "ending_event text event offers' e" and "SendDisconnected \<notin> snd ` set offers"
  shows "ending_event text event (offers @ offers') e"
  using assms by (auto simp: ending_event_def butlast_append dest: in_set_butlastD)

lemma count_stream_packet_counts:
  "count_stream_packet ep data stats = stats
     \<lparr>ds_boundaries := ds_boundaries stats + of_bool (is_boundary (Packet ep data received_at)),
      ds_headers := ds_headers stats + of_bool (is_header (Packet ep data received_at))\<rparr>"
  by (auto simp: count_stream_packet_def is_boundary_def is_header_def has_header_prefix_def split: endpoint.split)

lemma stream_event_log:
  assumes "stream_event text (logged_stream ops) event decoder stats (w, l) = (e, decoder', stats', w', l')"
  shows "\<exists>offers. l' = l @ map Offered offers
    \<and> map fst offers = fst (decoded_frames [event] decoder) \<and> decoder' = snd (decoded_frames [event] decoder)
    \<and> stats' = session_counts decoder [event] offers stats
    \<and> (case e of None \<Rightarrow> \<not> ends_session event \<and> SendDisconnected \<notin> snd ` set offers
       | Some e \<Rightarrow> ending_event text event offers e)"
proof (cases event)
  case (Packet ep data received_at)
  obtain r d1 where push: "push_packet decoder \<lparr>ep_endpoint = ep, ep_data = data\<rparr> = (r, d1)" by fastforce
  consider err where "r = Inl err" | "r = Inr None" | frame where "r = Inr (Some frame)"
    by (cases r) auto
  then show ?thesis
  proof cases
    case 1
    then show ?thesis
      using assms push
      by (cases stats) (auto simp: count_stream_packet_counts [of ep data _ received_at] stream_event_def Packet Let_def session_counts_def ends_session_def intro!: exI [of _ "[]"])
  next
    case 2
    then show ?thesis
      using assms push
      by (cases stats) (auto simp: count_stream_packet_counts [of ep data _ received_at] stream_event_def Packet Let_def session_counts_def ends_session_def intro!: exI [of _ "[]"])
  next
    case (3 frame)
    obtain answer w1 where "dr_try_send ops frame w = (answer, w1)" by fastforce
    then show ?thesis
      using assms push 3
      by (cases answer; cases stats; intro exI [of _ "[(frame, answer)]"])
        (auto simp: count_stream_packet_counts [of ep data _ received_at] stream_event_def Packet Let_def session_counts_def offer_frame_def ends_session_def
          ending_event_def split: if_splits)
  qed
qed (use assms in \<open>cases stats, auto simp: stream_event_def session_counts_def ends_session_def ending_event_def
  is_boundary_def is_header_def intro!: exI [of _ "[]"]\<close>)


lemma decoded_frames_Cons:
  "decoded_frames (event # events) decoder =
     (case decoded_frames [event] decoder of (fs, decoder) \<Rightarrow>
      case decoded_frames events decoder of (fs', decoder) \<Rightarrow> (fs @ fs', decoder))"
  using decoded_frames_append [of "[event]" events decoder] by simp

text \<open>What a list of events did: it was handled up to its end, or to the event that ended the session.\<close>

definition handled ::
  "app_text \<Rightarrow> session_event list \<Rightarrow> session_event list \<Rightarrow> (compressed_frame \<times> try_send) list
   \<Rightarrow> session_end option \<Rightarrow> bool" where
  "handled text events past offers e \<longleftrightarrow>
     (case e of
        None \<Rightarrow> past = events \<and> SendDisconnected \<notin> snd ` set offers
      | Some e \<Rightarrow>
          (\<exists>front event rest. past = front @ [event] \<and> events = past @ rest
             \<and> ending_event text event offers e))"

lemma stream_events_log:
  "stream_events text (logged_stream ops) events decoder stats (w, l) = (e, decoder', stats', w', l') \<Longrightarrow>
   \<exists>past offers. l' = l @ map Offered offers \<and> handled text events past offers e
     \<and> map fst offers = fst (decoded_frames past decoder) \<and> decoder' = snd (decoded_frames past decoder)
     \<and> stats' = session_counts decoder past offers stats"
proof (induction events arbitrary: decoder stats w l)
  case Nil
  then show ?case by (intro exI [of _ "[]"]) (auto simp: handled_def)
next
  case (Cons event events)
  obtain e1 d1 s1 w1 l1 where step: "stream_event text (logged_stream ops) event decoder stats (w, l)
      = (e1, d1, s1, w1, l1)" by (metis prod_cases5)
  obtain offers1 where first: "l1 = l @ map Offered offers1"
      "map fst offers1 = fst (decoded_frames [event] decoder)" "d1 = snd (decoded_frames [event] decoder)"
      "s1 = session_counts decoder [event] offers1 stats"
      "case e1 of None \<Rightarrow> \<not> ends_session event \<and> SendDisconnected \<notin> snd ` set offers1
       | Some e \<Rightarrow> ending_event text event offers1 e"
    using stream_event_log [OF step] by blast
  show ?case
  proof (cases e1)
    case (Some x)
    then have "e = Some x" "decoder' = d1" "stats' = s1" "l' = l1" using Cons.prems step by auto
    then show ?thesis
      using first Some by (intro exI [of _ "[event]"] exI [of _ offers1]) (auto simp: handled_def)
  next
    case None
    then have "stream_events text (logged_stream ops) events d1 s1 (w1, l1) = (e, decoder', stats', w', l')"
      using Cons.prems step by simp
    from Cons.IH [OF this] obtain past offers where rest: "l' = l1 @ map Offered offers"
      "handled text events past offers e" "map fst offers = fst (decoded_frames past d1)"
      "decoder' = snd (decoded_frames past d1)" "stats' = session_counts d1 past offers s1"
      by blast
    have "handled text (event # events) (event # past) (offers1 @ offers) e"
    proof (cases e)
      case None
      then show ?thesis using rest(2) first(5) \<open>e1 = None\<close> by (auto simp: handled_def)
    next
      case (Some x)
      then obtain front last rest' where "past = front @ [last]" "events = past @ rest'"
        "ending_event text last offers x"
        using rest(2) by (auto simp: handled_def)
      then have "event # past = (event # front) @ [last]" "event # events = (event # past) @ rest'"
        "ending_event text last (offers1 @ offers) x"
        using first(5) \<open>e1 = None\<close> by (auto intro: ending_event_append)
      with Some show ?thesis unfolding handled_def by auto
    qed
    moreover have "session_counts decoder (event # past) (offers1 @ offers) stats = stats'"
      using session_counts_append [of "[event]" decoder past offers offers1 stats] rest(5) first(3,4) by simp
    ultimately show ?thesis
      using first rest
      by (intro exI [of _ "event # past"] exI [of _ "offers1 @ offers"])
        (simp add: decoded_frames_Cons [of event past] case_prod_unfold)
  qed
qed

text \<open>How much of the polled events a result of the session leaves unhandled.\<close>

definition session_handled ::
  "app_text \<Rightarrow> session_event list \<Rightarrow> session_event list \<Rightarrow> (compressed_frame \<times> try_send) list
   \<Rightarrow> ('h app_error + session_end) option \<Rightarrow> bool" where
  "session_handled text events past offers r \<longleftrightarrow>
     handled text events past offers None
     \<or> (\<exists>e. r = Some (Inr e) \<and> handled text events past offers (Some e))"

lemma handled_append:
  assumes "handled text xs xs offers None" and "handled text ys past offers' e"
  shows "handled text (xs @ ys) (xs @ past) (offers @ offers') e"
proof (cases e)
  case None
  then show ?thesis using assms by (auto simp: handled_def)
next
  case (Some x)
  then obtain front last rest where "past = front @ [last]" "ys = past @ rest" "ending_event text last offers' x"
    using assms(2) by (auto simp: handled_def)
  moreover have "ending_event text last (offers @ offers') x"
    using assms(1) calculation(3) by (intro ending_event_append) (simp_all add: handled_def)
  ultimately show ?thesis
    unfolding handled_def Some option.case
    by (intro exI [of _ "xs @ front"] exI [of _ last] exI [of _ rest]) simp
qed

lemma run_session_log:
  "run_session text (logged_stream ops) steps decoder stats (w, l)
      = (r :: ('h app_error + session_end) option, stats', w', l') \<Longrightarrow>
   \<exists>past l1. l' = l @ l1 \<and> session_handled text (polled_of l1) past (offers_of l1) r
     \<and> map fst (offers_of l1) = fst (decoded_frames past decoder)
     \<and> stats' = session_counts decoder past (offers_of l1) stats"
proof (induction steps arbitrary: decoder stats w l)
  case 0
  then show ?case by (intro exI [of _ "[]"]) (auto simp: session_handled_def handled_def)
next
  case (Suc steps)
  have no_poll: ?case if "l' = l @ l1" "polled_of l1 = []" "offers_of l1 = []" "stats' = stats" for l1
    using that by (intro exI [of _ "[]"] exI [of _ l1]) (auto simp: session_handled_def handled_def)
  obtain b w1 where stop: "dr_stopping ops w = (b, w1)" by fastforce
  obtain status w2 where status: "dr_try_recv_status ops w1 = (status, w2)" by fastforce
  obtain polled w3 where poll: "st_poll ops w2 = (polled, w3)" by fastforce
  consider "b" | "\<not> b" "(check_sink status :: ('h app_error + unit) option) \<noteq> None"
    | err where "\<not> b" "(check_sink status :: ('h app_error + unit) option) = None" "polled = Inl err"
    | events where "\<not> b" "(check_sink status :: ('h app_error + unit) option) = None" "polled = Inr events"
    by (cases polled) auto
  then show ?case
  proof cases
    case 1
    then show ?thesis using Suc.prems stop by (intro no_poll [of "[StopRead True]"]) auto
  next
    case 2
    then show ?thesis
      using Suc.prems stop status by (intro no_poll [of "[StopRead False, StatusRead status]"]) auto
  next
    case (3 err)
    obtain b' w4 where "dr_stopping ops w3 = (b', w4)" by fastforce
    then show ?thesis
      using Suc.prems stop status poll 3
      by (intro no_poll [of "[StopRead False, StatusRead status, Polled polled, StopRead b']"]) auto
  next
    case (4 events)
    let ?l = "[StopRead False, StatusRead status, Polled polled]"
    obtain e d1 s1 w4 l4 where body: "stream_events text (logged_stream ops) events decoder stats (w3, l @ ?l)
        = (e, d1, s1, w4, l4)" by (metis prod_cases5)
    obtain past offers where this_poll: "l4 = (l @ ?l) @ map Offered offers" "handled text events past offers e"
      "map fst offers = fst (decoded_frames past decoder)" "d1 = snd (decoded_frames past decoder)"
      "s1 = session_counts decoder past offers stats"
      using stream_events_log [OF body] by blast
    let ?l1 = "?l @ map Offered offers"
    have proj: "polled_of ?l1 = events" "offers_of ?l1 = offers" using 4 by simp_all
    show ?thesis
    proof (cases e)
      case (Some x)
      then have "r = Some (Inr x)" "stats' = s1" "l' = l4"
        using Suc.prems stop status poll 4 body by auto
      then show ?thesis
        using this_poll Some proj
        by (intro exI [of _ past] exI [of _ ?l1]) (simp add: session_handled_def del: map_append)
    next
      case None
      then have "run_session text (logged_stream ops) steps d1 s1 (w4, l4) = (r, stats', w', l')"
        using Suc.prems stop status poll 4 body by simp
      from Suc.IH [OF this] obtain past' l2 where rest: "l' = l4 @ l2"
        "session_handled text (polled_of l2) past' (offers_of l2) r"
        "map fst (offers_of l2) = fst (decoded_frames past' d1)"
        "stats' = session_counts d1 past' (offers_of l2) s1" by blast
      have past: "past = events" "handled text events events offers None"
        using this_poll(2) None by (auto simp: handled_def)
      have "session_handled text (events @ polled_of l2) (events @ past') (offers @ offers_of l2) r"
        using rest(2) handled_append [OF past(2)] by (auto simp: session_handled_def)
      then show ?thesis
        using rest this_poll past proj session_counts_append [of events decoder past' "offers_of l2" offers stats]
        by (intro exI [of _ "events @ past'"] exI [of _ "?l1 @ l2"])
          (simp add: 4 decoded_frames_append case_prod_unfold)
    qed
  qed
qed

subsection \<open>Opening, retrying and stopping\<close>

text \<open>
  What a stream may do: a session is polled and its frames are offered between its tried
  and its stop; after a failed opening, nothing but waiting happens until the clock has shown
  the delay to be over; the delay doubles up to five seconds and starts again with a
  successful opening.
\<close>

datatype stream_phase =
    Idle
  | Live
  | OpenFailed
  | WaitingUntil nat
  | GaveUp

fun phase_step :: "stream_phase \<times> nat \<Rightarrow> driver_log \<Rightarrow> (stream_phase \<times> nat) option" where
  "phase_step (p, d) (StopRead b) = Some (p, d)"
| "phase_step (p, d) (StatusRead s) = Some (p, d)"
| "phase_step (Idle, d) (Opened (Inr u)) = Some (Live, 500000000)"
| "phase_step (Idle, d) (Opened (Inl e)) = Some (if should_retry_open e then OpenFailed else GaveUp, d)"
| "phase_step (OpenFailed, d) (TimeRead t) = Some (WaitingUntil (t + d), min (2 * d) 5000000000)"
| "phase_step (WaitingUntil t', d) (TimeRead t) = Some (if t' \<le> t then Idle else WaitingUntil t', d)"
| "phase_step (WaitingUntil t', d) (Slept n) = Some (WaitingUntil t', d)"
| "phase_step (Live, d) (Polled r) = Some (Live, d)"
| "phase_step (Live, d) (Offered offer) = Some (Live, d)"
| "phase_step (Live, d) SessionStopped = Some (Idle, d)"
| "phase_step s e = None"

fun phase_run :: "stream_phase \<times> nat \<Rightarrow> driver_log list \<Rightarrow> (stream_phase \<times> nat) option" where
  "phase_run s [] = Some s"
| "phase_run s (e # l) = (case phase_step s e of None \<Rightarrow> None | Some s' \<Rightarrow> phase_run s' l)"

lemma phase_run_append:
  "phase_run s (xs @ ys) = (case phase_run s xs of None \<Rightarrow> None | Some s' \<Rightarrow> phase_run s' ys)"
  by (induction xs arbitrary: s) (auto split: option.splits)

lemma phase_run_offers [simp]: "phase_run (Live, d) (map Offered offers) = Some (Live, d)"
  by (induction offers) simp_all

definition opened :: "driver_log list \<Rightarrow> nat" where
  "opened l = length (filter (\<lambda>x. x = Opened (Inr ())) l)"

lemma opened_simps [simp]:
  "opened [] = 0" "opened (l @ l') = opened l + opened l'"
  "opened (Opened (Inr ()) # l) = Suc (opened l)" "opened (Opened (Inl e) # l) = opened l"
  "opened (StopRead b # l) = opened l" "opened (StatusRead s # l) = opened l"
  "opened (SessionStopped # l) = opened l" "opened (TimeRead t # l) = opened l"
  "opened (Slept n # l) = opened l" "opened (Polled r # l) = opened l"
  "opened (map Offered offers) = 0"
  by (induction offers) (simp_all add: opened_def)

definition session_reason :: "driver_log list \<Rightarrow> ('h app_error + session_end) option \<Rightarrow> bool" where
  "session_reason l r \<longleftrightarrow>
     (case r of
        Some (Inr (SessionDisconnected _)) \<Rightarrow> True
      | Some (Inr _) \<Rightarrow> told_to_end l
      | Some (Inl e) \<Rightarrow> worker_error l e
      | None \<Rightarrow> True)"

lemma session_reason_append: "session_reason l' r \<Longrightarrow> session_reason (l @ l') r"
  by (auto simp: session_reason_def split: option.splits sum.splits session_end.splits)

lemma session_counts_reconnects [simp]:
  "ds_reconnects (session_counts decoder events offers stats) = ds_reconnects stats"
  by (simp add: session_counts_def)

lemma run_session_phases:
  "run_session text (logged_stream ops) steps decoder stats (w, l)
      = (r :: ('h app_error + session_end) option, stats', w', l') \<Longrightarrow>
   \<exists>l1. l' = l @ l1 \<and> phase_run (Live, d) l1 = Some (Live, d) \<and> session_reason l1 r
     \<and> ds_reconnects stats' = ds_reconnects stats \<and> opened l1 = 0"
proof (induction steps arbitrary: decoder stats w l)
  case 0
  then show ?case by (intro exI [of _ "[]"]) (auto simp: session_reason_def)
next
  case (Suc steps)
  obtain b w1 where stop: "dr_stopping ops w = (b, w1)" by fastforce
  obtain status w2 where status: "dr_try_recv_status ops w1 = (status, w2)" by fastforce
  obtain polled w3 where poll: "st_poll ops w2 = (polled, w3)" by fastforce
  consider "b" | result where "\<not> b" "check_sink status = Some (result :: 'h app_error + unit)"
    | err where "\<not> b" "(check_sink status :: ('h app_error + unit) option) = None" "polled = Inl err"
    | events where "\<not> b" "(check_sink status :: ('h app_error + unit) option) = None" "polled = Inr events"
    by (cases polled; cases "check_sink status :: ('h app_error + unit) option") auto
  then show ?case
  proof cases
    case 1
    then show ?thesis
      using Suc.prems stop
      by (intro exI [of _ "[StopRead True]"]) (auto simp: session_reason_def told_to_end_def)
  next
    case (2 result)
    have "StatusRead status \<in> set [StopRead False, StatusRead status]" by simp
    note reason = check_sink_reason(1) [OF _ this] check_sink_reason(2) [OF _ this]
    show ?thesis
      using Suc.prems stop status 2 reason
      by (intro exI [of _ "[StopRead False, StatusRead status]"])
        (cases result, auto simp: session_reason_def)
  next
    case (3 err)
    obtain b' w4 where "dr_stopping ops w3 = (b', w4)" by fastforce
    then show ?thesis
      using Suc.prems stop status poll 3
      by (intro exI [of _ "[StopRead False, StatusRead status, Polled polled, StopRead b']"])
        (auto simp: session_reason_def told_to_end_def)
  next
    case (4 events)
    let ?l = "[StopRead False, StatusRead status, Polled polled]"
    obtain e d1 s1 w4 l4 where body: "stream_events text (logged_stream ops) events decoder stats (w3, l @ ?l)
        = (e, d1, s1, w4, l4)" by (metis prod_cases5)
    obtain past offers where this_poll: "l4 = (l @ ?l) @ map Offered offers" "handled text events past offers e"
      "s1 = session_counts decoder past offers stats"
      using stream_events_log [OF body] by blast
    let ?l1 = "?l @ map Offered offers"
    show ?thesis
    proof (cases e)
      case (Some x)
      then have r: "r = Some (Inr x)" "stats' = s1" "l' = l4"
        using Suc.prems stop status poll 4 body by auto
      have "session_reason ?l1 r"
        using this_poll(2) Some r(1) ending_event_results
        by (cases x) (auto simp: handled_def session_reason_def told_to_end_def 4)
      then show ?thesis
        using this_poll r by (intro exI [of _ ?l1]) (simp add: 4)
    next
      case None
      then have "run_session text (logged_stream ops) steps d1 s1 (w4, l4) = (r, stats', w', l')"
        using Suc.prems stop status poll 4 body by simp
      from Suc.IH [OF this] obtain l2 where rest: "l' = l4 @ l2" "phase_run (Live, d) l2 = Some (Live, d)"
        "session_reason l2 r" "ds_reconnects stats' = ds_reconnects s1" "opened l2 = 0" by blast
      then show ?thesis
        using this_poll session_reason_append [OF rest(3), of ?l1]
        by (intro exI [of _ "?l1 @ l2"]) (simp add: 4 phase_run_append)
    qed
  qed
qed

lemma wait_until_phases:
  "wait_until (logged_stream ops) steps deadline (w, l) = (r :: ('h app_error + bool) option, w', l') \<Longrightarrow>
   \<exists>l1 p. l' = l @ l1 \<and> phase_run (WaitingUntil deadline, d) l1 = Some (p, d)
     \<and> (p = Idle \<or> p = WaitingUntil deadline) \<and> opened l1 = 0
     \<and> (case r of None \<Rightarrow> True | Some (Inr False) \<Rightarrow> p = Idle
        | Some (Inr True) \<Rightarrow> told_to_end l1 | Some (Inl e) \<Rightarrow> worker_error l1 e)"
proof (induction steps arbitrary: w l)
  case 0
  then show ?case by (intro exI [of _ "[]"]) auto
next
  case (Suc steps)
  obtain t w1 where now: "dr_now ops w = (t, w1)" by fastforce
  obtain b w2 where stop: "dr_stopping ops w1 = (b, w2)" by fastforce
  obtain status w3 where status: "dr_try_recv_status ops w2 = (status, w3)" by fastforce
  let ?read = "[TimeRead t, StopRead False, StatusRead status]"
  consider "\<not> t < deadline" | "t < deadline" "b"
    | result where "t < deadline" "\<not> b" "check_sink status = Some (result :: 'h app_error + unit)"
    | "t < deadline" "\<not> b" "(check_sink status :: ('h app_error + unit) option) = None"
    by (cases "check_sink status :: ('h app_error + unit) option") auto
  then show ?case
  proof cases
    case 1
    then show ?thesis using Suc.prems now by (intro exI [of _ "[TimeRead t]"]) auto
  next
    case 2
    then show ?thesis
      using Suc.prems now stop
      by (intro exI [of _ "[TimeRead t, StopRead True]"]) (auto simp: told_to_end_def)
  next
    case (3 result)
    have "StatusRead status \<in> set ?read" by simp
    note reason = check_sink_reason(1) [OF _ this] check_sink_reason(2) [OF _ this]
    show ?thesis
      using Suc.prems now stop status 3 reason
      by (intro exI [of _ ?read]) (cases result, auto)
  next
    case 4
    let ?l1 = "?read @ [Slept 50000000]"
    have "wait_until (logged_stream ops) steps deadline (dr_sleep ops 50000000 w3, l @ ?l1) = (r, w', l')"
      using Suc.prems now stop status 4 by simp
    from Suc.IH [OF this] obtain l2 p where rest: "l' = (l @ ?l1) @ l2"
      "phase_run (WaitingUntil deadline, d) l2 = Some (p, d)" "p = Idle \<or> p = WaitingUntil deadline"
      "opened l2 = 0"
      "case r of None \<Rightarrow> True | Some (Inr False) \<Rightarrow> p = Idle
        | Some (Inr True) \<Rightarrow> told_to_end l2 | Some (Inl e) \<Rightarrow> worker_error l2 e"
      by blast
    have "case r of None \<Rightarrow> True | Some (Inr False) \<Rightarrow> p = Idle
        | Some (Inr True) \<Rightarrow> told_to_end (?l1 @ l2) | Some (Inl e) \<Rightarrow> worker_error (?l1 @ l2) e"
      using rest(5) by (auto simp del: append_Cons split: option.splits sum.splits bool.splits)
    then show ?thesis
      using rest(1-4) 4 by (intro exI [of _ "?l1 @ l2"] exI [of _ p]) (simp del: append_Cons add: phase_run_append; simp)
  qed
qed


lemma wait_interruptibly_phases:
  assumes "wait_interruptibly (logged_stream ops) steps delay (w, l) = (r :: ('h app_error + bool) option, w', l')"
  shows "\<exists>l1 p. l' = l @ l1 \<and> phase_run (OpenFailed, delay) l1 = Some (p, next_retry_delay delay)
     \<and> p \<noteq> Live \<and> opened l1 = 0
     \<and> (case r of None \<Rightarrow> True | Some (Inr False) \<Rightarrow> p = Idle
        | Some (Inr True) \<Rightarrow> told_to_end l1 | Some (Inl e) \<Rightarrow> worker_error l1 e)"
proof -
  obtain t w1 where now: "dr_now ops w = (t, w1)" by fastforce
  with assms have "wait_until (logged_stream ops) steps (t + delay) (w1, l @ [TimeRead t]) = (r, w', l')"
    by (simp add: wait_interruptibly_def)
  from wait_until_phases [OF this, of "next_retry_delay delay"] obtain l1 p where rest:
    "l' = (l @ [TimeRead t]) @ l1"
    "phase_run (WaitingUntil (t + delay), next_retry_delay delay) l1 = Some (p, next_retry_delay delay)"
    "p = Idle \<or> p = WaitingUntil (t + delay)" "opened l1 = 0"
    "case r of None \<Rightarrow> True | Some (Inr False) \<Rightarrow> p = Idle
        | Some (Inr True) \<Rightarrow> told_to_end l1 | Some (Inl e) \<Rightarrow> worker_error l1 e"
    by blast
  have "case r of None \<Rightarrow> True | Some (Inr False) \<Rightarrow> p = Idle
        | Some (Inr True) \<Rightarrow> told_to_end ([TimeRead t] @ l1) | Some (Inl e) \<Rightarrow> worker_error ([TimeRead t] @ l1) e"
    using rest(5) by (auto simp del: append_Cons split: option.splits sum.splits bool.splits)
  then show ?thesis
    using rest(1-4)
    by (intro exI [of _ "[TimeRead t] @ l1"] exI [of _ p])
      (auto simp: next_retry_delay_def mult.commute)
qed

text \<open>Why the loop of a stream ends with an error.\<close>

definition camera_error :: "bool \<Rightarrow> driver_log list \<Rightarrow> 'h app_error \<Rightarrow> bool" where
  "camera_error no_reconnect l e \<longleftrightarrow>
     (\<exists>err. e = UsbError err \<and> Opened (Inl err) \<in> set l \<and> (should_retry_open err \<longrightarrow> no_reconnect))
     \<or> (no_reconnect \<and> SessionStopped \<in> set l \<and> (\<exists>reason. e = SinkError (''camera disconnected: '' @ reason)))"

definition exit_reason :: "bool \<Rightarrow> driver_log list \<Rightarrow> 'h stream_exit \<Rightarrow> bool" where
  "exit_reason no_reconnect l exit \<longleftrightarrow>
     (case exit of
        BreakWith (Inr _) \<Rightarrow> told_to_end l
      | BreakWith (Inl e) \<Rightarrow> worker_error l e \<or> camera_error no_reconnect l e
      | ReturnError e \<Rightarrow> worker_error l e
      | StillRunning \<Rightarrow> True)"

lemma exit_reason_append: "exit_reason no_reconnect l' exit \<Longrightarrow> exit_reason no_reconnect (l @ l') exit"
  by (auto simp: exit_reason_def camera_error_def split: stream_exit.splits sum.splits)

lemma exit_reason_nonempty: "exit_reason no_reconnect l exit \<Longrightarrow> exit \<noteq> StillRunning \<Longrightarrow> l \<noteq> []"
  by (auto simp: exit_reason_def camera_error_def told_to_end_def worker_error_def
      split: stream_exit.splits sum.splits)

lemma stream_loop_phases:
  "stream_loop text (logged_stream ops) plan strategy no_reconnect inner steps delay stats (w, l)
      = (exit :: 'h stream_exit, stats', w', l') \<Longrightarrow>
   \<exists>l1 p d. l' = l @ l1 \<and> phase_run (Idle, delay) l1 = Some (p, d)
     \<and> (exit \<noteq> StillRunning \<longrightarrow> p \<noteq> Live)
     \<and> ds_reconnects stats' = ds_reconnects stats + of_nat (opened l1) \<and> exit_reason no_reconnect l1 exit"
proof (induction steps arbitrary: delay stats w l)
  case 0
  then show ?case by (intro exI [of _ "[]"]) (auto simp: exit_reason_def)
next
  case (Suc steps)
  have finish: ?case
    if "l' = l @ l1" "phase_run (Idle, delay) l1 = Some (p, d)" "exit \<noteq> StillRunning \<longrightarrow> p \<noteq> Live"
      "ds_reconnects stats' = ds_reconnects stats + of_nat (opened l1)" "exit_reason no_reconnect l1 exit"
    for l1 p d using that by blast
  obtain b w1 where stop: "dr_stopping ops w = (b, w1)" by fastforce
  obtain status w2 where status: "dr_try_recv_status ops w1 = (status, w2)" by fastforce
  obtain answer w3 where tried: "st_open ops plan strategy w2 = (answer, w3)" by fastforce
  let ?read = "[StopRead False, StatusRead status]"
  consider "b" | result where "\<not> b" "check_sink status = Some (result :: 'h app_error + unit)"
    | e where "\<not> b" "(check_sink status :: ('h app_error + unit) option) = None" "answer = Inl e"
        "\<not> (should_retry_open e \<and> \<not> no_reconnect)"
    | e where "\<not> b" "(check_sink status :: ('h app_error + unit) option) = None" "answer = Inl e"
        "should_retry_open e" "\<not> no_reconnect"
    | "\<not> b" "(check_sink status :: ('h app_error + unit) option) = None" "answer = Inr ()"
    by (cases answer; cases "check_sink status :: ('h app_error + unit) option") auto
  then show ?case
  proof cases
    case 1
    then show ?thesis
      using Suc.prems stop by (intro finish [of "[StopRead True]" Idle delay]) (auto simp: exit_reason_def told_to_end_def)
  next
    case (2 result)
    have "StatusRead status \<in> set ?read" by simp
    note reason = check_sink_reason(1) [OF _ this] check_sink_reason(2) [OF _ this]
    show ?thesis
      using Suc.prems stop status 2 reason
      by (cases result; intro finish [of ?read Idle delay]) (auto simp: exit_reason_def)
  next
    case (3 e)
    then show ?thesis
      using Suc.prems stop status tried
      by (intro finish [of "?read @ [Opened (Inl e)]" "if should_retry_open e then OpenFailed else GaveUp" delay])
        (auto simp: exit_reason_def camera_error_def split: if_splits)
  next
    case (4 e)
    let ?l = "?read @ [Opened (Inl e)]"
    obtain r w4 l4 where wait: "wait_interruptibly (logged_stream ops) inner delay (w3, l @ ?l)
        = (r :: ('h app_error + bool) option, w4, l4)" by (metis prod_cases3)
    obtain l1 p where l1: "l4 = (l @ ?l) @ l1"
      "phase_run (OpenFailed, delay) l1 = Some (p, next_retry_delay delay)" "p \<noteq> Live" "opened l1 = 0"
      "case r of None \<Rightarrow> True | Some (Inr False) \<Rightarrow> p = Idle
        | Some (Inr True) \<Rightarrow> told_to_end l1 | Some (Inl e) \<Rightarrow> worker_error l1 e"
      using wait_interruptibly_phases [OF wait] by blast
    have run: "phase_run (Idle, delay) (?l @ l1) = Some (p, next_retry_delay delay)"
      using l1(2) 4 by simp
    show ?thesis
    proof (cases "r = Some (Inr False)")
      case False
      have "(exit, stats', w', l') = (case r of None \<Rightarrow> (StillRunning, stats, w4, l4)
          | Some (Inl e) \<Rightarrow> (ReturnError e, stats, w4, l4) | Some (Inr _) \<Rightarrow> (BreakWith (Inr ()), stats, w4, l4))"
        using Suc.prems stop status tried 4 wait False by (auto split: option.splits sum.splits bool.splits)
      then have "exit_reason no_reconnect l1 exit" "l' = l4" "stats' = stats"
        using l1(5) False by (auto simp: exit_reason_def split: option.splits sum.splits bool.splits)
      then have "exit_reason no_reconnect (?l @ l1) exit" "l' = l @ (?l @ l1)" "stats' = stats"
        using exit_reason_append l1(1) by fastforce+
      then show ?thesis
        using run l1(3,4) by (intro finish [of "?l @ l1" p "next_retry_delay delay"]) simp_all
    next
      case True
      then have "stream_loop text (logged_stream ops) plan strategy no_reconnect inner steps
          (next_retry_delay delay) stats (w4, l4) = (exit, stats', w', l')"
        using Suc.prems stop status tried 4 wait by simp
      from Suc.IH [OF this] obtain l2 p2 d2 where l2: "l' = l4 @ l2"
        "phase_run (Idle, next_retry_delay delay) l2 = Some (p2, d2)"
        "exit \<noteq> StillRunning \<longrightarrow> p2 \<noteq> Live"
        "ds_reconnects stats' = ds_reconnects stats + of_nat (opened l2)" "exit_reason no_reconnect l2 exit"
        by blast
      have "phase_run (Idle, delay) ((?l @ l1) @ l2) = Some (p2, d2)"
        using run l2(2) l1(5) True by (simp only: phase_run_append) simp
      then show ?thesis
        using l1(1,4) l2 exit_reason_append [OF l2(5), of "?l @ l1"]
        by (intro finish [of "(?l @ l1) @ l2" p2 d2]) simp_all
    qed
  next
    case 5
    let ?l = "?read @ [Opened (Inr ())]"
    let ?stats = "stats\<lparr>ds_reconnects := ds_reconnects stats + 1\<rparr>"
    obtain r s4 w4 l4 where session: "run_session text (logged_stream ops) inner decoder_new ?stats (w3, l @ ?l)
        = (r :: ('h app_error + session_end) option, s4, w4, l4)" by (metis prod_cases4)
    obtain l1 where l1: "l4 = (l @ ?l) @ l1" "phase_run (Live, RETRY_DELAY) l1 = Some (Live, RETRY_DELAY)"
      "session_reason l1 r" "ds_reconnects s4 = ds_reconnects stats + 1" "opened l1 = 0"
      using run_session_phases [OF session, of RETRY_DELAY] by auto
    have run: "phase_run (Idle, delay) (?l @ l1) = Some (Live, RETRY_DELAY)"
      "phase_run (Idle, delay) ((?l @ l1) @ [SessionStopped]) = Some (Idle, RETRY_DELAY)"
      using l1(2) by (simp_all add: RETRY_DELAY_def phase_run_append)
    show ?thesis
    proof (cases "r = None \<or> no_reconnect \<or> (\<nexists>reason. r = Some (Inr (SessionDisconnected reason)))")
      case True
      show ?thesis
      proof (cases r)
        case None
        then have "exit = StillRunning" "l' = l @ (?l @ l1)" "stats' = s4"
          using Suc.prems stop status tried 5 session l1(1) by auto
        then show ?thesis
          using run(1) l1(4,5)
          by (intro finish [of "?l @ l1" Live RETRY_DELAY]) (simp_all add: exit_reason_def)
      next
        case (Some result)
        then have "l' = l4 @ [SessionStopped]" "stats' = s4" "exit_reason no_reconnect (l1 @ [SessionStopped]) exit"
          using Suc.prems stop status tried 5 session l1(3) True
          by (auto simp: exit_reason_def session_reason_def camera_error_def split: sum.splits session_end.splits)
        then have "l' = l @ ((?l @ l1) @ [SessionStopped])" "stats' = s4"
          "exit_reason no_reconnect ((?l @ l1) @ [SessionStopped]) exit"
          using exit_reason_append [of no_reconnect "l1 @ [SessionStopped]" exit ?l] l1(1) by simp_all
        then show ?thesis
          using run(2) l1(4,5)
          by (intro finish [of "(?l @ l1) @ [SessionStopped]" Idle RETRY_DELAY]) simp_all
      qed
    next
      case False
      then have "stream_loop text (logged_stream ops) plan strategy no_reconnect inner steps
          RETRY_DELAY s4 (st_stop ops w4, l4 @ [SessionStopped]) = (exit, stats', w', l')"
        using Suc.prems stop status tried 5 session by auto
      from Suc.IH [OF this] obtain l2 p2 d2 where l2: "l' = (l4 @ [SessionStopped]) @ l2"
        "phase_run (Idle, RETRY_DELAY) l2 = Some (p2, d2)" "exit \<noteq> StillRunning \<longrightarrow> p2 \<noteq> Live"
        "ds_reconnects stats' = ds_reconnects s4 + of_nat (opened l2)" "exit_reason no_reconnect l2 exit"
        by blast
      let ?l1 = "(?l @ l1) @ [SessionStopped]"
      have "phase_run (Idle, delay) (?l1 @ l2) = Some (p2, d2)"
        using run(2) l2(2) by (simp only: phase_run_append) simp
      then show ?thesis
        using l1(1,4,5) l2 exit_reason_append [OF l2(5), of ?l1]
        by (intro finish [of "?l1 @ l2" p2 d2]) simp_all
    qed
  qed
qed

subsection \<open>The command\<close>

lemma stream_events_goes_on:
  assumes "\<And>f w. fst (dr_try_send ops f w) \<noteq> SendDisconnected"
    and "\<forall>event \<in> set events. \<not> ends_session event"
  shows "fst (stream_events text ops events decoder stats w) = None"
  using assms(2)
proof (induction events arbitrary: decoder stats w)
  case (Cons event events)
  have "fst (stream_event text ops event decoder stats w) = None"
    using assms(1) Cons.prems
    by (auto simp: stream_event_def offer_frame_def ends_session_def Let_def
        split: session_event.split sum.split option.split prod.split try_send.split; metis fst_conv)
  then show ?case using Cons by (auto split: prod.split)
qed simp

text \<open>
  A desk to try a stream on: the first opening finds no camera, the first poll brings the
  sample events, the worker takes every frame, and the stop flag is set after two polls.
\<close>

record desk =
  dk_time :: nat
  dk_opens :: nat
  dk_polls :: nat

definition desk_initial :: desk where
  "desk_initial = \<lparr>dk_time = 0, dk_opens = 0, dk_polls = 0\<rparr>"

definition desk_ops :: "session_event list \<Rightarrow> desk stream_ops" where
  "desk_ops events =
     \<lparr>dr_stopping = (\<lambda>d. (2 \<le> dk_polls d, d)),
      dr_now = (\<lambda>d. (dk_time d, d)),
      dr_sleep = (\<lambda>n d. d\<lparr>dk_time := dk_time d + n\<rparr>),
      dr_signals = (\<lambda>d. (Inr (), d)),
      dr_spawn = (\<lambda>_ _ d. d),
      dr_recv_status = (\<lambda>d. (Some SinkReady, d)),
      dr_try_recv_status = (\<lambda>d. (Empty, d)),
      dr_try_send = (\<lambda>_ d. (SendOk, d)),
      dr_send = (\<lambda>_ d. (True, d)),
      dr_join = (\<lambda>d. (True, d)),
      st_open = (\<lambda>_ _ d. (if dk_opens d = 0 then Inl NoCamera else Inr (), d\<lparr>dk_opens := dk_opens d + 1\<rparr>)),
      st_poll = (\<lambda>d. (Inr (if dk_polls d = 0 then events else []), d\<lparr>dk_polls := dk_polls d + 1\<rparr>)),
      st_stop = (\<lambda>d. d)\<rparr>"

lemma desk_ops_simps [simp]:
  "dr_stopping (desk_ops events) d = (2 \<le> dk_polls d, d)"
  "dr_now (desk_ops events) d = (dk_time d, d)"
  "dr_sleep (desk_ops events) n d = d\<lparr>dk_time := dk_time d + n\<rparr>"
  "dr_signals (desk_ops events) d = (Inr (), d)"
  "dr_spawn (desk_ops events) target format d = d"
  "dr_recv_status (desk_ops events) d = (Some SinkReady, d)"
  "dr_try_recv_status (desk_ops events) d = (Empty, d)"
  "dr_try_send (desk_ops events) frame d = (SendOk, d)"
  "dr_join (desk_ops events) d = (True, d)"
  "st_open (desk_ops events) plan strategy d
     = (if dk_opens d = 0 then Inl NoCamera else Inr (), d\<lparr>dk_opens := dk_opens d + 1\<rparr>)"
  "st_poll (desk_ops events) d = (Inr (if dk_polls d = 0 then events else []), d\<lparr>dk_polls := dk_polls d + 1\<rparr>)"
  "st_stop (desk_ops events) d = d"
  by (simp_all add: desk_ops_def)

definition plain_text :: app_text where
  "plain_text = \<lparr>tx_event = (\<lambda>_. ''event''), tx_sync = (\<lambda>_. ''sync''), tx_usb = (\<lambda>_. ''usb'')\<rparr>"

text \<open>
  Property C13. Whatever the camera, the worker and the clock do, the statistics of a stream
  session are exact: some beginning of the polled events was handled (all of them, unless
  an event ended the session or the worker was gone), the frames offered to the worker are
  exactly those the decoder completes from these events, in order, each offered once, and
  every counter is the number of its occurrences in them.
\<close>

theorem stream_session_statistics:
  assumes "run_session text (logged_stream ops) steps decoder_new stats (w, [])
      = (r :: ('h app_error + session_end) option, stats', w', l)"
  shows "\<exists>past. session_handled text (polled_of l) past (offers_of l) r
    \<and> map fst (offers_of l) = fst (decoded_frames past decoder_new)
    \<and> stats' = session_counts decoder_new past (offers_of l) stats"
  using run_session_log [OF assms] by auto

theorem stream_session_statistics_witness:
  "\<exists>stats w l.
     run_session plain_text (logged_stream (desk_ops sample_usb)) 1 decoder_new driver_stats_default (desk_initial, [])
       = (None :: (unit app_error + session_end) option, stats, w, l)
     \<and> map fst (offers_of l) = map tv_frame sample_decoded
     \<and> ds_boundaries stats = 4 \<and> ds_headers stats = 5"
proof -
  let ?desk = "desk_initial\<lparr>dk_polls := 1\<rparr>" and ?ops = "logged_stream (desk_ops sample_usb)"
  let ?l = "[StopRead False, StatusRead Empty, Polled (Inr sample_usb)]"
  obtain e decoder stats w l where events: "stream_events plain_text ?ops sample_usb decoder_new
      driver_stats_default (?desk, ?l) = (e, decoder, stats, w, l)" by (metis prod_cases5)
  have "fst (stream_events plain_text ?ops sample_usb decoder_new driver_stats_default (?desk, ?l)) = None"
    by (rule stream_events_goes_on) (auto simp: sample_usb_def ends_session_def)
  then have "e = None" by (simp only: events fst_conv)
  moreover have "run_session plain_text ?ops 1 decoder_new driver_stats_default (desk_initial, [])
      = (case stream_events plain_text ?ops sample_usb decoder_new driver_stats_default (?desk, ?l) of
           (Some e, decoder, stats, w) \<Rightarrow> (Some (Inr e), stats, w)
         | (None, decoder, stats, w) \<Rightarrow> (None, stats, w))"
    unfolding One_nat_def run_session.simps by (simp add: desk_initial_def check_sink_def)
  ultimately have run: "run_session plain_text ?ops 1 decoder_new driver_stats_default (desk_initial, [])
      = (None :: (unit app_error + session_end) option, stats, w, l)"
    by (simp only: events option.case prod.case)
  have polled: "polled_of l = sample_usb"
    using stream_events_log [OF events] by auto
  from stream_session_statistics [OF run] obtain past where
    "session_handled plain_text (polled_of l) past (offers_of l) (None :: (unit app_error + session_end) option)"
    and frames: "map fst (offers_of l) = fst (decoded_frames past decoder_new)"
    and stats: "stats = session_counts decoder_new past (offers_of l) driver_stats_default" by blast
  then have past: "past = sample_usb" by (auto simp: session_handled_def handled_def polled)
  have "length (filter is_boundary sample_usb) = 4" "length (filter is_header sample_usb) = 5"
    by (simp_all add: sample_usb_def sample_packets_def Let_def is_boundary_def is_header_def has_header_prefix_def)
  then show ?thesis
    using run frames stats
    by (intro exI [of _ stats] exI [of _ w] exI [of _ l])
      (simp add: past sample_frames_decoded session_counts_def driver_stats_default_def)
qed

lemma run_stream_cases:
  assumes "run_stream text hex_decode embedded read_file_text (logged_stream ops) args inner steps (w, [])
      = (result :: ('h app_error + unit) option, stats, w', l)"
  obtains (refused) e where "result = Some (Inl e)" "l = []" "stats = driver_stats_default"
      "stream_setup hex_decode embedded read_file_text args = Inl e
        \<or> start_error ops (choose_target (sa_output args)) (sa_format args) w e"
  | (streamed) plan w1 exit w2 joined where
      "stream_loop text (logged_stream ops) plan
         (choose_strategy (sa_semantic_init args) (sa_playback_init args)) (sa_no_reconnect args) inner steps
         RETRY_DELAY driver_stats_default (w1, []) = (exit :: 'h stream_exit, stats, w2, l)"
      "result = (case exit of StillRunning \<Rightarrow> None | ReturnError e \<Rightarrow> Some (Inl e)
         | BreakWith r \<Rightarrow> Some (if joined then r else Inl SinkPanicked))"
      "\<forall>r. exit = BreakWith r \<longrightarrow> dr_join ops w2 = (joined, w')"
proof (cases "stream_setup hex_decode embedded read_file_text args")
  case (Inl e)
  then show ?thesis using assms by (intro refused) (auto simp: run_stream_def)
next
  case (Inr plan)
  obtain signals w1 where signals: "dr_signals ops w = (signals, w1)" by fastforce
  show ?thesis
  proof (cases signals)
    case (Inl e)
    then show ?thesis
      using assms Inr signals start_error_cases(1) [of ops w e w1]
      by (intro refused [of "SignalError e"]) (auto simp: run_stream_def)
  next
    case (Inr u)
    note ready = \<open>stream_setup hex_decode embedded read_file_text args = Inr plan\<close> signals Inr
    let ?spawned = "dr_spawn ops (choose_target (sa_output args)) (sa_format args) w1"
    obtain status w2 where status: "dr_recv_status ops ?spawned = (status, w2)" by fastforce
    show ?thesis
    proof (cases "wait_for_sink status :: 'h app_error + unit")
      case (Inl e)
      then show ?thesis
        using assms ready status start_error_cases(2) [OF signals [unfolded Inr] status Inl]
        by (intro refused [of e]) (auto simp: run_stream_def)
    next
      case (Inr u)
      obtain exit stats3 w3 l3 where run: "stream_loop text (logged_stream ops) plan
         (choose_strategy (sa_semantic_init args) (sa_playback_init args)) (sa_no_reconnect args) inner steps
         RETRY_DELAY driver_stats_default (w2, []) = (exit :: 'h stream_exit, stats3, w3, l3)"
        by (metis prod_cases4)
      obtain joined w4 where "dr_join ops w3 = (joined, w4)" by fastforce
      then show ?thesis
        using assms ready status Inr run
        by (intro streamed [of plan w2 exit w3 joined]) (cases exit; simp add: run_stream_def)+
    qed
  qed
qed

text \<open>The desk through one failed opening, a wait of half a second, and a session that is stopped.\<close>

lemma desk_wait:
  "dk_polls d < 2 \<Longrightarrow> deadline = dk_time d + 50000000 * k \<Longrightarrow> k < steps \<Longrightarrow>
     \<exists>l'. wait_until (logged_stream (desk_ops events)) steps deadline (d, l)
       = (Some (Inr False) :: ('h app_error + bool) option, d\<lparr>dk_time := deadline\<rparr>, l')"
proof (induction k arbitrary: d l steps)
  case 0
  then show ?case by (cases steps) auto
next
  case (Suc k)
  then obtain n where n: "steps = Suc n" "k < n" by (cases steps) auto
  let ?d = "d\<lparr>dk_time := dk_time d + 50000000\<rparr>"
  from Suc.IH [of ?d n "l @ [TimeRead (dk_time d), StopRead False, StatusRead Empty, Slept 50000000]"]
  show ?case using Suc.prems n by (simp add: check_sink_def)
qed

lemma desk_session:
  assumes "dk_polls d = 0" and "3 \<le> steps"
  shows "\<exists>l'. run_session text (logged_stream (desk_ops [])) steps decoder stats (d, l)
    = (Some (Inr Stopped) :: ('h app_error + session_end) option, stats, d\<lparr>dk_polls := 2\<rparr>, l')"
proof -
  obtain n where n: "steps = Suc (Suc (Suc n))"
    using assms(2) by (metis Suc_le_D numeral_3_eq_3 Suc_le_mono)
  show ?thesis
    unfolding n run_session.simps using assms(1) by (simp add: check_sink_def)
qed

definition desk_args :: stream_args where
  "desk_args =
     \<lparr>sa_output = ''-'', sa_format = Mjpeg, sa_init_plan = None, sa_quality = None, sa_semantic_init = False,
      sa_playback_init = False, sa_no_reconnect = False\<rparr>"

lemma desk_stream:
  "\<exists>stats l. run_stream plain_text (\<lambda>_. Inl ''none'') [] (\<lambda>_. Inl ''none'') (logged_stream (desk_ops []))
      desk_args 20 3 (desk_initial, [])
    = (Some (Inr ()) :: (string app_error + unit) option, stats,
       \<lparr>dk_time = 500000000, dk_opens = 2, dk_polls = 2\<rparr>, l)"
proof -
  let ?ops = "logged_stream (desk_ops [])" and ?l = "[StopRead False, StatusRead Empty, Opened (Inl NoCamera), TimeRead 0]"
  let ?d = "desk_initial\<lparr>dk_opens := 1, dk_time := 500000000\<rparr>"
  obtain l1 where wait: "wait_interruptibly ?ops 20 500000000 (desk_initial\<lparr>dk_opens := 1\<rparr>, butlast ?l)
      = (Some (Inr False) :: (string app_error + bool) option, ?d, l1)"
    using desk_wait [of "desk_initial\<lparr>dk_opens := 1\<rparr>" 500000000 10 20 "[]" ?l]
    by (auto simp: wait_interruptibly_def desk_initial_def)
  let ?stats = "driver_stats_default\<lparr>ds_reconnects := 1\<rparr>"
  obtain l2 where session: "run_session plain_text ?ops 20 decoder_new ?stats
      (?d\<lparr>dk_opens := Suc (Suc 0)\<rparr>, l1 @ [StopRead False, StatusRead Empty, Opened (Inr ())])
      = (Some (Inr Stopped) :: (string app_error + session_end) option, ?stats, ?d\<lparr>dk_opens := Suc (Suc 0), dk_polls := 2\<rparr>, l2)"
    using desk_session [of "?d\<lparr>dk_opens := Suc (Suc 0)\<rparr>" 20 plain_text decoder_new ?stats] by (auto simp: desk_initial_def)
  have three: "3 = Suc (Suc (Suc 0))" by simp
  show ?thesis
    unfolding run_stream_def three stream_loop.simps using wait session
    by (simp add: stream_setup_def load_plan_def record_mode_init_plan_def parse_init_plan_def str_lines_def
        desk_args_def apply_quality_def choose_strategy_def check_sink_def wait_for_sink_def
        should_retry_open_def RETRY_DELAY_def desk_initial_def driver_stats_default_def)
qed

text \<open>
  Property C11. The stream command keeps its camera in order, whatever the surroundings
  answer: it only polls and offers frames between a successful opening and the stop of that
  session, never opens a second session before it has stopped the first, tries again only
  after an error that can go away and only when the clock has shown that the delay (half a
  second, doubled after every failure up to five, and reset by a success) is over, and never
  returns with a session that was not stopped; the reconnection counter is the number of
  successful openings.
\<close>

theorem stream_camera_discipline:
  assumes "run_stream text hex_decode embedded read_file_text (logged_stream ops) args inner steps (w, [])
      = (result :: ('h app_error + unit) option, stats, w', l)"
  shows "\<exists>p d. phase_run (Idle, 500000000) l = Some (p, d) \<and> (result \<noteq> None \<longrightarrow> p \<noteq> Live)
    \<and> ds_reconnects stats = of_nat (opened l)"
  using assms
proof (cases rule: run_stream_cases)
  case (refused e)
  then show ?thesis by (simp add: driver_stats_default_def)
next
  case (streamed plan w1 exit w2 joined)
  from stream_loop_phases [OF streamed(1)] obtain p d where
    "phase_run (Idle, 500000000) l = Some (p, d)" "exit \<noteq> StillRunning \<longrightarrow> p \<noteq> Live"
    "ds_reconnects stats = of_nat (opened l)"
    by (auto simp: RETRY_DELAY_def driver_stats_default_def)
  then show ?thesis using streamed(2) by (cases exit) auto
qed

theorem stream_camera_discipline_witness:
  "\<exists>stats d l p delay. run_stream plain_text (\<lambda>_. Inl ''none'') [] (\<lambda>_. Inl ''none'') (logged_stream (desk_ops []))
      desk_args 20 3 (desk_initial, []) = (Some (Inr ()) :: (string app_error + unit) option, stats, d, l)
    \<and> dk_opens d = 2 \<and> dk_time d = 500000000
    \<and> phase_run (Idle, 500000000) l = Some (p, delay) \<and> p \<noteq> Live \<and> ds_reconnects stats = of_nat (opened l)"
proof -
  obtain stats l where run: "run_stream plain_text (\<lambda>_. Inl ''none'') [] (\<lambda>_. Inl ''none'') (logged_stream (desk_ops []))
      desk_args 20 3 (desk_initial, []) = (Some (Inr ()) :: (string app_error + unit) option, stats,
        \<lparr>dk_time = 500000000, dk_opens = 2, dk_polls = 2\<rparr>, l)"
    using desk_stream by auto
  from stream_camera_discipline [OF run] show ?thesis using run by auto
qed

text \<open>
  Property C24. The stream command never ends without a reason, and says the right one: with
  success only when the stop flag was set, or the worker closed or was gone, and the worker was
  then joined without a panic; with an error before it has asked anything only when the
  arguments or the plan are refused with this error, or the signal handlers or the worker
  fail with it at the start; later with \<open>SinkPanicked\<close> only when joining the worker
  showed a panic; with any other error only when the worker's status reported exactly this
  error, or when the camera could not be opened with an error that does not go away, or was
  lost and reconnecting is off, and then the worker was joined without a panic.
\<close>

theorem stream_ends_for_reason:
  assumes "run_stream text hex_decode embedded read_file_text (logged_stream ops) args inner steps (w, [])
      = (Some result :: ('h app_error + unit) option, stats, w', l)"
  shows "case result of
      Inr _ \<Rightarrow> told_to_end l \<and> (\<exists>w1. dr_join ops w1 = (True, w'))
    | Inl e \<Rightarrow>
        if l = []
        then stream_setup hex_decode embedded read_file_text args = Inl e
          \<or> start_error ops (choose_target (sa_output args)) (sa_format args) w e
        else (e = SinkPanicked \<and> (\<exists>w1. dr_join ops w1 = (False, w')))
          \<or> worker_error l e
          \<or> (camera_error (sa_no_reconnect args) l e \<and> (\<exists>w1. dr_join ops w1 = (True, w')))"
  using assms
proof (cases rule: run_stream_cases)
  case (refused e)
  then show ?thesis by simp
next
  case (streamed plan w1 exit w2 joined)
  have reason: "exit_reason (sa_no_reconnect args) l exit"
    using stream_loop_phases [OF streamed(1)] by auto
  then have "l \<noteq> []"
    using streamed(2) by (auto simp: exit_reason_nonempty split: stream_exit.splits)
  with reason show ?thesis
    using streamed(2,3) by (cases exit) (auto simp: exit_reason_def split: sum.splits if_splits)
qed

theorem stream_ends_for_reason_witness:
  "\<exists>stats d l. run_stream plain_text (\<lambda>_. Inl ''none'') [] (\<lambda>_. Inl ''none'') (logged_stream (desk_ops []))
      desk_args 20 3 (desk_initial, []) = (Some (Inr ()) :: (string app_error + unit) option, stats, d, l)
    \<and> told_to_end l \<and> (\<exists>d1. dr_join (desk_ops []) d1 = (True, d))"
proof -
  obtain stats l where run: "run_stream plain_text (\<lambda>_. Inl ''none'') [] (\<lambda>_. Inl ''none'') (logged_stream (desk_ops []))
      desk_args 20 3 (desk_initial, []) = (Some (Inr ()) :: (string app_error + unit) option, stats,
        \<lparr>dk_time = 500000000, dk_opens = 2, dk_polls = 2\<rparr>, l)"
    using desk_stream by auto
  from stream_ends_for_reason [OF run] show ?thesis using run by auto
qed

text \<open>
  The wait between two attempts ends: on a clock that keeps its contract it needs at most one
  iteration for every 50 milliseconds and two more, and when it was not interrupted, the
  whole delay has passed.
\<close>

interpretation desk: sleeping_clock "desk_ops events" dk_time for events
  by unfold_locales auto

theorem interruptible_wait_ends:
  assumes "duration div 50000000 + 1 < steps"
  shows "\<exists>r d'. wait_interruptibly (desk_ops events) steps duration d = (Some (r :: 'h app_error + bool), d')
    \<and> (r = Inr False \<longrightarrow> dk_time d + duration \<le> dk_time d')"
  using assms by (rule desk.wait_ends)

end
