(* ===== verification/Record_Mode_Plan.thy ===== *)
theory Record_Mode_Plan
  imports Usb_Control Jpeg
begin

section \<open>The embedded record-mode plan\<close>

text \<open>
  The plan that \<open>crates/handycam-core/src/init.rs\<close> embeds from
  \<open>assets/record-mode-init.tsv\<close>, as the tab-separated fields of its rows, and what it does: the
  operations it parses to, the registers and tables it writes, the scan commands it contains.
\<close>

subsection \<open>The text\<close>

definition plan_header :: "string list" where
  "plan_header =
     [''# delay_us'', ''bmRequestType'', ''bRequest'', ''wValue'', ''wIndex'', ''wLength'', ''data_hex'', ''capture_frame'']"

definition plan_rows_1 :: "string list list" where
  "plan_rows_1 =
     [[''0'', ''0x40'', ''0x88'', ''0x0000'', ''0x0027'', ''1'', ''00'', ''4198''],
      [''1250'', ''0x01'', ''0x0b'', ''0x0000'', ''0x0000'', ''0'', ''-'', ''4200''],
      [''739'', ''0x40'', ''0x88'', ''0x0000'', ''0x0035'', ''1'', ''06'', ''4202''],
      [''2019'', ''0x40'', ''0x88'', ''0x0000'', ''0x0035'', ''1'', ''00'', ''4204''],
      [''12978'', ''0xc0'', ''0x88'', ''0x0000'', ''0x0340'', ''64'', ''-'', ''4206''],
      [''31029'', ''0xc0'', ''0x88'', ''0x0000'', ''0x0340'', ''64'', ''-'', ''4208''],
      [''37044'', ''0xc0'', ''0x88'', ''0x0000'', ''0x0340'', ''64'', ''-'', ''4210''],
      [''38012'', ''0xc0'', ''0x88'', ''0x0000'', ''0x002d'', ''1'', ''-'', ''4212''],
      [''1960'', ''0x40'', ''0x88'', ''0x0000'', ''0x0070'', ''1'', ''30'', ''4214''],
      [''2036'', ''0x40'', ''0x88'', ''0x0000'', ''0x0000'', ''1'', ''18'', ''4216''],
      [''2001'', ''0x40'', ''0x88'', ''0x0000'', ''0x0055'', ''1'', ''88'', ''4218''],
      [''1937'', ''0x40'', ''0x88'', ''0x0000'', ''0x005e'', ''1'', ''07'', ''4220''],
      [''4074'', ''0x40'', ''0x88'', ''0x0000'', ''0x0060'', ''1'', ''00'', ''4222''],
      [''1972'', ''0x40'', ''0x88'', ''0x0000'', ''0x0061'', ''1'', ''3f'', ''4224''],
      [''2014'', ''0x40'', ''0x88'', ''0x0000'', ''0x0068'', ''1'', ''02'', ''4226''],
      [''1987'', ''0x40'', ''0x88'', ''0x0000'', ''0x0050'', ''1'', ''24'', ''4228''],
      [''173'', ''0xc0'', ''0x88'', ''0x0000'', ''0x0340'', ''64'', ''-'', ''4230''],
      [''1832'', ''0x40'', ''0x88'', ''0x0000'', ''0x005e'', ''1'', ''03'', ''4232''],
      [''2057'', ''0x40'', ''0x88'', ''0x0000'', ''0x005e'', ''1'', ''07'', ''4234''],
      [''1932'', ''0x40'', ''0x88'', ''0x0000'', ''0x0070'', ''1'', ''31'', ''4236''],
      [''2022'', ''0x40'', ''0x88'', ''0x0000'', ''0x0000'', ''1'', ''19'', ''4238''],
      [''2351'', ''0x01'', ''0x0b'', ''0x0007'', ''0x0000'', ''0'', ''-'', ''4240''],
      [''21836'', ''0xc0'', ''0x88'', ''0x0000'', ''0x0340'', ''64'', ''-'', ''4242''],
      [''30967'', ''0x40'', ''0x88'', ''0x0000'', ''0x0027'', ''1'', ''ff'', ''4244''],
      [''7153'', ''0x01'', ''0x0b'', ''0x0005'', ''0x0000'', ''0'', ''-'', ''4246''],
      [''7732'', ''0x40'', ''0x88'', ''0x0000'', ''0x0300'', ''64'', ''00000000000000000000000000000000000000000000000000000000000000000000000000000000000000000000000000000000000000000000000000691061'', ''4248''],
      [''2977'', ''0xc0'', ''0x88'', ''0x0000'', ''0x0340'', ''64'', ''-'', ''4250''],
      [''28970'', ''0xc0'', ''0x88'', ''0x0000'', ''0x0340'', ''64'', ''-'', ''4252'']]"

definition plan_rows_2 :: "string list list" where
  "plan_rows_2 =
     [[''15057'', ''0x40'', ''0x88'', ''0x0000'', ''0x0027'', ''1'', ''c0'', ''4254''],
      [''2974'', ''0x40'', ''0x88'', ''0x0000'', ''0x0023'', ''1'', ''00'', ''4256''],
      [''3080'', ''0x40'', ''0x88'', ''0x0000'', ''0x0024'', ''1'', ''68'', ''4258''],
      [''2912'', ''0x40'', ''0x88'', ''0x0000'', ''0x0022'', ''1'', ''0c'', ''4260''],
      [''3135'', ''0x40'', ''0x88'', ''0x0000'', ''0x0035'', ''1'', ''0f'', ''4262''],
      [''2838'', ''0x40'', ''0x88'', ''0x0000'', ''0x0070'', ''1'', ''30'', ''4264''],
      [''223'', ''0xc0'', ''0x88'', ''0x0000'', ''0x0340'', ''64'', ''-'', ''4266''],
      [''1825'', ''0x40'', ''0x88'', ''0x0000'', ''0x0000'', ''1'', ''18'', ''4268''],
      [''2000'', ''0x40'', ''0x88'', ''0x0000'', ''0x0000'', ''1'', ''18'', ''4270''],
      [''7088'', ''0x40'', ''0x88'', ''0x0000'', ''0x0001'', ''1'', ''98'', ''4272''],
      [''2899'', ''0x40'', ''0x88'', ''0x0000'', ''0x0002'', ''1'', ''98'', ''4274''],
      [''2994'', ''0x40'', ''0x88'', ''0x0000'', ''0x0003'', ''1'', ''80'', ''4276''],
      [''3005'', ''0x40'', ''0x88'', ''0x0000'', ''0x000f'', ''1'', ''b0'', ''4278''],
      [''2009'', ''0x40'', ''0x88'', ''0x0000'', ''0x0004'', ''1'', ''00'', ''4280''],
      [''2978'', ''0x40'', ''0x88'', ''0x0000'', ''0x0005'', ''1'', ''00'', ''4282''],
      [''3014'', ''0x40'', ''0x88'', ''0x0000'', ''0x0006'', ''1'', ''40'', ''4284''],
      [''1981'', ''0x40'', ''0x88'', ''0x0000'', ''0x0007'', ''1'', ''01'', ''4286''],
      [''3043'', ''0x40'', ''0x88'', ''0x0000'', ''0x0008'', ''1'', ''08'', ''4288''],
      [''170'', ''0xc0'', ''0x88'', ''0x0000'', ''0x0340'', ''64'', ''-'', ''4290''],
      [''6808'', ''0x40'', ''0x88'', ''0x0000'', ''0x0009'', ''1'', ''00'', ''4292''],
      [''2995'', ''0x40'', ''0x88'', ''0x0000'', ''0x000a'', ''1'', ''27'', ''4294''],
      [''3021'', ''0x40'', ''0x88'', ''0x0000'', ''0x000b'', ''1'', ''01'', ''4296''],
      [''3006'', ''0x40'', ''0x88'', ''0x0000'', ''0x0053'', ''1'', ''40'', ''4298''],
      [''2994'', ''0x40'', ''0x88'', ''0x0000'', ''0x0054'', ''1'', ''01'', ''4300''],
      [''3005'', ''0x40'', ''0x88'', ''0x0000'', ''0x0078'', ''1'', ''68'', ''4302''],
      [''2964'', ''0x40'', ''0x88'', ''0x0000'', ''0x0079'', ''1'', ''01'', ''4304''],
      [''2988'', ''0x40'', ''0x88'', ''0x0000'', ''0x0071'', ''1'', ''45'', ''4306''],
      [''3042'', ''0x40'', ''0x88'', ''0x0000'', ''0x0072'', ''1'', ''00'', ''4308'']]"

definition plan_rows_3 :: "string list list" where
  "plan_rows_3 =
     [[''5065'', ''0xc0'', ''0x88'', ''0x0000'', ''0x0340'', ''64'', ''-'', ''4310''],
      [''1955'', ''0x40'', ''0x88'', ''0x0000'', ''0x002c'', ''1'', ''01'', ''4312''],
      [''2964'', ''0x40'', ''0x88'', ''0x0000'', ''0x0000'', ''1'', ''18'', ''4314''],
      [''3027'', ''0x40'', ''0x88'', ''0x0000'', ''0x000f'', ''1'', ''b0'', ''4316''],
      [''1980'', ''0x40'', ''0x88'', ''0x0000'', ''0x007a'', ''1'', ''1f'', ''4318''],
      [''3039'', ''0x40'', ''0x88'', ''0x0000'', ''0x002b'', ''1'', ''01'', ''4320''],
      [''2941'', ''0x40'', ''0x88'', ''0x0000'', ''0x0073'', ''1'', ''01'', ''4322''],
      [''2032'', ''0x40'', ''0x88'', ''0x0000'', ''0x005e'', ''1'', ''03'', ''4324''],
      [''3004'', ''0x40'', ''0x88'', ''0x0000'', ''0x005e'', ''1'', ''07'', ''4326''],
      [''2994'', ''0x40'', ''0x88'', ''0x0000'', ''0x0070'', ''1'', ''31'', ''4328''],
      [''1021'', ''0xc0'', ''0x88'', ''0x0000'', ''0x0340'', ''64'', ''-'', ''4330''],
      [''6992'', ''0x40'', ''0x88'', ''0x0000'', ''0x0000'', ''1'', ''19'', ''4332''],
      [''973'', ''0x40'', ''0x88'', ''0x0000'', ''0x0000'', ''1'', ''00'', ''4334''],
      [''1022'', ''0x40'', ''0x88'', ''0x0000'', ''0x0050'', ''1'', ''c0'', ''4336''],
      [''1976'', ''0x40'', ''0x88'', ''0x0000'', ''0x0055'', ''1'', ''80'', ''4338''],
      [''2983'', ''0x40'', ''0x88'', ''0x0000'', ''0x0061'', ''1'', ''3f'', ''4340''],
      [''2963'', ''0x40'', ''0x88'', ''0x0000'', ''0x007a'', ''1'', ''0f'', ''4342''],
      [''1983'', ''0x40'', ''0x88'', ''0x0000'', ''0x0006'', ''1'', ''80'', ''4344''],
      [''3062'', ''0x40'', ''0x88'', ''0x0000'', ''0x0007'', ''1'', ''02'', ''4346''],
      [''2018'', ''0x40'', ''0x88'', ''0x0000'', ''0x000a'', ''1'', ''df'', ''4348''],
      [''3008'', ''0x40'', ''0x88'', ''0x0000'', ''0x000f'', ''1'', ''00'', ''4350''],
      [''1997'', ''0x40'', ''0x88'', ''0x0000'', ''0x0020'', ''1'', ''41'', ''4352''],
      [''3002'', ''0x40'', ''0x88'', ''0x0000'', ''0x0021'', ''1'', ''60'', ''4354''],
      [''216'', ''0xc0'', ''0x88'', ''0x0000'', ''0x0340'', ''64'', ''-'', ''4356''],
      [''7734'', ''0x40'', ''0x88'', ''0x0000'', ''0x0053'', ''1'', ''80'', ''4358''],
      [''3054'', ''0x40'', ''0x88'', ''0x0000'', ''0x0054'', ''1'', ''02'', ''4360''],
      [''1977'', ''0x40'', ''0x88'', ''0x0000'', ''0x005e'', ''1'', ''03'', ''4362''],
      [''3067'', ''0x40'', ''0x88'', ''0x0000'', ''0x0078'', ''1'', ''60'', ''4364'']]"

definition plan_rows_4 :: "string list list" where
  "plan_rows_4 =
     [[''2946'', ''0x40'', ''0x88'', ''0x0000'', ''0x0079'', ''1'', ''09'', ''4366''],
      [''3010'', ''0x40'', ''0x88'', ''0x0000'', ''0x007c'', ''1'', ''10'', ''4368''],
      [''2940'', ''0x40'', ''0x88'', ''0x0000'', ''0x0037'', ''1'', ''00'', ''4370''],
      [''2048'', ''0x40'', ''0x88'', ''0x0000'', ''0x0051'', ''1'', ''03'', ''4372''],
      [''2921'', ''0x40'', ''0x88'', ''0x0000'', ''0x0076'', ''1'', ''00'', ''4374''],
      [''1105'', ''0xc0'', ''0x88'', ''0x0000'', ''0x0340'', ''64'', ''-'', ''4376''],
      [''308'', ''0x40'', ''0x88'', ''0x0000'', ''0x0023'', ''1'', ''00'', ''4378''],
      [''1611'', ''0x40'', ''0x88'', ''0x0000'', ''0x0035'', ''1'', ''06'', ''4380''],
      [''1041'', ''0x40'', ''0x88'', ''0x0000'', ''0x0036'', ''1'', ''01'', ''4382''],
      [''11977'', ''0x40'', ''0x88'', ''0x0000'', ''0x0036'', ''1'', ''03'', ''4384''],
      [''2012'', ''0x40'', ''0x88'', ''0x0000'', ''0x0035'', ''1'', ''0f'', ''4386''],
      [''1987'', ''0x40'', ''0x88'', ''0x0000'', ''0x0076'', ''1'', ''01'', ''4388''],
      [''2012'', ''0x40'', ''0x88'', ''0x0000'', ''0x0070'', ''1'', ''30'', ''4390''],
      [''2001'', ''0x40'', ''0x88'', ''0x0000'', ''0x0000'', ''1'', ''00'', ''4392''],
      [''1999'', ''0x40'', ''0x88'', ''0x0000'', ''0x0055'', ''1'', ''88'', ''4394''],
      [''1956'', ''0x40'', ''0x88'', ''0x0000'', ''0x005e'', ''1'', ''07'', ''4396''],
      [''2059'', ''0x40'', ''0x88'', ''0x0000'', ''0x0060'', ''1'', ''00'', ''4398''],
      [''1904'', ''0x40'', ''0x88'', ''0x0000'', ''0x0061'', ''1'', ''3f'', ''4400''],
      [''217'', ''0xc0'', ''0x88'', ''0x0000'', ''0x0340'', ''64'', ''-'', ''4402''],
      [''1838'', ''0x40'', ''0x88'', ''0x0000'', ''0x0068'', ''1'', ''02'', ''4404''],
      [''2100'', ''0x40'', ''0x88'', ''0x0000'', ''0x0050'', ''1'', ''24'', ''4406''],
      [''1922'', ''0x40'', ''0x88'', ''0x0000'', ''0x005e'', ''1'', ''03'', ''4408''],
      [''5083'', ''0x40'', ''0x88'', ''0x0000'', ''0x005e'', ''1'', ''07'', ''4410''],
      [''1903'', ''0x40'', ''0x88'', ''0x0000'', ''0x0070'', ''1'', ''31'', ''4412''],
      [''1935'', ''0x40'', ''0x88'', ''0x0000'', ''0x0000'', ''1'', ''01'', ''4414''],
      [''1996'', ''0x40'', ''0x88'', ''0x0000'', ''0x007e'', ''1'', ''2f'', ''4416''],
      [''2073'', ''0x40'', ''0x88'', ''0x0000'', ''0x0070'', ''1'', ''30'', ''4418''],
      [''1994'', ''0x40'', ''0x88'', ''0x0000'', ''0x0000'', ''1'', ''00'', ''4420'']]"

definition plan_rows_5 :: "string list list" where
  "plan_rows_5 =
     [[''2007'', ''0x40'', ''0x88'', ''0x0000'', ''0x0000'', ''1'', ''10'', ''4422''],
      [''2040'', ''0x40'', ''0x88'', ''0x0000'', ''0x000f'', ''1'', ''00'', ''4424''],
      [''1999'', ''0x40'', ''0x88'', ''0x0000'', ''0x007a'', ''1'', ''1f'', ''4426''],
      [''1978'', ''0x40'', ''0x88'', ''0x0000'', ''0x0000'', ''1'', ''18'', ''4428''],
      [''1967'', ''0x40'', ''0x88'', ''0x0000'', ''0x0001'', ''1'', ''98'', ''4430''],
      [''157'', ''0xc0'', ''0x88'', ''0x0000'', ''0x0340'', ''64'', ''-'', ''4432''],
      [''1879'', ''0x40'', ''0x88'', ''0x0000'', ''0x0002'', ''1'', ''98'', ''4434''],
      [''1990'', ''0x40'', ''0x88'', ''0x0000'', ''0x0003'', ''1'', ''80'', ''4436''],
      [''1994'', ''0x40'', ''0x88'', ''0x0000'', ''0x000f'', ''1'', ''b0'', ''4438''],
      [''3011'', ''0x40'', ''0x88'', ''0x0000'', ''0x0004'', ''1'', ''00'', ''4440''],
      [''5048'', ''0x40'', ''0x88'', ''0x0000'', ''0x0005'', ''1'', ''00'', ''4442''],
      [''1929'', ''0x40'', ''0x88'', ''0x0000'', ''0x0006'', ''1'', ''40'', ''4444''],
      [''2095'', ''0x40'', ''0x88'', ''0x0000'', ''0x0007'', ''1'', ''01'', ''4446''],
      [''1900'', ''0x40'', ''0x88'', ''0x0000'', ''0x0008'', ''1'', ''08'', ''4448''],
      [''2023'', ''0x40'', ''0x88'', ''0x0000'', ''0x0009'', ''1'', ''00'', ''4450''],
      [''2003'', ''0x40'', ''0x88'', ''0x0000'', ''0x000a'', ''1'', ''27'', ''4452''],
      [''1986'', ''0x40'', ''0x88'', ''0x0000'', ''0x000b'', ''1'', ''01'', ''4454''],
      [''2012'', ''0x40'', ''0x88'', ''0x0000'', ''0x0053'', ''1'', ''40'', ''4456''],
      [''2000'', ''0x40'', ''0x88'', ''0x0000'', ''0x0054'', ''1'', ''01'', ''4458''],
      [''1924'', ''0x40'', ''0x88'', ''0x0000'', ''0x0078'', ''1'', ''68'', ''4460''],
      [''2107'', ''0x40'', ''0x88'', ''0x0000'', ''0x0079'', ''1'', ''01'', ''4462''],
      [''1941'', ''0x40'', ''0x88'', ''0x0000'', ''0x0071'', ''1'', ''45'', ''4464''],
      [''2008'', ''0x40'', ''0x88'', ''0x0000'', ''0x0072'', ''1'', ''00'', ''4466''],
      [''2120'', ''0x40'', ''0x88'', ''0x0000'', ''0x002c'', ''1'', ''01'', ''4468''],
      [''1885'', ''0x40'', ''0x88'', ''0x0000'', ''0x002b'', ''1'', ''01'', ''4470''],
      [''2043'', ''0x40'', ''0x88'', ''0x0000'', ''0x0070'', ''1'', ''30'', ''4472''],
      [''1943'', ''0x40'', ''0x88'', ''0x0000'', ''0x0080'', ''64'', ''100c0e0e121831480b0c0d111623405c0a0e101625374e5f1013181d38405762181a283344516770283a39576d687964333c4550677178673d37383e4d5c6563'', ''4474''],
      [''3052'', ''0xc0'', ''0x88'', ''0x0000'', ''0x0340'', ''64'', ''-'', ''4476'']]"

definition plan_rows_6 :: "string list list" where
  "plan_rows_6 =
     [[''889'', ''0x40'', ''0x88'', ''0x0000'', ''0x00c0'', ''64'', ''1112182f6363636312151a4263636363181a3863636363632f426363636363636363636363636363636363636363636363636363636363636363636363636363'', ''4478''],
      [''1088'', ''0x40'', ''0x88'', ''0x0000'', ''0x0070'', ''1'', ''50'', ''4480''],
      [''936'', ''0x40'', ''0x88'', ''0x0000'', ''0x0080'', ''64'', ''100c0e0e121831480b0c0d111623405c0a0e101625374e5f1013181d38405762181a283344516770283a39576d687964333c4550677178673d37383e4d5c6563'', ''4482''],
      [''997'', ''0x40'', ''0x88'', ''0x0000'', ''0x00c0'', ''64'', ''1112182f6363636312151a4263636363181a3863636363632f426363636363636363636363636363636363636363636363636363636363636363636363636363'', ''4484''],
      [''1026'', ''0x40'', ''0x88'', ''0x0000'', ''0x0070'', ''1'', ''30'', ''4486''],
      [''1001'', ''0x40'', ''0x88'', ''0x0000'', ''0x0073'', ''1'', ''80'', ''4488''],
      [''1029'', ''0x40'', ''0x88'', ''0x0000'', ''0x007c'', ''1'', ''14'', ''4490''],
      [''936'', ''0x40'', ''0x88'', ''0x0000'', ''0x0070'', ''1'', ''30'', ''4492''],
      [''981'', ''0x40'', ''0x88'', ''0x0000'', ''0x0028'', ''1'', ''00'', ''4494''],
      [''1084'', ''0x40'', ''0x88'', ''0x0000'', ''0x0073'', ''1'', ''01'', ''4496''],
      [''1006'', ''0x40'', ''0x88'', ''0x0000'', ''0x005e'', ''1'', ''03'', ''4498''],
      [''990'', ''0x40'', ''0x88'', ''0x0000'', ''0x005e'', ''1'', ''07'', ''4500''],
      [''920'', ''0x40'', ''0x88'', ''0x0000'', ''0x0070'', ''1'', ''31'', ''4502''],
      [''1046'', ''0x40'', ''0x88'', ''0x0000'', ''0x0000'', ''1'', ''19'', ''4504''],
      [''16148'', ''0xc0'', ''0x88'', ''0x0000'', ''0x0340'', ''64'', ''-'', ''4506''],
      [''371'', ''0xc0'', ''0x88'', ''0x0000'', ''0x0340'', ''64'', ''-'', ''4508''],
      [''3465'', ''0xc0'', ''0x88'', ''0x0000'', ''0x002d'', ''1'', ''-'', ''4510''],
      [''4062'', ''0xc0'', ''0x88'', ''0x0000'', ''0x002e'', ''1'', ''-'', ''4512''],
      [''2004'', ''0x40'', ''0x88'', ''0x0000'', ''0x0300'', ''64'', ''00000000000000000000000000000000000000000000000000000000000000000000000000000000000000000000000000000000000000000000000000188010'', ''4514''],
      [''21952'', ''0x40'', ''0x88'', ''0x0000'', ''0x0300'', ''64'', ''00000000000000000000000000000000000000000000000000000000000000000000000000000000000000000000000000000000000000000000000000188010'', ''4516''],
      [''225'', ''0xc0'', ''0x88'', ''0x0000'', ''0x0340'', ''64'', ''-'', ''4518''],
      [''29833'', ''0xc0'', ''0x88'', ''0x0000'', ''0x0340'', ''64'', ''-'', ''4520''],
      [''32030'', ''0x40'', ''0x88'', ''0x0000'', ''0x0300'', ''64'', ''00000000000000000000000000000000000000000000000000000000000000000000000000000000000000000000000000000000000000000000000000791071'', ''4522''],
      [''2902'', ''0xc0'', ''0x88'', ''0x0000'', ''0x0340'', ''64'', ''-'', ''4524''],
      [''43024'', ''0xc0'', ''0x88'', ''0x0000'', ''0x0340'', ''64'', ''-'', ''4526''],
      [''32031'', ''0xc0'', ''0x88'', ''0x0000'', ''0x0340'', ''64'', ''-'', ''4528''],
      [''31030'', ''0xc0'', ''0x88'', ''0x0000'', ''0x0340'', ''64'', ''-'', ''4530''],
      [''32009'', ''0xc0'', ''0x88'', ''0x0000'', ''0x0340'', ''64'', ''-'', ''4532'']]"

definition plan_rows_7 :: "string list list" where
  "plan_rows_7 =
     [[''35004'', ''0xc0'', ''0x88'', ''0x0000'', ''0x0340'', ''64'', ''-'', ''4534''],
      [''26987'', ''0xc0'', ''0x88'', ''0x0000'', ''0x0340'', ''64'', ''-'', ''4536''],
      [''30996'', ''0xc0'', ''0x88'', ''0x0000'', ''0x0340'', ''64'', ''-'', ''4538''],
      [''36068'', ''0xc0'', ''0x88'', ''0x0000'', ''0x0340'', ''64'', ''-'', ''4540''],
      [''26897'', ''0xc0'', ''0x88'', ''0x0000'', ''0x0340'', ''64'', ''-'', ''4542''],
      [''30037'', ''0xc0'', ''0x88'', ''0x0000'', ''0x0340'', ''64'', ''-'', ''4544''],
      [''48050'', ''0xc0'', ''0x88'', ''0x0000'', ''0x0340'', ''64'', ''-'', ''4546''],
      [''45892'', ''0xc0'', ''0x88'', ''0x0000'', ''0x0340'', ''64'', ''-'', ''4548''],
      [''32056'', ''0xc0'', ''0x88'', ''0x0000'', ''0x0340'', ''64'', ''-'', ''4550''],
      [''31004'', ''0xc0'', ''0x88'', ''0x0000'', ''0x0340'', ''64'', ''-'', ''4552''],
      [''31001'', ''0xc0'', ''0x88'', ''0x0000'', ''0x0340'', ''64'', ''-'', ''4554''],
      [''30978'', ''0x40'', ''0x88'', ''0x0000'', ''0x0300'', ''64'', ''00000000000000000000000000000000000000000000000000000000000000000000000000000000000000000000000000000000000000000000000000891081'', ''4556''],
      [''3022'', ''0xc0'', ''0x88'', ''0x0000'', ''0x0340'', ''64'', ''-'', ''4558''],
      [''28999'', ''0xc0'', ''0x88'', ''0x0000'', ''0x0340'', ''64'', ''-'', ''4560''],
      [''30975'', ''0xc0'', ''0x88'', ''0x0000'', ''0x0340'', ''64'', ''-'', ''4562''],
      [''35057'', ''0xc0'', ''0x88'', ''0x0000'', ''0x0340'', ''64'', ''-'', ''4564''],
      [''26976'', ''0xc0'', ''0x88'', ''0x0000'', ''0x0340'', ''64'', ''-'', ''4566''],
      [''30982'', ''0xc0'', ''0x88'', ''0x0000'', ''0x0340'', ''64'', ''-'', ''4568''],
      [''47069'', ''0xc0'', ''0x88'', ''0x0000'', ''0x0340'', ''64'', ''-'', ''4570''],
      [''31944'', ''0xc0'', ''0x88'', ''0x0000'', ''0x0340'', ''64'', ''-'', ''4572''],
      [''38979'', ''0xc0'', ''0x88'', ''0x0000'', ''0x0340'', ''64'', ''-'', ''4574''],
      [''22980'', ''0xc0'', ''0x88'', ''0x0000'', ''0x0340'', ''64'', ''-'', ''4576''],
      [''36059'', ''0xc0'', ''0x88'', ''0x0000'', ''0x0340'', ''64'', ''-'', ''4578''],
      [''42068'', ''0xc0'', ''0x88'', ''0x0000'', ''0x0340'', ''64'', ''-'', ''4580''],
      [''31902'', ''0xc0'', ''0x88'', ''0x0000'', ''0x0340'', ''64'', ''-'', ''4582''],
      [''41951'', ''0xc0'', ''0x88'', ''0x0000'', ''0x0340'', ''64'', ''-'', ''4584''],
      [''20042'', ''0x40'', ''0x88'', ''0x0000'', ''0x0300'', ''64'', ''00000000000000000000000000000000000000000000000000000000000000000000000000000000000000000000000000000000000000000000000000991091'', ''4586''],
      [''2988'', ''0xc0'', ''0x88'', ''0x0000'', ''0x0340'', ''64'', ''-'', ''4588'']]"

definition plan_rows_8 :: "string list list" where
  "plan_rows_8 =
     [[''28035'', ''0xc0'', ''0x88'', ''0x0000'', ''0x0340'', ''64'', ''-'', ''4590''],
      [''31994'', ''0xc0'', ''0x88'', ''0x0000'', ''0x0340'', ''64'', ''-'', ''4592''],
      [''33131'', ''0xc0'', ''0x88'', ''0x0000'', ''0x0340'', ''64'', ''-'', ''4594''],
      [''28882'', ''0xc0'', ''0x88'', ''0x0000'', ''0x0340'', ''64'', ''-'', ''4596''],
      [''31002'', ''0xc0'', ''0x88'', ''0x0000'', ''0x0340'', ''64'', ''-'', ''4598''],
      [''30989'', ''0xc0'', ''0x88'', ''0x0000'', ''0x0340'', ''64'', ''-'', ''4600''],
      [''47087'', ''0xc0'', ''0x88'', ''0x0000'', ''0x0340'', ''64'', ''-'', ''4602''],
      [''46866'', ''0xc0'', ''0x88'', ''0x0000'', ''0x0340'', ''64'', ''-'', ''4604''],
      [''32012'', ''0xc0'', ''0x88'', ''0x0000'', ''0x0340'', ''64'', ''-'', ''4606''],
      [''31009'', ''0xc0'', ''0x88'', ''0x0000'', ''0x0340'', ''64'', ''-'', ''4608''],
      [''35025'', ''0xc0'', ''0x88'', ''0x0000'', ''0x0340'', ''64'', ''-'', ''4610''],
      [''27051'', ''0xc0'', ''0x88'', ''0x0000'', ''0x0340'', ''64'', ''-'', ''4612''],
      [''37946'', ''0xc0'', ''0x88'', ''0x0000'', ''0x0340'', ''64'', ''-'', ''4614''],
      [''25112'', ''0xc0'', ''0x88'', ''0x0000'', ''0x0340'', ''64'', ''-'', ''4616''],
      [''30906'', ''0xc0'', ''0x88'', ''0x0000'', ''0x0340'', ''64'', ''-'', ''4618''],
      [''31011'', ''0x40'', ''0x88'', ''0x0000'', ''0x0300'', ''64'', ''00000000000000000000000000000000000000000000000000000000000000000000000000000000000000000000000000000000000000000000000000a910a1'', ''4620''],
      [''2920'', ''0xc0'', ''0x88'', ''0x0000'', ''0x0340'', ''64'', ''-'', ''4622''],
      [''36038'', ''0xc0'', ''0x88'', ''0x0000'', ''0x0340'', ''64'', ''-'', ''4624''],
      [''39048'', ''0xc0'', ''0x88'', ''0x0000'', ''0x0340'', ''64'', ''-'', ''4626''],
      [''32021'', ''0xc0'', ''0x88'', ''0x0000'', ''0x0340'', ''64'', ''-'', ''4628''],
      [''30881'', ''0xc0'', ''0x88'', ''0x0000'', ''0x0340'', ''64'', ''-'', ''4630''],
      [''31068'', ''0xc0'', ''0x88'', ''0x0000'', ''0x0340'', ''64'', ''-'', ''4632''],
      [''30942'', ''0xc0'', ''0x88'', ''0x0000'', ''0x0340'', ''64'', ''-'', ''4634''],
      [''47017'', ''0xc0'', ''0x88'', ''0x0000'', ''0x0340'', ''64'', ''-'', ''4636''],
      [''31007'', ''0xc0'', ''0x88'', ''0x0000'', ''0x0340'', ''64'', ''-'', ''4638''],
      [''32028'', ''0xc0'', ''0x88'', ''0x0000'', ''0x0340'', ''64'', ''-'', ''4640''],
      [''31005'', ''0xc0'', ''0x88'', ''0x0000'', ''0x0340'', ''64'', ''-'', ''4642'']]"

definition plan_rows :: "string list list" where
  "plan_rows = plan_rows_1 @ plan_rows_2 @ plan_rows_3 @ plan_rows_4 @ plan_rows_5 @ plan_rows_6 @ plan_rows_7 @ plan_rows_8"

definition RECORD_MODE_PLAN :: string where
  "RECORD_MODE_PLAN = unlines (map (join_with tab) (plan_header # plan_rows))"

subsection \<open>The operations of its rows\<close>

text \<open>The two tables that the plan sends, column by column.\<close>

definition luminance_table :: bytes where
  "luminance_table =
     [0x10, 0x0c, 0x0e, 0x0e, 0x12, 0x18, 0x31, 0x48,
      0x0b, 0x0c, 0x0d, 0x11, 0x16, 0x23, 0x40, 0x5c,
      0x0a, 0x0e, 0x10, 0x16, 0x25, 0x37, 0x4e, 0x5f,
      0x10, 0x13, 0x18, 0x1d, 0x38, 0x40, 0x57, 0x62,
      0x18, 0x1a, 0x28, 0x33, 0x44, 0x51, 0x67, 0x70,
      0x28, 0x3a, 0x39, 0x57, 0x6d, 0x68, 0x79, 0x64,
      0x33, 0x3c, 0x45, 0x50, 0x67, 0x71, 0x78, 0x67,
      0x3d, 0x37, 0x38, 0x3e, 0x4d, 0x5c, 0x65, 0x63]"

definition chrominance_table :: bytes where
  "chrominance_table =
     [0x11, 0x12, 0x18, 0x2f, 0x63, 0x63, 0x63, 0x63,
      0x12, 0x15, 0x1a, 0x42, 0x63, 0x63, 0x63, 0x63,
      0x18, 0x1a, 0x38, 0x63, 0x63, 0x63, 0x63, 0x63,
      0x2f, 0x42, 0x63, 0x63, 0x63, 0x63, 0x63, 0x63,
      0x63, 0x63, 0x63, 0x63, 0x63, 0x63, 0x63, 0x63,
      0x63, 0x63, 0x63, 0x63, 0x63, 0x63, 0x63, 0x63,
      0x63, 0x63, 0x63, 0x63, 0x63, 0x63, 0x63, 0x63,
      0x63, 0x63, 0x63, 0x63, 0x63, 0x63, 0x63, 0x63]"

definition plan_ops_1 :: "init_op list" where
  "plan_ops_1 =
     [ControlOut 0 0x40 0x88 0x0 0x27 [0x00],
      SetInterface 1250 0 0,
      ControlOut 739 0x40 0x88 0x0 0x35 [0x06],
      ControlOut 2019 0x40 0x88 0x0 0x35 [0x00],
      ControlIn 12978 0xc0 0x88 0x0 0x340 64,
      ControlIn 31029 0xc0 0x88 0x0 0x340 64,
      ControlIn 37044 0xc0 0x88 0x0 0x340 64,
      ControlIn 38012 0xc0 0x88 0x0 0x2d 1,
      ControlOut 1960 0x40 0x88 0x0 0x70 [0x30],
      ControlOut 2036 0x40 0x88 0x0 0x0 [0x18],
      ControlOut 2001 0x40 0x88 0x0 0x55 [0x88],
      ControlOut 1937 0x40 0x88 0x0 0x5e [0x07],
      ControlOut 4074 0x40 0x88 0x0 0x60 [0x00],
      ControlOut 1972 0x40 0x88 0x0 0x61 [0x3f],
      ControlOut 2014 0x40 0x88 0x0 0x68 [0x02],
      ControlOut 1987 0x40 0x88 0x0 0x50 [0x24],
      ControlIn 173 0xc0 0x88 0x0 0x340 64,
      ControlOut 1832 0x40 0x88 0x0 0x5e [0x03],
      ControlOut 2057 0x40 0x88 0x0 0x5e [0x07],
      ControlOut 1932 0x40 0x88 0x0 0x70 [0x31],
      ControlOut 2022 0x40 0x88 0x0 0x0 [0x19],
      SetInterface 2351 0 7,
      ControlIn 21836 0xc0 0x88 0x0 0x340 64,
      ControlOut 30967 0x40 0x88 0x0 0x27 [0xff],
      SetInterface 7153 0 5,
      ControlOut 7732 0x40 0x88 0x0 0x300 (command_block 0x00691061),
      ControlIn 2977 0xc0 0x88 0x0 0x340 64,
      ControlIn 28970 0xc0 0x88 0x0 0x340 64]"

definition plan_ops_2 :: "init_op list" where
  "plan_ops_2 =
     [ControlOut 15057 0x40 0x88 0x0 0x27 [0xc0],
      ControlOut 2974 0x40 0x88 0x0 0x23 [0x00],
      ControlOut 3080 0x40 0x88 0x0 0x24 [0x68],
      ControlOut 2912 0x40 0x88 0x0 0x22 [0x0c],
      ControlOut 3135 0x40 0x88 0x0 0x35 [0x0f],
      ControlOut 2838 0x40 0x88 0x0 0x70 [0x30],
      ControlIn 223 0xc0 0x88 0x0 0x340 64,
      ControlOut 1825 0x40 0x88 0x0 0x0 [0x18],
      ControlOut 2000 0x40 0x88 0x0 0x0 [0x18],
      ControlOut 7088 0x40 0x88 0x0 0x1 [0x98],
      ControlOut 2899 0x40 0x88 0x0 0x2 [0x98],
      ControlOut 2994 0x40 0x88 0x0 0x3 [0x80],
      ControlOut 3005 0x40 0x88 0x0 0xf [0xb0],
      ControlOut 2009 0x40 0x88 0x0 0x4 [0x00],
      ControlOut 2978 0x40 0x88 0x0 0x5 [0x00],
      ControlOut 3014 0x40 0x88 0x0 0x6 [0x40],
      ControlOut 1981 0x40 0x88 0x0 0x7 [0x01],
      ControlOut 3043 0x40 0x88 0x0 0x8 [0x08],
      ControlIn 170 0xc0 0x88 0x0 0x340 64,
      ControlOut 6808 0x40 0x88 0x0 0x9 [0x00],
      ControlOut 2995 0x40 0x88 0x0 0xa [0x27],
      ControlOut 3021 0x40 0x88 0x0 0xb [0x01],
      ControlOut 3006 0x40 0x88 0x0 0x53 [0x40],
      ControlOut 2994 0x40 0x88 0x0 0x54 [0x01],
      ControlOut 3005 0x40 0x88 0x0 0x78 [0x68],
      ControlOut 2964 0x40 0x88 0x0 0x79 [0x01],
      ControlOut 2988 0x40 0x88 0x0 0x71 [0x45],
      ControlOut 3042 0x40 0x88 0x0 0x72 [0x00]]"

definition plan_ops_3 :: "init_op list" where
  "plan_ops_3 =
     [ControlIn 5065 0xc0 0x88 0x0 0x340 64,
      ControlOut 1955 0x40 0x88 0x0 0x2c [0x01],
      ControlOut 2964 0x40 0x88 0x0 0x0 [0x18],
      ControlOut 3027 0x40 0x88 0x0 0xf [0xb0],
      ControlOut 1980 0x40 0x88 0x0 0x7a [0x1f],
      ControlOut 3039 0x40 0x88 0x0 0x2b [0x01],
      ControlOut 2941 0x40 0x88 0x0 0x73 [0x01],
      ControlOut 2032 0x40 0x88 0x0 0x5e [0x03],
      ControlOut 3004 0x40 0x88 0x0 0x5e [0x07],
      ControlOut 2994 0x40 0x88 0x0 0x70 [0x31],
      ControlIn 1021 0xc0 0x88 0x0 0x340 64,
      ControlOut 6992 0x40 0x88 0x0 0x0 [0x19],
      ControlOut 973 0x40 0x88 0x0 0x0 [0x00],
      ControlOut 1022 0x40 0x88 0x0 0x50 [0xc0],
      ControlOut 1976 0x40 0x88 0x0 0x55 [0x80],
      ControlOut 2983 0x40 0x88 0x0 0x61 [0x3f],
      ControlOut 2963 0x40 0x88 0x0 0x7a [0x0f],
      ControlOut 1983 0x40 0x88 0x0 0x6 [0x80],
      ControlOut 3062 0x40 0x88 0x0 0x7 [0x02],
      ControlOut 2018 0x40 0x88 0x0 0xa [0xdf],
      ControlOut 3008 0x40 0x88 0x0 0xf [0x00],
      ControlOut 1997 0x40 0x88 0x0 0x20 [0x41],
      ControlOut 3002 0x40 0x88 0x0 0x21 [0x60],
      ControlIn 216 0xc0 0x88 0x0 0x340 64,
      ControlOut 7734 0x40 0x88 0x0 0x53 [0x80],
      ControlOut 3054 0x40 0x88 0x0 0x54 [0x02],
      ControlOut 1977 0x40 0x88 0x0 0x5e [0x03],
      ControlOut 3067 0x40 0x88 0x0 0x78 [0x60]]"

definition plan_ops_4 :: "init_op list" where
  "plan_ops_4 =
     [ControlOut 2946 0x40 0x88 0x0 0x79 [0x09],
      ControlOut 3010 0x40 0x88 0x0 0x7c [0x10],
      ControlOut 2940 0x40 0x88 0x0 0x37 [0x00],
      ControlOut 2048 0x40 0x88 0x0 0x51 [0x03],
      ControlOut 2921 0x40 0x88 0x0 0x76 [0x00],
      ControlIn 1105 0xc0 0x88 0x0 0x340 64,
      ControlOut 308 0x40 0x88 0x0 0x23 [0x00],
      ControlOut 1611 0x40 0x88 0x0 0x35 [0x06],
      ControlOut 1041 0x40 0x88 0x0 0x36 [0x01],
      ControlOut 11977 0x40 0x88 0x0 0x36 [0x03],
      ControlOut 2012 0x40 0x88 0x0 0x35 [0x0f],
      ControlOut 1987 0x40 0x88 0x0 0x76 [0x01],
      ControlOut 2012 0x40 0x88 0x0 0x70 [0x30],
      ControlOut 2001 0x40 0x88 0x0 0x0 [0x00],
      ControlOut 1999 0x40 0x88 0x0 0x55 [0x88],
      ControlOut 1956 0x40 0x88 0x0 0x5e [0x07],
      ControlOut 2059 0x40 0x88 0x0 0x60 [0x00],
      ControlOut 1904 0x40 0x88 0x0 0x61 [0x3f],
      ControlIn 217 0xc0 0x88 0x0 0x340 64,
      ControlOut 1838 0x40 0x88 0x0 0x68 [0x02],
      ControlOut 2100 0x40 0x88 0x0 0x50 [0x24],
      ControlOut 1922 0x40 0x88 0x0 0x5e [0x03],
      ControlOut 5083 0x40 0x88 0x0 0x5e [0x07],
      ControlOut 1903 0x40 0x88 0x0 0x70 [0x31],
      ControlOut 1935 0x40 0x88 0x0 0x0 [0x01],
      ControlOut 1996 0x40 0x88 0x0 0x7e [0x2f],
      ControlOut 2073 0x40 0x88 0x0 0x70 [0x30],
      ControlOut 1994 0x40 0x88 0x0 0x0 [0x00]]"

definition plan_ops_5 :: "init_op list" where
  "plan_ops_5 =
     [ControlOut 2007 0x40 0x88 0x0 0x0 [0x10],
      ControlOut 2040 0x40 0x88 0x0 0xf [0x00],
      ControlOut 1999 0x40 0x88 0x0 0x7a [0x1f],
      ControlOut 1978 0x40 0x88 0x0 0x0 [0x18],
      ControlOut 1967 0x40 0x88 0x0 0x1 [0x98],
      ControlIn 157 0xc0 0x88 0x0 0x340 64,
      ControlOut 1879 0x40 0x88 0x0 0x2 [0x98],
      ControlOut 1990 0x40 0x88 0x0 0x3 [0x80],
      ControlOut 1994 0x40 0x88 0x0 0xf [0xb0],
      ControlOut 3011 0x40 0x88 0x0 0x4 [0x00],
      ControlOut 5048 0x40 0x88 0x0 0x5 [0x00],
      ControlOut 1929 0x40 0x88 0x0 0x6 [0x40],
      ControlOut 2095 0x40 0x88 0x0 0x7 [0x01],
      ControlOut 1900 0x40 0x88 0x0 0x8 [0x08],
      ControlOut 2023 0x40 0x88 0x0 0x9 [0x00],
      ControlOut 2003 0x40 0x88 0x0 0xa [0x27],
      ControlOut 1986 0x40 0x88 0x0 0xb [0x01],
      ControlOut 2012 0x40 0x88 0x0 0x53 [0x40],
      ControlOut 2000 0x40 0x88 0x0 0x54 [0x01],
      ControlOut 1924 0x40 0x88 0x0 0x78 [0x68],
      ControlOut 2107 0x40 0x88 0x0 0x79 [0x01],
      ControlOut 1941 0x40 0x88 0x0 0x71 [0x45],
      ControlOut 2008 0x40 0x88 0x0 0x72 [0x00],
      ControlOut 2120 0x40 0x88 0x0 0x2c [0x01],
      ControlOut 1885 0x40 0x88 0x0 0x2b [0x01],
      ControlOut 2043 0x40 0x88 0x0 0x70 [0x30],
      ControlOut 1943 0x40 0x88 0x0 0x80 luminance_table,
      ControlIn 3052 0xc0 0x88 0x0 0x340 64]"

definition plan_ops_6 :: "init_op list" where
  "plan_ops_6 =
     [ControlOut 889 0x40 0x88 0x0 0xc0 chrominance_table,
      ControlOut 1088 0x40 0x88 0x0 0x70 [0x50],
      ControlOut 936 0x40 0x88 0x0 0x80 luminance_table,
      ControlOut 997 0x40 0x88 0x0 0xc0 chrominance_table,
      ControlOut 1026 0x40 0x88 0x0 0x70 [0x30],
      ControlOut 1001 0x40 0x88 0x0 0x73 [0x80],
      ControlOut 1029 0x40 0x88 0x0 0x7c [0x14],
      ControlOut 936 0x40 0x88 0x0 0x70 [0x30],
      ControlOut 981 0x40 0x88 0x0 0x28 [0x00],
      ControlOut 1084 0x40 0x88 0x0 0x73 [0x01],
      ControlOut 1006 0x40 0x88 0x0 0x5e [0x03],
      ControlOut 990 0x40 0x88 0x0 0x5e [0x07],
      ControlOut 920 0x40 0x88 0x0 0x70 [0x31],
      ControlOut 1046 0x40 0x88 0x0 0x0 [0x19],
      ControlIn 16148 0xc0 0x88 0x0 0x340 64,
      ControlIn 371 0xc0 0x88 0x0 0x340 64,
      ControlIn 3465 0xc0 0x88 0x0 0x2d 1,
      ControlIn 4062 0xc0 0x88 0x0 0x2e 1,
      ControlOut 2004 0x40 0x88 0x0 0x300 (command_block 0x00188010),
      ControlOut 21952 0x40 0x88 0x0 0x300 (command_block 0x00188010),
      ControlIn 225 0xc0 0x88 0x0 0x340 64,
      ControlIn 29833 0xc0 0x88 0x0 0x340 64,
      ControlOut 32030 0x40 0x88 0x0 0x300 (command_block 0x00791071),
      ControlIn 2902 0xc0 0x88 0x0 0x340 64,
      ControlIn 43024 0xc0 0x88 0x0 0x340 64,
      ControlIn 32031 0xc0 0x88 0x0 0x340 64,
      ControlIn 31030 0xc0 0x88 0x0 0x340 64,
      ControlIn 32009 0xc0 0x88 0x0 0x340 64]"

definition plan_ops_7 :: "init_op list" where
  "plan_ops_7 =
     [ControlIn 35004 0xc0 0x88 0x0 0x340 64,
      ControlIn 26987 0xc0 0x88 0x0 0x340 64,
      ControlIn 30996 0xc0 0x88 0x0 0x340 64,
      ControlIn 36068 0xc0 0x88 0x0 0x340 64,
      ControlIn 26897 0xc0 0x88 0x0 0x340 64,
      ControlIn 30037 0xc0 0x88 0x0 0x340 64,
      ControlIn 48050 0xc0 0x88 0x0 0x340 64,
      ControlIn 45892 0xc0 0x88 0x0 0x340 64,
      ControlIn 32056 0xc0 0x88 0x0 0x340 64,
      ControlIn 31004 0xc0 0x88 0x0 0x340 64,
      ControlIn 31001 0xc0 0x88 0x0 0x340 64,
      ControlOut 30978 0x40 0x88 0x0 0x300 (command_block 0x00891081),
      ControlIn 3022 0xc0 0x88 0x0 0x340 64,
      ControlIn 28999 0xc0 0x88 0x0 0x340 64,
      ControlIn 30975 0xc0 0x88 0x0 0x340 64,
      ControlIn 35057 0xc0 0x88 0x0 0x340 64,
      ControlIn 26976 0xc0 0x88 0x0 0x340 64,
      ControlIn 30982 0xc0 0x88 0x0 0x340 64,
      ControlIn 47069 0xc0 0x88 0x0 0x340 64,
      ControlIn 31944 0xc0 0x88 0x0 0x340 64,
      ControlIn 38979 0xc0 0x88 0x0 0x340 64,
      ControlIn 22980 0xc0 0x88 0x0 0x340 64,
      ControlIn 36059 0xc0 0x88 0x0 0x340 64,
      ControlIn 42068 0xc0 0x88 0x0 0x340 64,
      ControlIn 31902 0xc0 0x88 0x0 0x340 64,
      ControlIn 41951 0xc0 0x88 0x0 0x340 64,
      ControlOut 20042 0x40 0x88 0x0 0x300 (command_block 0x00991091),
      ControlIn 2988 0xc0 0x88 0x0 0x340 64]"

definition plan_ops_8 :: "init_op list" where
  "plan_ops_8 =
     [ControlIn 28035 0xc0 0x88 0x0 0x340 64,
      ControlIn 31994 0xc0 0x88 0x0 0x340 64,
      ControlIn 33131 0xc0 0x88 0x0 0x340 64,
      ControlIn 28882 0xc0 0x88 0x0 0x340 64,
      ControlIn 31002 0xc0 0x88 0x0 0x340 64,
      ControlIn 30989 0xc0 0x88 0x0 0x340 64,
      ControlIn 47087 0xc0 0x88 0x0 0x340 64,
      ControlIn 46866 0xc0 0x88 0x0 0x340 64,
      ControlIn 32012 0xc0 0x88 0x0 0x340 64,
      ControlIn 31009 0xc0 0x88 0x0 0x340 64,
      ControlIn 35025 0xc0 0x88 0x0 0x340 64,
      ControlIn 27051 0xc0 0x88 0x0 0x340 64,
      ControlIn 37946 0xc0 0x88 0x0 0x340 64,
      ControlIn 25112 0xc0 0x88 0x0 0x340 64,
      ControlIn 30906 0xc0 0x88 0x0 0x340 64,
      ControlOut 31011 0x40 0x88 0x0 0x300 (command_block 0x00a910a1),
      ControlIn 2920 0xc0 0x88 0x0 0x340 64,
      ControlIn 36038 0xc0 0x88 0x0 0x340 64,
      ControlIn 39048 0xc0 0x88 0x0 0x340 64,
      ControlIn 32021 0xc0 0x88 0x0 0x340 64,
      ControlIn 30881 0xc0 0x88 0x0 0x340 64,
      ControlIn 31068 0xc0 0x88 0x0 0x340 64,
      ControlIn 30942 0xc0 0x88 0x0 0x340 64,
      ControlIn 47017 0xc0 0x88 0x0 0x340 64,
      ControlIn 31007 0xc0 0x88 0x0 0x340 64,
      ControlIn 32028 0xc0 0x88 0x0 0x340 64,
      ControlIn 31005 0xc0 0x88 0x0 0x340 64]"

definition record_mode_ops :: "init_op list" where
  "record_mode_ops = plan_ops_1 @ plan_ops_2 @ plan_ops_3 @ plan_ops_4 @ plan_ops_5 @ plan_ops_6 @ plan_ops_7 @ plan_ops_8"

text \<open>
  What a row of fields gives: the fields are printable and parse to the numbers of the
  operation, and its data is the lower-case hexadecimal text of the bytes.
\<close>

definition printable :: "string \<Rightarrow> bool" where
  "printable s \<longleftrightarrow> list_all (\<lambda>c. 32 < (of_char c :: nat)) s"

definition plan_number :: "string \<Rightarrow> nat \<Rightarrow> nat \<Rightarrow> bool" where
  "plan_number value maximum n \<longleftrightarrow>
     n \<le> maximum \<and>
     (case strip_prefix ''0x'' value of
        Some rest \<Rightarrow> from_str_radix (2 ^ 64) 16 rest
      | None \<Rightarrow> from_str_radix (2 ^ 64) 10 value) = Some n"

fun row_gives :: "string list \<Rightarrow> init_op \<Rightarrow> bool" where
  "row_gives [d, t, r, v, i, n, data, frame] operation \<longleftrightarrow>
     list_all printable [d, t, r, v, i, n, data, frame] \<and> d \<noteq> [] \<and> hd d \<noteq> CHR ''#'' \<and>
     (case operation of
        ControlIn delay rt req va idx len \<Rightarrow>
          plan_number d 10000000 (unat delay) \<and> plan_number t 255 0xc0 \<and> plan_number r 255 0x88
          \<and> rt = 0xc0 \<and> req = 0x88
          \<and> plan_number v 65535 (unat va) \<and> plan_number i 65535 (unat idx) \<and> plan_number n 64 (unat len)
      | ControlOut delay rt req va idx bytes \<Rightarrow>
          plan_number d 10000000 (unat delay) \<and> plan_number t 255 0x40 \<and> plan_number r 255 0x88
          \<and> rt = 0x40 \<and> req = 0x88
          \<and> plan_number v 65535 (unat va) \<and> plan_number i 65535 (unat idx) \<and> plan_number n 64 (length bytes)
          \<and> data = hex_text bytes
      | SetInterface delay interface alternate \<Rightarrow>
          plan_number d 10000000 (unat delay) \<and> plan_number t 255 1 \<and> plan_number r 255 11
          \<and> interface = 0
          \<and> plan_number v 65535 (unat alternate) \<and> plan_number i 65535 0 \<and> plan_number n 64 0)"
| "row_gives _ operation \<longleftrightarrow> False"

lemma printable_no_separator:
  assumes "printable s"
  shows "tab \<notin> set s" "newline \<notin> set s" "carriage_return \<notin> set s"
  using assms by (auto simp: printable_def list_all_iff tab_def newline_def carriage_return_def)

lemma parse_bounded_number:
  "plan_number value (unat maximum) n \<Longrightarrow> parse_bounded line field value maximum = Inr (of_nat n)"
  using u64_bound [of maximum]
  by (auto simp: plan_number_def parse_bounded_def parse_u64_def word_less_nat_alt unat_of_nat)

lemma plan_number_bound: "plan_number value maximum n \<Longrightarrow> n \<le> maximum"
  by (simp add: plan_number_def)

lemma ucast_of_nat_unat [simp]:
  "ucast (of_nat (unat (x :: u8)) :: u64) = x" "ucast (of_nat (unat (y :: u16)) :: u64) = y"
  by (simp_all add: word_unat_eq_iff unat_of_nat unsigned_of_nat take_bit_eq_mod)

lemma u64_length_exists: "k \<le> 64 \<Longrightarrow> \<exists>a :: u64. k = unat a"
  by (rule exI [of _ "of_nat k"]) (simp add: unat_of_nat)

lemma u64_zero_exists: "\<exists>a :: u64. (unat a = 0 \<longrightarrow> a = 0) \<and> unat a = 0"
  by (rule exI [of _ 0]) simp

lemma parse_row_fields:
  assumes codec: "hex_codec hex_text hex_decode" and row: "row_gives fs operation"
  shows "parse_row hex_decode line (join_with tab fs) = Inr (Some operation)"
    and "newline \<notin> set (join_with tab fs)" and "carriage_return \<notin> set (join_with tab fs)"
proof -
  from row obtain d t r v i n data frame where fs: "fs = [d, t, r, v, i, n, data, frame]"
    by (cases "(fs, operation)" rule: row_gives.cases) auto
  have sep: "tab \<notin> set f \<and> newline \<notin> set f \<and> carriage_return \<notin> set f" if "f \<in> set fs" for f
    using row that printable_no_separator by (fastforce simp: fs)
  then show "newline \<notin> set (join_with tab fs)" "carriage_return \<notin> set (join_with tab fs)"
    by (auto simp: fs)
  have split: "split_on tab (join_with tab fs) = fs"
    by (rule split_on_join) (use sep in \<open>auto simp: fs\<close>)
  have start: "\<not> (join_with tab fs = [] \<or> hd (join_with tab fs) = CHR ''#'')"
    using row by (auto simp: fs)
  have decode: "hex_decode (hex_text bytes) = Inr bytes" for bytes
    using codec by (simp add: hex_codec_def)
  note numbers = parse_bounded_number [where maximum = 10000000, simplified]
    parse_bounded_number [where maximum = 255, simplified]
    parse_bounded_number [where maximum = 65535, simplified]
    parse_bounded_number [where maximum = 64, simplified]
  show "parse_row hex_decode line (join_with tab fs) = Inr (Some operation)"
    using row start unfolding parse_row_def split
    by (cases operation) (auto simp: fs Let_def numbers decode unat_of_nat
      dest: plan_number_bound intro!: u64_length_exists u64_zero_exists)
qed

text \<open>Evaluation of the rows.\<close>

lemma digit_chars:
  "digit_char 0 = CHR ''0''" "digit_char 1 = CHR ''1''" "digit_char (Suc 0) = CHR ''1''" "digit_char 2 = CHR ''2''" "digit_char 3 = CHR ''3''"
  "digit_char 4 = CHR ''4''" "digit_char 5 = CHR ''5''" "digit_char 6 = CHR ''6''" "digit_char 7 = CHR ''7''"
  "digit_char 8 = CHR ''8''" "digit_char 9 = CHR ''9''" "digit_char 10 = CHR ''a''" "digit_char 11 = CHR ''b''"
  "digit_char 12 = CHR ''c''" "digit_char 13 = CHR ''d''" "digit_char 14 = CHR ''e''" "digit_char 15 = CHR ''f''"
  by code_simp+

lemma hex_text_append: "hex_text (a @ b) = hex_text a @ hex_text b"
  by (induction a) simp_all

lemma hex_text_zeros: "hex_text (replicate n 0) = concat (replicate n ''00'')"
  by (induction n) (simp_all add: digit_chars)

lemma hex_text_block:
  "hex_text (command_block word) = ''000000000000000000000000000000000000000000000000000000000000000000000000000000000000000000000000000000000000000000000000'' @ hex_text (be_bytes 4 word)"
proof -
  have "concat (replicate COMMAND_WORD_OFFSET ''00'') = ''000000000000000000000000000000000000000000000000000000000000000000000000000000000000000000000000000000000000000000000000''" by code_simp
  then show ?thesis by (simp add: command_block_def hex_text_append hex_text_zeros)
qed

lemma tables_text:
  "hex_text luminance_table = ''100c0e0e121831480b0c0d111623405c0a0e101625374e5f1013181d38405762181a283344516770283a39576d687964333c4550677178673d37383e4d5c6563''"
  "hex_text chrominance_table = ''1112182f6363636312151a4263636363181a3863636363632f426363636363636363636363636363636363636363636363636363636363636363636363636363''"
  by (simp_all add: luminance_table_def chrominance_table_def digit_chars)

lemma tables_length: "length luminance_table = 64" "length chrominance_table = 64"
  by (simp_all add: luminance_table_def chrominance_table_def)

lemma block_length: "length (command_block word) = 64"
  by (simp add: command_block_def COMMAND_WORD_OFFSET_def)

lemma be_bytes_four: "be_bytes 4 (w :: u32) = [ucast (drop_bit 24 w), ucast (drop_bit 16 w), ucast (drop_bit 8 w), ucast w]"
  by (simp add: numeral_eq_Suc)

lemmas row_evaluation =
  plan_number_def printable_def strip_prefix_def from_str_radix_def to_digit_def digit_value_def Let_def digit_chars
  hex_text_block tables_text tables_length block_length be_bytes_four

lemma plan_chunk_1: "list_all2 row_gives plan_rows_1 plan_ops_1"
  unfolding plan_rows_1_def plan_ops_1_def by (simp add: row_evaluation)

lemma plan_chunk_2: "list_all2 row_gives plan_rows_2 plan_ops_2"
  unfolding plan_rows_2_def plan_ops_2_def by (simp add: row_evaluation)

lemma plan_chunk_3: "list_all2 row_gives plan_rows_3 plan_ops_3"
  unfolding plan_rows_3_def plan_ops_3_def by (simp add: row_evaluation)

lemma plan_chunk_4: "list_all2 row_gives plan_rows_4 plan_ops_4"
  unfolding plan_rows_4_def plan_ops_4_def by (simp add: row_evaluation)

lemma plan_chunk_5: "list_all2 row_gives plan_rows_5 plan_ops_5"
  unfolding plan_rows_5_def plan_ops_5_def by (simp add: row_evaluation)

lemma plan_chunk_6: "list_all2 row_gives plan_rows_6 plan_ops_6"
  unfolding plan_rows_6_def plan_ops_6_def by (simp add: row_evaluation)

lemma plan_chunk_7: "list_all2 row_gives plan_rows_7 plan_ops_7"
  unfolding plan_rows_7_def plan_ops_7_def by (simp add: row_evaluation)

lemma plan_chunk_8: "list_all2 row_gives plan_rows_8 plan_ops_8"
  unfolding plan_rows_8_def plan_ops_8_def by (simp add: row_evaluation)

subsection \<open>The plan that the program loads\<close>

lemma plan_rows_give: "list_all2 row_gives plan_rows record_mode_ops"
  unfolding plan_rows_def record_mode_ops_def
  by (intro list_all2_appendI plan_chunk_1 plan_chunk_2 plan_chunk_3 plan_chunk_4 plan_chunk_5 plan_chunk_6
      plan_chunk_7 plan_chunk_8)

lemma parse_rows_fields:
  assumes "hex_codec hex_text hex_decode" and "list_all2 row_gives rows ops"
  shows "parse_rows hex_decode line (map (join_with tab) rows) = Inr ops"
  using assms(2)
  by (induction arbitrary: line rule: list_all2_induct) (simp_all add: parse_row_fields(1) [OF assms(1)])

lemma header_is_comment:
  "hd (join_with tab plan_header) = CHR ''#''" "join_with tab plan_header \<noteq> []"
  "newline \<notin> set (join_with tab plan_header)" "carriage_return \<notin> set (join_with tab plan_header)"
  by (simp_all add: plan_header_def newline_def carriage_return_def tab_def)

lemma record_mode_plan_parses:
  assumes "hex_codec hex_text hex_decode"
  shows "parse_init_plan hex_decode RECORD_MODE_PLAN = Inr record_mode_ops"
proof -
  have "\<forall>row \<in> set plan_rows. newline \<notin> set (join_with tab row) \<and> carriage_return \<notin> set (join_with tab row)"
    using plan_rows_give parse_row_fields(2,3) [OF assms] by (metis in_set_conv_nth list_all2_conv_all_nth)
  then have "str_lines RECORD_MODE_PLAN = map (join_with tab) (plan_header # plan_rows)"
    unfolding RECORD_MODE_PLAN_def by (intro str_lines_unlines) (auto simp: header_is_comment)
  moreover have "parse_row hex_decode line (join_with tab plan_header) = Inr None" for line
    by (simp add: parse_row_def header_is_comment)
  ultimately show ?thesis
    using parse_rows_fields [OF assms plan_rows_give] by (simp add: parse_init_plan_def)
qed

end
