(* ===== verification/Record_Mode_Init.thy ===== *)
theory Record_Mode_Init
  imports Record_Mode_Plan Driver_Common "HOL-Library.Sublist"
begin

section \<open>What the embedded plan does\<close>

text \<open>
  The operations of the plan that the crate embeds, seen as the register writes, status reads and
  alternate settings they perform, and their replay: what a session opened with
  this plan has sent to the camera, and what the polling strategies change.
\<close>

subsection \<open>Reads, writes and alternate settings of a plan\<close>

fun op_alternates :: "init_op \<Rightarrow> (u8 \<times> u8) list" where
  "op_alternates (SetInterface d i a) = [(i, a)]"
| "op_alternates op = []"

fun op_writes :: "init_op \<Rightarrow> register_write list" where
  "op_writes (ControlOut d t r v i data) = [\<lparr>rw_index = i, rw_data = data\<rparr>]"
| "op_writes op = []"

fun op_reads :: "init_op \<Rightarrow> (u16 \<times> u16) list" where
  "op_reads (ControlIn d t r v i n) = [(i, n)]"
| "op_reads op = []"

abbreviation plan_alternates :: "init_op list \<Rightarrow> (u8 \<times> u8) list" where
  "plan_alternates plan \<equiv> concat (map op_alternates plan)"

abbreviation plan_writes :: "init_op list \<Rightarrow> register_write list" where
  "plan_writes plan \<equiv> concat (map op_writes plan)"

abbreviation plan_reads :: "init_op list \<Rightarrow> (u16 \<times> u16) list" where
  "plan_reads plan \<equiv> concat (map op_reads plan)"

text \<open>The data written to one register, in order.\<close>

definition written_to :: "u16 \<Rightarrow> init_op list \<Rightarrow> bytes list" where
  "written_to index plan = map rw_data (filter (\<lambda>w. rw_index w = index) (plan_writes plan))"

lemmas record_mode_ops_eval =
  record_mode_ops_def plan_ops_1_def plan_ops_2_def plan_ops_3_def plan_ops_4_def plan_ops_5_def plan_ops_6_def
  plan_ops_7_def plan_ops_8_def

lemma plan_statistics:
  "length record_mode_ops = 223"
  "length (plan_writes record_mode_ops) = 140"
  "length (plan_reads record_mode_ops) = 80"
  "plan_alternates record_mode_ops = [(0, 0), (0, 7), (0, 5)]"
  "sum_list (map op_delay_us record_mode_ops) = 2563101"
  by (simp_all add: record_mode_ops_eval)

text \<open>
  The embedded plan is the recorded one: whatever correct hexadecimal decoder is
  used, its text parses, to 223 operations with 140 writes, 80 reads and the alternate
  settings 0, 7 and 5 of interface 0, which wait 2563101 microseconds in all; the scale
  factor is written twice, first the reset value.
\<close>
theorem embedded_plan_statistics:
  assumes "hex_codec hex_text hex_decode"
  shows "\<exists>ops. record_mode_init_plan hex_decode RECORD_MODE_PLAN = Inr ops
    \<and> length ops = 223 \<and> length (plan_writes ops) = 140 \<and> length (plan_reads ops) = 80
    \<and> plan_alternates ops = [(0, 0), (0, 7), (0, 5)]
    \<and> sum_list (map op_delay_us ops) = 2563101
    \<and> written_to SCALE_FACTOR_INDEX ops = [[0x10], [0x14]]"
proof -
  have "written_to SCALE_FACTOR_INDEX record_mode_ops = [[0x10], [0x14]]"
    by (simp add: written_to_def record_mode_ops_eval SCALE_FACTOR_INDEX_def)
  then show ?thesis
    using record_mode_plan_parses [OF assms] plan_statistics by (simp add: record_mode_init_plan_def)
qed

theorem embedded_plan_statistics_witness:
  "\<exists>ops. record_mode_init_plan hex_pairs RECORD_MODE_PLAN = Inr ops
    \<and> length ops = 223 \<and> length (plan_writes ops) = 140 \<and> length (plan_reads ops) = 80
    \<and> plan_alternates ops = [(0, 0), (0, 7), (0, 5)]
    \<and> sum_list (map op_delay_us ops) = 2563101
    \<and> written_to SCALE_FACTOR_INDEX ops = [[0x10], [0x14]]"
  by (rule embedded_plan_statistics [OF hex_codec_text])

subsection \<open>Registers and tables\<close>

text \<open>
  A JPEG file lists a quantization table along the diagonals of its eight by eight block, the
  camera takes it column by column: \<open>diagonal s\<close> lists the (row, column) pairs of one
  diagonal in the order of the file.
\<close>

definition diagonal :: "nat \<Rightarrow> (nat \<times> nat) list" where
  "diagonal s =
     (let down = map (\<lambda>row. (row, s - row)) [s - 7 ..< min s 7 + 1]
      in if even s then rev down else down)"

definition zigzag :: "(nat \<times> nat) list" where
  "zigzag = concat (map diagonal [0 ..< 15])"

definition along_diagonals :: "bytes \<Rightarrow> bytes" where
  "along_diagonals table = map (\<lambda>(row, column). table ! (8 * column + row)) zigzag"

definition quantization_tables :: "bytes \<Rightarrow> bytes list" where
  "quantization_tables jpeg =
     (case read_segments (length jpeg) (drop 2 jpeg) of
        None \<Rightarrow> []
      | Some (segs, rest) \<Rightarrow> map snd (filter (\<lambda>(marker, data). marker = 0xdb) segs))"

lemma header_tables: "quantization_tables JPEG_HEADER = [0 # along_diagonals luminance_table, 1 # along_diagonals chrominance_table]"
  by code_simp

lemma plan_register_runs:
  "take 2 (drop 1 (plan_writes record_mode_ops)) = map register_write_from POWER_OFF_REGISTERS"
  "take 4 (drop 18 (plan_writes record_mode_ops)) = map register_write_from AUDIO_ON_REGISTERS"
  "take 25 (drop 53 (plan_writes record_mode_ops)) = map register_write_from (device_init_registers 0x3f 0x03 @ POWER_ON_REGISTERS)"
  by (simp_all add: record_mode_ops_eval register_write_from_def POWER_OFF_REGISTERS_def AUDIO_ON_REGISTERS_def
     POWER_ON_REGISTERS_def device_init_registers_def DEVICE_INIT_TEMPLATE_def)

lemma plan_commands:
  "written_to COMMAND_BLOCK_INDEX record_mode_ops
     = map command_block [0x00691061, 0x00188010, 0x00188010, 0x00791071, 0x00891081, 0x00991091, 0x00a910a1]"
  by (simp add: written_to_def record_mode_ops_eval COMMAND_BLOCK_INDEX_def)

lemma plan_tables:
  "written_to 0x80 record_mode_ops = [luminance_table, luminance_table]"
  "written_to 0xc0 record_mode_ops = [chrominance_table, chrominance_table]"
  by (simp_all add: written_to_def record_mode_ops_eval)

lemma plan_power_stage:
  "map op_delay_us (filter (\<lambda>op. op_writes op = [register_write_from (POWER_ON_REGISTERS ! 2)]) record_mode_ops)
     = [11977]"
  by (simp add: record_mode_ops_eval register_write_from_def POWER_ON_REGISTERS_def)

text \<open>Every reconstructed image declares the quantization tables of the header.\<close>

lemma reconstructed_tables:
  assumes "reconstruct_jpeg payload = Inr jpeg"
  shows "quantization_tables jpeg = quantization_tables JPEG_HEADER"
proof -
  obtain rest where jpeg: "jpeg = JPEG_HEADER @ rest"
    using assms by (auto simp: reconstruct_jpeg_def Let_def split: if_splits)
  obtain segs where segs: "read_segments 9 (drop 2 JPEG_HEADER) = Some (segs, [])"
    using header_reads by (auto split: option.splits)
  have "length JPEG_HEADER = 9 + 614" "length jpeg = 9 + (614 + length rest)"
    using header_start by (simp_all add: jpeg)
  then have "read_segments (length JPEG_HEADER) (drop 2 JPEG_HEADER) = Some (segs, [])"
    "read_segments (length jpeg) (drop 2 jpeg) = Some (segs, rest)"
    using read_segments_append [OF segs, of 614 "[]"] read_segments_append [OF segs, of "614 + length rest" rest]
    by (simp_all add: jpeg)
  then show ?thesis by (simp add: quantization_tables_def)
qed

subsection \<open>What the polling strategies change\<close>

text \<open>
  A plan compiled for a strategy: its operations, with a poll for a token in place of
  every run of status reads that the strategy replaces.
\<close>

function polled_plan :: "init_strategy \<Rightarrow> init_op list \<Rightarrow> (init_op + u8) list" where
  "polled_plan strategy [] = []"
| "polled_plan strategy (operation # plan) =
     Inl operation #
     (case polled_token strategy operation of
        Some token \<Rightarrow>
          if plan \<noteq> [] \<and> is_status_poll (hd plan)
          then Inr token # polled_plan strategy (dropWhile is_status_poll plan)
          else polled_plan strategy plan
      | None \<Rightarrow> polled_plan strategy plan)"
  by pat_completeness auto
termination
  by (relation "measure (\<lambda>(strategy, plan). length plan)")
    (auto simp: less_Suc_eq_le length_dropWhile_le)

definition perform_step :: "'d usb_ops \<Rightarrow> init_op + u8 \<Rightarrow> 'd \<Rightarrow> ((usb_transport_error + unit) \<times> 'd) option" where
  "perform_step ops step d =
     (case step of
        Inl operation \<Rightarrow> Some (perform_op ops operation d)
      | Inr token \<Rightarrow> map_option (map_prod (map_sum id (\<lambda>attempts. ())) id) (poll_status_acknowledgement ops token d))"

primrec perform_steps ::
  "'d usb_ops \<Rightarrow> (init_op + u8) list \<Rightarrow> 'd \<Rightarrow> ((usb_transport_error + unit) \<times> 'd) option" where
  "perform_steps ops [] d = Some (Inr (), d)"
| "perform_steps ops (step # steps) d =
     Option.bind (perform_step ops step d) (\<lambda>(r, d).
       case r of Inl e \<Rightarrow> Some (Inl e, d) | Inr _ \<Rightarrow> perform_steps ops steps d)"

lemma replay_list_polled: "replay_list ops strategy plan d = perform_steps ops (polled_plan strategy plan) d"
  by (induction ops strategy plan d rule: replay_list.induct)
    (auto simp: perform_step_def split: prod.splits sum.splits option.splits)

definition polls_of :: "(init_op + u8) list \<Rightarrow> u8 list" where
  "polls_of steps = concat (map (case_sum (\<lambda>_. []) (\<lambda>token. [token])) steps)"

definition operations_of :: "(init_op + u8) list \<Rightarrow> init_op list" where
  "operations_of steps = concat (map (case_sum (\<lambda>op. [op]) (\<lambda>_. [])) steps)"

lemma filter_dropWhile_status:
  "filter (\<lambda>op. \<not> is_status_poll op) (dropWhile is_status_poll plan) = filter (\<lambda>op. \<not> is_status_poll op) plan"
  by (induction plan) auto

lemma polled_plan_operations:
  "filter (\<lambda>op. \<not> is_status_poll op) (operations_of (polled_plan strategy plan))
     = filter (\<lambda>op. \<not> is_status_poll op) plan"
  by (induction strategy plan rule: polled_plan.induct)
    (auto simp: operations_of_def filter_dropWhile_status split: option.splits)

lemma polled_literal: "polled_plan LiteralReplay plan = map Inl plan"
  by (induction plan) (auto simp: polled_token_def acknowledgement_token_def split: option.splits)

lemma polls_of_simps [simp]:
  "polls_of [] = []" "polls_of (Inl op # steps) = polls_of steps" "polls_of (Inr token # steps) = token # polls_of steps"
  by (simp_all add: polls_of_def)

text \<open>The scan commands among the mailbox writes of the plan.\<close>

lemma startup_token_register [simp]:
  "startup_scan_token (ControlIn d t r v i n) = None" "startup_scan_token (SetInterface d j a) = None"
  "i \<noteq> COMMAND_BLOCK_INDEX \<Longrightarrow> startup_scan_token (ControlOut d t r v i data) = None"
  by (simp_all add: startup_scan_token_def)

lemma scan_ack_token_block:
  "scan_ack_token (command_block word) =
     (let command = be_bytes 4 word
      in if command ! 0 = 0 \<and> command ! 1 AND 0x0f = 0x09 \<and> command ! 2 = 0x10
            \<and> command ! 3 = (command ! 1 AND 0xf0) OR 0x01
         then Some (command ! 3) else None)"
  by (simp add: scan_ack_token_def command_block_def COMMAND_BLOCK_SIZE_def COMMAND_WORD_OFFSET_def list_ex_iff)

lemma startup_token_block:
  "startup_scan_token (ControlOut d t r v 0x300 (command_block 0x00691061)) = None"
  "startup_scan_token (ControlOut d t r v 0x300 (command_block 0x00188010)) = None"
  "startup_scan_token (ControlOut d t r v 0x300 (command_block 0x00791071)) = Some 0x71"
  "startup_scan_token (ControlOut d t r v 0x300 (command_block 0x00891081)) = Some 0x81"
  "startup_scan_token (ControlOut d t r v 0x300 (command_block 0x00991091)) = Some 0x91"
  "startup_scan_token (ControlOut d t r v 0x300 (command_block 0x00a910a1)) = Some 0xa1"
  by (simp_all add: startup_scan_token_def COMMAND_BLOCK_INDEX_def scan_ack_token_block be_bytes_four Let_def
      STARTUP_SCAN_TOKENS_def)

lemma status_polls [simp]:
  "is_status_poll (ControlIn d 0xc0 0x88 0 i n) \<longleftrightarrow> i = STATUS_INDEX \<and> n = 64"
  "\<not> is_status_poll (ControlOut d t r v i data)" "\<not> is_status_poll (SetInterface d j a)"
  by (simp_all add: is_status_poll_def)

lemma polled_plan_other [simp]:
  "startup_scan_token operation = None \<Longrightarrow>
     polled_plan strategy (operation # plan) = Inl operation # polled_plan strategy plan"
  by (simp add: polled_token_def)

lemma polled_plan_scan:
  "startup_scan_token operation = Some token \<Longrightarrow> acknowledgement_token strategy token = Some poll \<Longrightarrow>
     polled_plan strategy (operation # plan) =
       Inl operation #
       (if plan \<noteq> [] \<and> is_status_poll (hd plan) then Inr poll # polled_plan strategy (dropWhile is_status_poll plan)
        else polled_plan strategy plan)"
  by (simp add: polled_token_def)

declare polled_plan.simps(2) [simp del]

lemmas polled_record_mode =
  record_mode_ops_eval startup_token_block polled_plan_scan COMMAND_BLOCK_INDEX_def STATUS_INDEX_def acknowledgement_token_def

lemma polls_of_strategies:
  "polls_of (polled_plan ConditionPolling record_mode_ops) = STARTUP_SCAN_TOKENS"
  "polls_of (polled_plan PlaybackConditionPolling record_mode_ops) = map (\<lambda>token. token OR 0x08) STARTUP_SCAN_TOKENS"
  by (simp_all add: polled_record_mode STARTUP_SCAN_TOKENS_def)

lemma status_read_counts:
  "length (filter is_status_poll record_mode_ops) = 77"
  "length (filter is_status_poll (operations_of (polled_plan ConditionPolling record_mode_ops))) = 20"
  by (simp_all add: polled_record_mode operations_of_def)

text \<open>
  Property C26. With the embedded plan, semantic initialization replaces exactly four runs of
  status reads, 57 of the 77, by polling for the tokens of the four startup scan commands
  (playback initialization for the same tokens with bit 3 set), and literal replay performs
  the plan as it is: on every device, the replay is the execution of the plan compiled
  for its strategy, whose other operations are those of the plan in their order.
\<close>
theorem polling_replaces_startup_reads:
  "replay_initialization ops record_mode_ops strategy d = perform_steps ops (polled_plan strategy record_mode_ops) d
   \<and> filter (\<lambda>op. \<not> is_status_poll op) (operations_of (polled_plan strategy record_mode_ops))
       = filter (\<lambda>op. \<not> is_status_poll op) record_mode_ops
   \<and> polled_plan LiteralReplay record_mode_ops = map Inl record_mode_ops
   \<and> polls_of (polled_plan ConditionPolling record_mode_ops) = STARTUP_SCAN_TOKENS
   \<and> polls_of (polled_plan PlaybackConditionPolling record_mode_ops) = map (\<lambda>token. token OR 0x08) STARTUP_SCAN_TOKENS
   \<and> length (filter is_status_poll record_mode_ops) = 77
   \<and> length (filter is_status_poll (operations_of (polled_plan ConditionPolling record_mode_ops))) = 20"
  using polls_of_strategies status_read_counts
  by (simp add: replay_initialization_def replay_from_list replay_list_polled polled_plan_operations polled_literal)

end
