(* ===== verification/Plan_Session.thy ===== *)
theory Plan_Session
  imports Record_Mode_Init
begin

section \<open>A session opened with the embedded plan\<close>

text \<open>
  The effect of \<open>override_record_mode_scale_factor\<close> on the writes of a plan, and the whole opening of
  a session with the embedded plan: what \<open>load_plan\<close>, \<open>apply_quality\<close> and
  \<open>open_with_init_strategy\<close> together send to the camera.
\<close>

text \<open>The values written to the scale-factor register.\<close>

definition op_scale_values :: "init_op \<Rightarrow> u8 list" where
  "op_scale_values op =
     (case op of
        ControlOut _ _ _ _ index data \<Rightarrow> if index = SCALE_FACTOR_INDEX \<and> length data = 1 then [data ! 0] else []
      | _ \<Rightarrow> [])"

definition scale_values :: "init_op list \<Rightarrow> u8 list" where
  "scale_values plan = concat (map op_scale_values plan)"

lemma scale_values_rev: "scale_values (rev plan) = rev (scale_values plan)"
proof -
  have "rev (op_scale_values op) = op_scale_values op" for op
    by (cases op) (simp_all add: op_scale_values_def)
  then show ?thesis by (simp add: scale_values_def rev_concat rev_map comp_def)
qed

lemma override_reversed_effect:
  "override_reversed b ops = (found, ops') \<Longrightarrow>
     map op_alternates ops' = map op_alternates ops
     \<and> map (filter (\<lambda>w. rw_index w \<noteq> SCALE_FACTOR_INDEX) \<circ> op_writes) ops'
         = map (filter (\<lambda>w. rw_index w \<noteq> SCALE_FACTOR_INDEX) \<circ> op_writes) ops
     \<and> length ops' = length ops
     \<and> scale_values ops' = (if scale_values ops = [] then [] else b # tl (scale_values ops))
     \<and> (found \<longleftrightarrow> scale_values ops \<noteq> [])"
proof (induction ops arbitrary: ops')
  case (Cons op ops)
  show ?case
  proof (cases "is_scale_write op")
    case True
    then obtain d t r v c where "op = ControlOut d t r v SCALE_FACTOR_INDEX [c]"
      by (auto simp: is_scale_write_def length_Suc_conv split: init_op.splits)
    with Cons.prems True show ?thesis by (auto simp: scale_values_def op_scale_values_def)
  next
    case False
    then have "op_scale_values op = []"
      by (cases op) (auto simp: is_scale_write_def op_scale_values_def)
    with Cons False show ?thesis by (auto simp: scale_values_def split: prod.splits)
  qed
qed (simp add: scale_values_def)

lemma override_effect:
  assumes "override_record_mode_scale_factor plan factor = (found, plan')"
  shows "found \<longleftrightarrow> scale_values plan \<noteq> []" "plan_alternates plan' = plan_alternates plan"
    "filter (\<lambda>w. rw_index w \<noteq> SCALE_FACTOR_INDEX) (plan_writes plan') = filter (\<lambda>w. rw_index w \<noteq> SCALE_FACTOR_INDEX) (plan_writes plan)"
    "scale_values plan' = (if scale_values plan = [] then [] else butlast (scale_values plan) @ [scale_get factor])"
    "length plan' = length plan"
proof -
  obtain ops where ops: "override_reversed (scale_get factor) (rev plan) = (found, ops)" "plan' = rev ops"
    using assms by (auto simp: override_record_mode_scale_factor_def split: prod.splits)
  note effect = override_reversed_effect [OF ops(1)]
  have other: "filter (\<lambda>w. rw_index w \<noteq> SCALE_FACTOR_INDEX) (concat (map op_writes xs))
      = concat (map (filter (\<lambda>w. rw_index w \<noteq> SCALE_FACTOR_INDEX) \<circ> op_writes) xs)" for xs
    by (induction xs) simp_all
  show "found \<longleftrightarrow> scale_values plan \<noteq> []" using effect by (simp add: scale_values_rev)
  have "map op_alternates plan' = map op_alternates plan"
    using effect by (simp add: ops(2) rev_map [symmetric])
  then show "plan_alternates plan' = plan_alternates plan" by simp
  have "map (filter (\<lambda>w. rw_index w \<noteq> SCALE_FACTOR_INDEX) \<circ> op_writes) plan'
      = map (filter (\<lambda>w. rw_index w \<noteq> SCALE_FACTOR_INDEX) \<circ> op_writes) plan"
    using effect by (simp add: ops(2) rev_map [symmetric])
  then show "filter (\<lambda>w. rw_index w \<noteq> SCALE_FACTOR_INDEX) (plan_writes plan')
      = filter (\<lambda>w. rw_index w \<noteq> SCALE_FACTOR_INDEX) (plan_writes plan)"
    unfolding other by simp
  show "length plan' = length plan" using effect ops(2) by simp
  have "scale_values plan' = rev (scale_values ops)" by (simp add: ops(2) scale_values_rev)
  also have "\<dots> = (if scale_values plan = [] then [] else butlast (scale_values plan) @ [scale_get factor])"
    using effect by (simp add: scale_values_rev butlast_rev [symmetric])
  finally show "scale_values plan' = (if scale_values plan = [] then [] else butlast (scale_values plan) @ [scale_get factor])" .
qed

text \<open>What a successful opening has done to the device.\<close>

lemma opened_log:
  assumes "open_device_session devices open_device (logged ops) selector plan strategy (d, [])
      = Some (Inr device, d', log)"
  shows "log = ClaimCall True # plan_calls plan"
proof -
  obtain y d2 where claim: "replay_initialization (logged ops) plan strategy (d2, [ClaimCall True]) = Some (Inr y, d', log)"
    using assms
    by (auto simp: open_device_session_def logged_handle rbind_eq_Inl rbind_eq_Inr
        split: sum.splits prod.splits if_splits option.splits)
  then show ?thesis
    using logged_replay [of ops strategy plan d2 "[ClaimCall True]" "Inr y" d' log]
    by (auto simp: replay_initialization_def replay_from_list)
qed

definition call_alternates :: "usb_call list \<Rightarrow> (u8 \<times> u8) list" where
  "call_alternates calls = concat (map (\<lambda>c. case c of AlternateCall i a \<Rightarrow> [(i, a)] | _ \<Rightarrow> []) calls)"

lemma call_alternates_plan: "call_alternates (plan_calls plan) = plan_alternates plan"
proof (induction plan)
  case (Cons op plan)
  then show ?case by (cases op) (simp_all add: call_alternates_def)
qed (simp add: call_alternates_def)

lemma record_mode_scale_values: "scale_values record_mode_ops = [0x10, 0x14]"
  by (simp add: scale_values_def op_scale_values_def record_mode_ops_eval SCALE_FACTOR_INDEX_def)

lemma embedded_plan_loads:
  assumes "hex_codec hex_text hex_decode"
  shows "load_plan hex_decode RECORD_MODE_PLAN read_file_text None = (Inr record_mode_ops :: 'h app_error + init_op list)"
  using record_mode_plan_parses [OF assms] by (simp add: load_plan_def record_mode_init_plan_def)

text \<open>With the embedded plan, every quality in the documented range is applied.\<close>

lemma embedded_plan_quality:
  assumes "hex_codec hex_text hex_decode"
  shows "rbind (load_plan hex_decode RECORD_MODE_PLAN read_file_text None) (apply_quality quality)
     = ((case quality of
          None \<Rightarrow> Inr record_mode_ops
        | Some q \<Rightarrow> if 4 \<le> q \<and> q \<le> 128 then Inr (snd (override_record_mode_scale_factor record_mode_ops (ScaleFactor q)))
                  else Inl (ScaleFactorRange (ScaleFactorError q))) :: 'h app_error + init_op list)"
proof (cases quality)
  case (Some q)
  obtain found plan where over: "override_record_mode_scale_factor record_mode_ops (ScaleFactor q) = (found, plan)"
    by fastforce
  then have found using override_effect(1) [OF over] record_mode_scale_values by simp
  then show ?thesis
    using Some over
    by (simp add: embedded_plan_loads [OF assms] apply_quality_def scale_factor_new_def scale_MIN_def scale_MAX_def)
qed (simp add: embedded_plan_loads [OF assms] apply_quality_def)

text \<open>
  Property C19. A session that the commands open with the embedded plan and an optional quality
  has, whatever the strategy and whatever the device answers, claimed the interface once and sent
  exactly the writes of the recorded plan, with the quality, which is in its documented
  range, in place of the last scale factor and nothing else changed; and the last alternate
  setting it has selected is the streaming one, before any transfer is submitted.
\<close>
theorem session_of_embedded_plan:
  assumes codec: "hex_codec hex_text hex_decode"
    and loaded: "rbind (load_plan hex_decode RECORD_MODE_PLAN read_file_text None) (apply_quality quality)
      = (Inr plan :: 'h app_error + init_op list)"
    and opened: "open_device_session devices open_device (logged ops) selector plan strategy (d, [])
      = Some (Inr device, d', log)"
  shows "log = ClaimCall True # plan_calls plan
    \<and> call_alternates log = [(0, 0), (0, 7), (VIDEO_INTERFACE, VIDEO_ALT)]
    \<and> scale_values plan = [0x10, case quality of None \<Rightarrow> 0x14 | Some q \<Rightarrow> q]
    \<and> filter (\<lambda>w. rw_index w \<noteq> SCALE_FACTOR_INDEX) (plan_writes plan)
        = filter (\<lambda>w. rw_index w \<noteq> SCALE_FACTOR_INDEX) (plan_writes record_mode_ops)
    \<and> (case quality of None \<Rightarrow> plan = record_mode_ops | Some q \<Rightarrow> 4 \<le> q \<and> q \<le> 128)"
proof -
  note load = embedded_plan_loads [OF codec]
  have plan: "plan_alternates plan = plan_alternates record_mode_ops
    \<and> scale_values plan = [0x10, case quality of None \<Rightarrow> 0x14 | Some q \<Rightarrow> q]
    \<and> filter (\<lambda>w. rw_index w \<noteq> SCALE_FACTOR_INDEX) (plan_writes plan)
        = filter (\<lambda>w. rw_index w \<noteq> SCALE_FACTOR_INDEX) (plan_writes record_mode_ops)
    \<and> (case quality of None \<Rightarrow> plan = record_mode_ops | Some q \<Rightarrow> 4 \<le> q \<and> q \<le> 128)"
  proof (cases quality)
    case None
    then show ?thesis using loaded load record_mode_scale_values by (simp add: apply_quality_def)
  next
    case (Some q)
    have applied: "apply_quality (Some q) record_mode_ops = (Inr plan :: 'h app_error + init_op list)"
      using loaded Some by (simp add: load)
    then obtain factor where factor: "scale_factor_new q = Inr factor"
      by (cases "scale_factor_new q") (simp_all add: apply_quality_def rbind_def)
    obtain found plan' where over: "override_record_mode_scale_factor record_mode_ops factor = (found, plan')"
      by fastforce
    have "plan' = plan"
      using applied by (simp add: apply_quality_def factor over split: if_splits)
    moreover have "scale_get factor = q" "4 \<le> q" "q \<le> 128"
      using factor by (auto simp: scale_factor_new_def scale_MIN_def scale_MAX_def split: if_splits)
    ultimately show ?thesis
      using override_effect [OF over] Some record_mode_scale_values by simp
  qed
  note log = opened_log [OF opened]
  have "call_alternates log = plan_alternates plan"
    using call_alternates_plan [of plan] by (simp add: log call_alternates_def)
  then show ?thesis
    using log plan plan_statistics(4) by (simp add: VIDEO_INTERFACE_def VIDEO_ALT_def)
qed

lemma sample_literal_replay:
  "\<exists>d'. replay_list (logged sample_handle) LiteralReplay plan (d, log) = Some (Inr (), d', log @ plan_calls plan)"
proof (induction plan arbitrary: d log)
  case (Cons op plan)
  have "\<exists>d'. perform_op (logged sample_handle) op (d, log) = (Inr (), d', log @ op_calls op)"
    by (cases op) (simp_all add: perform_op_def logged_def sample_handle_def hbind_def usb_step_def usb_result_def)
  then obtain d1 where "perform_op (logged sample_handle) op (d, log) = (Inr (), d1, log @ op_calls op)" by blast
  moreover have "polled_token LiteralReplay op = None"
    by (simp add: polled_token_def acknowledgement_token_def split: option.split)
  ultimately show ?case using Cons.IH [of d1 "log @ op_calls op"] by simp
qed simp

text \<open>The sample camera, initialized with the embedded plan and quality 80.\<close>

lemma sample_embedded_session:
  obtains plan d' where "rbind (load_plan hex_pairs RECORD_MODE_PLAN (\<lambda>_. Inl ''none'') None) (apply_quality (Some 80))
      = (Inr plan :: string app_error + init_op list)"
    "open_device_session (Inr [sample_camera]) (\<lambda>_. Inr ()) (logged sample_handle)
       \<lparr>sel_bus = None, sel_ports = []\<rparr> plan LiteralReplay (0, []) = Some (Inr (sample_camera, [2]), d', [ClaimCall True] @ plan_calls plan)"
proof -
  note load = embedded_plan_loads [OF hex_codec_text]
  obtain found plan where over: "override_record_mode_scale_factor record_mode_ops (ScaleFactor 80) = (found, plan)"
    by fastforce
  have found using override_effect(1) [OF over] record_mode_scale_values by simp
  then have loaded: "rbind (load_plan hex_pairs RECORD_MODE_PLAN (\<lambda>_. Inl ''none'') None) (apply_quality (Some 80))
      = (Inr plan :: string app_error + init_op list)"
    by (simp add: load apply_quality_def scale_factor_new_def scale_MIN_def scale_MAX_def over)
  have io: "op_kernel_driver (logged sample_handle) i (d, log) = (Inl NOT_SUPPORTED, d, log)"
    "op_claim (logged sample_handle) i (d, log) = (Inr (), d, log @ [ClaimCall True])" for i d log
    by (simp_all add: logged_def sample_handle_def)
  obtain d' where "replay_initialization (logged sample_handle) plan LiteralReplay (0, [ClaimCall True])
      = Some (Inr (), d', [ClaimCall True] @ plan_calls plan)"
    using sample_literal_replay [of plan 0 "[ClaimCall True]"] by (auto simp: replay_initialization_def replay_from_list)
  then have run: "open_device_session (Inr [sample_camera]) (\<lambda>_. Inr ()) (logged sample_handle)
       \<lparr>sel_bus = None, sel_ports = []\<rparr> plan LiteralReplay (0, []) = Some (Inr (sample_camera, [2]), d', [ClaimCall True] @ plan_calls plan)"
    by (simp add: open_device_session_def sample_camera_selected usb_result_def io)
  show ?thesis by (rule that [OF loaded run])
qed

theorem session_of_embedded_plan_witness:
  "\<exists>plan d' log. rbind (load_plan hex_pairs RECORD_MODE_PLAN (\<lambda>_. Inl ''none'') None) (apply_quality (Some 80))
        = (Inr plan :: string app_error + init_op list)
    \<and> open_device_session (Inr [sample_camera]) (\<lambda>_. Inr ()) (logged sample_handle)
        \<lparr>sel_bus = None, sel_ports = []\<rparr> plan LiteralReplay (0, []) = Some (Inr (sample_camera, [2]), d', log)
    \<and> call_alternates log = [(0, 0), (0, 7), (0, 5)] \<and> scale_values plan = [0x10, 80]"
proof (rule sample_embedded_session)
  fix plan d'
  assume loaded: "rbind (load_plan hex_pairs RECORD_MODE_PLAN (\<lambda>_. Inl ''none'') None) (apply_quality (Some 80))
      = (Inr plan :: string app_error + init_op list)"
    and run: "open_device_session (Inr [sample_camera]) (\<lambda>_. Inr ()) (logged sample_handle)
       \<lparr>sel_bus = None, sel_ports = []\<rparr> plan LiteralReplay (0, []) = Some (Inr (sample_camera, [2]), d', [ClaimCall True] @ plan_calls plan)"
  show ?thesis
    using session_of_embedded_plan [OF hex_codec_text loaded run] loaded run
    by (auto simp: VIDEO_INTERFACE_def VIDEO_ALT_def)
qed

subsection \<open>The registers and tables a session has sent\<close>

text \<open>The override changes only operations that write the scale factor.\<close>

definition alike :: "init_op \<Rightarrow> init_op \<Rightarrow> bool" where
  "alike op op' \<longleftrightarrow> op' = op \<or> (is_scale_write op \<and> is_scale_write op')"

lemma override_alike: "override_record_mode_scale_factor plan factor = (found, plan') \<Longrightarrow> list_all2 alike plan plan'"
proof -
  have keep: "is_scale_write op \<Longrightarrow> is_scale_write (set_scale_data b op)" for b op
    by (cases op) (simp_all add: is_scale_write_def)
  have rev: "override_reversed b ops = (found', ops') \<Longrightarrow> list_all2 alike ops ops'" for b ops found' ops'
    by (induction ops arbitrary: ops')
      (auto simp: alike_def keep list_all2_refl split: if_splits prod.splits)
  assume "override_record_mode_scale_factor plan factor = (found, plan')"
  then obtain ops where "override_reversed (scale_get factor) (rev plan) = (found, ops)" "plan' = rev ops"
    by (auto simp: override_record_mode_scale_factor_def split: prod.splits)
  with rev [OF this(1)] show ?thesis by (simp add: list_all2_rev1)
qed

lemma alike_source: "list_all2 alike plan plan' \<Longrightarrow> op \<in> set plan' \<Longrightarrow> \<exists>op' \<in> set plan. alike op' op"
  by (induction rule: list_all2_induct) auto

definition alike_write :: "register_write \<Rightarrow> register_write \<Rightarrow> bool" where
  "alike_write w w' \<longleftrightarrow> w' = w \<or> (rw_index w = SCALE_FACTOR_INDEX \<and> rw_index w' = SCALE_FACTOR_INDEX)"

lemma alike_writes: "list_all2 alike plan plan' \<Longrightarrow> list_all2 alike_write (plan_writes plan) (plan_writes plan')"
proof (induction rule: list_all2_induct)
  case (Cons op plan op' plan')
  have "list_all2 alike_write (op_writes op) (op_writes op')"
    using Cons(1)
    by (cases op; cases op') (auto simp: alike_def alike_write_def is_scale_write_def)
  with Cons show ?case by (simp add: list_all2_appendI)
qed simp

lemma loaded_alike:
  assumes "hex_codec hex_text hex_decode"
    and "rbind (load_plan hex_decode RECORD_MODE_PLAN read_file_text None) (apply_quality quality)
      = (Inr plan :: 'h app_error + init_op list)"
  shows "list_all2 alike record_mode_ops plan"
proof (cases quality)
  case None
  then have "plan = record_mode_ops"
    using assms(2) unfolding embedded_plan_quality [OF assms(1)] by simp
  then show ?thesis by (simp add: alike_def list_all2_refl)
next
  case (Some q)
  then have "plan = snd (override_record_mode_scale_factor record_mode_ops (ScaleFactor q))"
    using assms(2) unfolding embedded_plan_quality [OF assms(1)] by (simp split: if_splits)
  then show ?thesis using override_alike by (metis prod.collapse)
qed

text \<open>The writes that a log shows, and the data sent to one register.\<close>

definition call_writes :: "usb_call list \<Rightarrow> register_write list" where
  "call_writes calls =
     concat (map (\<lambda>c. case c of WriteCall t r v i data \<Rightarrow> [\<lparr>rw_index = i, rw_data = data\<rparr>] | _ \<Rightarrow> []) calls)"

definition sent_to :: "u16 \<Rightarrow> usb_call list \<Rightarrow> bytes list" where
  "sent_to index calls = map rw_data (filter (\<lambda>w. rw_index w = index) (call_writes calls))"

lemma call_writes_plan: "call_writes (ClaimCall b # plan_calls plan) = plan_writes plan"
proof -
  have "call_writes (plan_calls plan) = plan_writes plan"
  proof (induction plan)
    case (Cons op plan)
    then show ?case by (cases op) (simp_all add: call_writes_def)
  qed (simp add: call_writes_def)
  then show ?thesis by (simp add: call_writes_def)
qed

lemma register_runs_split:
  "xs = take 1 xs @ take 2 (drop 1 xs) @ take 15 (drop 3 xs) @ take 4 (drop 18 xs) @ take 31 (drop 22 xs)
     @ take 25 (drop 53 xs) @ drop 78 xs"
proof -
  have "take n (drop k xs) @ drop (n + k) xs = drop k xs" for n k
    by (metis append_take_drop_id drop_drop)
  from this [of 25 53] this [of 31 22] this [of 4 18] this [of 15 3] this [of 2 1] this [of 1 0] show ?thesis by simp
qed

text \<open>The override leaves a beginning of the plan alone, when the rest writes the scale factor.\<close>

lemma override_reversed_append:
  "\<exists>op \<in> set xs. is_scale_write op \<Longrightarrow>
     override_reversed b (xs @ ys) = (case override_reversed b xs of (found, xs') \<Rightarrow> (found, xs' @ ys))"
proof (induction xs)
  case (Cons op xs)
  then show ?case by (cases "is_scale_write op") (simp_all split: prod.split)
qed simp

lemma override_keeps_prefix:
  assumes "\<exists>op \<in> set xs. is_scale_write op"
  shows "\<exists>xs'. snd (override_record_mode_scale_factor (ys @ xs) factor) = ys @ xs'"
  using override_reversed_append [of "rev xs" "scale_get factor" "rev ys"] assms
  by (auto simp: override_record_mode_scale_factor_def split: prod.splits)

definition plan_start :: "init_op list" where
  "plan_start = plan_ops_1 @ plan_ops_2 @ plan_ops_3 @ plan_ops_4"

lemma loaded_start:
  assumes "hex_codec hex_text hex_decode"
    and "rbind (load_plan hex_decode RECORD_MODE_PLAN read_file_text None) (apply_quality quality)
      = (Inr plan :: 'h app_error + init_op list)"
  shows "\<exists>rest. plan = plan_start @ rest"
proof -
  have split: "record_mode_ops = plan_start @ (plan_ops_5 @ plan_ops_6 @ plan_ops_7 @ plan_ops_8)"
    by (simp add: record_mode_ops_def plan_start_def)
  have "\<exists>op \<in> set (plan_ops_5 @ plan_ops_6 @ plan_ops_7 @ plan_ops_8). is_scale_write op"
    by (simp add: plan_ops_5_def plan_ops_6_def plan_ops_7_def plan_ops_8_def is_scale_write_def SCALE_FACTOR_INDEX_def)
  from override_keeps_prefix [OF this, of plan_start, folded split] show ?thesis
    using assms(2) unfolding embedded_plan_quality [OF assms(1)]
    by (cases quality) (auto simp: split split: if_splits)
qed

lemma plan_start_runs:
  "take 2 (drop 1 (plan_writes (plan_start @ rest))) = map register_write_from POWER_OFF_REGISTERS"
  "take 4 (drop 18 (plan_writes (plan_start @ rest))) = map register_write_from AUDIO_ON_REGISTERS"
  "take 25 (drop 53 (plan_writes (plan_start @ rest)))
     = map register_write_from (device_init_registers 0x3f 0x03 @ POWER_ON_REGISTERS)"
proof -
  have long: "78 \<le> length (plan_writes plan_start)"
    by (simp add: plan_start_def record_mode_ops_eval)
  have "plan_writes record_mode_ops = plan_writes plan_start @ plan_writes (plan_ops_5 @ plan_ops_6 @ plan_ops_7 @ plan_ops_8)"
    by (simp add: record_mode_ops_def plan_start_def)
  then have "take n (drop k (plan_writes (plan_start @ rest))) = take n (drop k (plan_writes record_mode_ops))"
    if "n + k \<le> 78" for n k
    using long that by simp
  from this [of 2 1] this [of 4 18] this [of 25 53] show
    "take 2 (drop 1 (plan_writes (plan_start @ rest))) = map register_write_from POWER_OFF_REGISTERS"
    "take 4 (drop 18 (plan_writes (plan_start @ rest))) = map register_write_from AUDIO_ON_REGISTERS"
    "take 25 (drop 53 (plan_writes (plan_start @ rest)))
       = map register_write_from (device_init_registers 0x3f 0x03 @ POWER_ON_REGISTERS)"
    unfolding plan_register_runs by simp_all
qed

text \<open>
  Property C28. A session that is open with the embedded plan, at any quality, with any strategy
  and on any device, has sent the camera the register sequences that the crate documents
  semantically, complete and in this order: powering off, enabling the audio, and the device
  initialization (with its two parameters \<open>0x3f\<close> and \<open>0x03\<close>) directly followed by
  powering on, before whose last stage the plan waits at least the documented delay. The
  quantization tables it has sent last are those that every image reconstructed from
  the camera's records declares, so images are decoded with the tables the camera encodes them with.
\<close>
theorem session_registers_and_tables:
  assumes codec: "hex_codec hex_text hex_decode"
    and loaded: "rbind (load_plan hex_decode RECORD_MODE_PLAN read_file_text None) (apply_quality quality)
      = (Inr plan :: 'h app_error + init_op list)"
    and opened: "open_device_session devices open_device (logged ops) selector plan strategy (d, [])
      = Some (Inr device, d', log)"
    and image: "reconstruct_jpeg payload = Inr jpeg"
  shows "(\<exists>ws1 ws2 ws3 ws4. call_writes log =
        ws1 @ map register_write_from POWER_OFF_REGISTERS
        @ ws2 @ map register_write_from AUDIO_ON_REGISTERS
        @ ws3 @ map register_write_from (device_init_registers 0x3f 0x03 @ POWER_ON_REGISTERS) @ ws4)
    \<and> (\<forall>op \<in> set plan. op_writes op = [register_write_from (POWER_ON_REGISTERS ! 2)] \<longrightarrow>
        POWER_ON_STAGE_DELAY_US \<le> op_delay_us op)
    \<and> quantization_tables jpeg =
        [0 # along_diagonals (last (sent_to 0x80 log)), 1 # along_diagonals (last (sent_to 0xc0 log))]"
proof -
  note same = loaded_alike [OF codec loaded]
  have log: "call_writes log = plan_writes plan"
    by (simp only: opened_log [OF opened] call_writes_plan)
  obtain rest where "plan = plan_start @ rest" using loaded_start [OF codec loaded] by blast
  then have runs: "take 2 (drop 1 (plan_writes plan)) = map register_write_from POWER_OFF_REGISTERS"
    "take 4 (drop 18 (plan_writes plan)) = map register_write_from AUDIO_ON_REGISTERS"
    "take 25 (drop 53 (plan_writes plan)) = map register_write_from (device_init_registers 0x3f 0x03 @ POWER_ON_REGISTERS)"
    by (simp_all only: plan_start_runs)
  have sent: "sent_to index log = written_to index record_mode_ops" if "index \<noteq> SCALE_FACTOR_INDEX" for index
  proof -
    have "list_all2 alike_write xs ys \<Longrightarrow>
        filter (\<lambda>w. rw_index w = index) ys = filter (\<lambda>w. rw_index w = index) xs" for xs ys
      by (induction rule: list_all2_induct) (use that in \<open>auto simp: alike_write_def\<close>)
    then show ?thesis using alike_writes [OF same] by (simp add: sent_to_def written_to_def log)
  qed
  have "POWER_ON_STAGE_DELAY_US \<le> op_delay_us op"
    if member: "op \<in> set plan" and stage: "op_writes op = [register_write_from (POWER_ON_REGISTERS ! 2)]" for op
  proof -
    obtain op' where op': "op' \<in> set record_mode_ops" "alike op' op"
      using alike_source [OF same member] by blast
    have "\<not> is_scale_write op"
      using stage by (cases op) (auto simp: is_scale_write_def register_write_from_def POWER_ON_REGISTERS_def SCALE_FACTOR_INDEX_def)
    then have "op \<in> set (filter (\<lambda>op. op_writes op = [register_write_from (POWER_ON_REGISTERS ! 2)]) record_mode_ops)"
      using op' stage by (auto simp: alike_def)
    then have "op_delay_us op \<in> set (map op_delay_us
        (filter (\<lambda>op. op_writes op = [register_write_from (POWER_ON_REGISTERS ! 2)]) record_mode_ops))" by auto
    then show ?thesis by (simp only: plan_power_stage) (simp add: POWER_ON_STAGE_DELAY_US_def)
  qed
  moreover have "quantization_tables jpeg =
      [0 # along_diagonals (last (sent_to 0x80 log)), 1 # along_diagonals (last (sent_to 0xc0 log))]"
    using plan_tables header_tables reconstructed_tables [OF image]
    by (simp add: sent SCALE_FACTOR_INDEX_def)
  moreover have "\<exists>ws1 ws2 ws3 ws4. call_writes log =
        ws1 @ map register_write_from POWER_OFF_REGISTERS
        @ ws2 @ map register_write_from AUDIO_ON_REGISTERS
        @ ws3 @ map register_write_from (device_init_registers 0x3f 0x03 @ POWER_ON_REGISTERS) @ ws4"
    using register_runs_split [of "plan_writes plan"] unfolding log runs by blast
  ultimately show ?thesis by blast
qed

theorem session_registers_and_tables_witness:
  "\<exists>plan d' log jpeg. open_device_session (Inr [sample_camera]) (\<lambda>_. Inr ()) (logged sample_handle)
        \<lparr>sel_bus = None, sel_ports = []\<rparr> plan LiteralReplay (0, []) = Some (Inr (sample_camera, [2]), d', log)
    \<and> reconstruct_jpeg [1] = Inr jpeg
    \<and> sublist (map register_write_from AUDIO_ON_REGISTERS) (call_writes log)
    \<and> quantization_tables jpeg =
        [0 # along_diagonals (last (sent_to 0x80 log)), 1 # along_diagonals (last (sent_to 0xc0 log))]"
proof (rule sample_embedded_session)
  fix plan d'
  assume loaded: "rbind (load_plan hex_pairs RECORD_MODE_PLAN (\<lambda>_. Inl ''none'') None) (apply_quality (Some 80))
      = (Inr plan :: string app_error + init_op list)"
    and run: "open_device_session (Inr [sample_camera]) (\<lambda>_. Inr ()) (logged sample_handle)
       \<lparr>sel_bus = None, sel_ports = []\<rparr> plan LiteralReplay (0, []) = Some (Inr (sample_camera, [2]), d', [ClaimCall True] @ plan_calls plan)"
  obtain jpeg where image: "reconstruct_jpeg [1] = Inr jpeg"
    using reconstruct_jpeg_nonzero [of "[1]"] by auto
  from session_registers_and_tables [OF hex_codec_text loaded run image] show ?thesis
    using run image by (metis append.assoc sublist_appendI)
qed

end
