(* ===== verification/Cli.thy ===== *)
theory Cli
  imports Capture Stream_Log Replay Transport Plan_Session
begin

section \<open>The program\<close>

text \<open>
  Model of \<open>main\<close>, \<open>Command\<close> and \<open>initialize_logging\<close> of \<open>crates/handycam-cli/src/main.rs\<close>: which
  command runs, with what log configuration, and the exit code. Parsing the command line is \<open>clap\<close>'s: the model starts
  with the parsed command. The texts for people of \<open>MonotonicTimestamp\<close> and of operations close the
  theory.
\<close>

subsection \<open>Arguments\<close>

datatype format_arg = MjpegArg | YuyvArg

primrec output_format_from :: "format_arg \<Rightarrow> output_format" where
  "output_format_from MjpegArg = Mjpeg"
| "output_format_from YuyvArg = Yuyv"

datatype log_format = TextLog | JsonLog

record log_args =
  la_log_format :: log_format
  la_verbose :: u8

datatype command =
    StreamCommand stream_args log_args
  | CaptureCommand capture_args log_args
  | ReplayCommand replay_args log_args
  | ReplayCaptureCommand replay_capture_args log_args
  | TransportCommand transport_args log_args

subsection \<open>Logging\<close>

definition default_filter :: "u8 \<Rightarrow> string" where
  "default_filter verbose =
     (if verbose = 0 then ''handycam=info,handycam_libusb=info''
      else if verbose = 1 then ''handycam=debug,handycam_libusb=debug''
      else ''debug'')"

text \<open>
  What the subscriber is initialized with: the representation, and the filter of the environment when it
  has a valid one. Logs go to standard error without their target.
\<close>

record 'f subscriber =
  sub_format :: log_format
  sub_filter :: 'f

definition initialize_logging ::
  "(string + 'f) \<Rightarrow> (string \<Rightarrow> 'f) \<Rightarrow> log_format \<Rightarrow> u8 \<Rightarrow> 'f subscriber" where
  "initialize_logging default_env filter_new log_format verbose =
     \<lparr>sub_format = log_format,
      sub_filter = (case default_env of Inl _ \<Rightarrow> filter_new (default_filter verbose) | Inr f \<Rightarrow> f)\<rparr>"

primrec command_logging :: "command \<Rightarrow> log_args" where
  "command_logging (StreamCommand args l) = l"
| "command_logging (CaptureCommand args l) = l"
| "command_logging (ReplayCommand args l) = l"
| "command_logging (ReplayCaptureCommand args l) = l"
| "command_logging (TransportCommand args l) = l"

subsection \<open>Running a command\<close>

text \<open>
  Everything the commands use from outside: the texts of errors, the hexadecimal decoder, the
  embedded plan, the file system, \<open>serde_json\<close>, the output of a capture and its surroundings, the surroundings
  of the streaming commands (a world \<open>'w\<close>) and the USB devices (a state \<open>'d\<close>). The last two bound the
  iterations of waits and of loops.
\<close>

record ('h, 'w, 'c, 'j, 'd) surroundings =
  su_text :: app_text
  su_hex :: "'h hex_decoder"
  su_embedded :: string
  su_read_text :: "string \<Rightarrow> string + string"
  su_driver :: "'w stream_ops"
  su_output :: "'c output_ops"
  su_capture :: "'c capture_env"
  su_origin :: nat
  su_ticks :: "capture_tick list"
  su_files :: replay_files
  su_json :: "'j json_ops"
  su_join :: "string \<Rightarrow> string \<Rightarrow> string"
  su_open_lines :: "string \<Rightarrow> string + (string + string) list"
  su_devices :: "usb_error + usb_device list"
  su_open_device :: "usb_device \<Rightarrow> usb_error + unit"
  su_usb :: "'d usb_ops"
  su_inner :: nat
  su_steps :: nat

text \<open>
  What a run leaves: the result with the lines it printed (\<open>None\<close> while it runs), the
  capture output, and the worlds.
\<close>

record ('h, 'w, 'c, 'd) outcome =
  oc_result :: "('h app_error + string list) option"
  oc_capture :: "'c option"
  oc_world :: 'w
  oc_usb :: 'd

definition silent :: "('h app_error + unit) option \<Rightarrow> ('h app_error + string list) option" where
  "silent r = map_option (map_sum id (\<lambda>_. [])) r"

definition run_command ::
  "('h, 'w, 'c, 'j, 'd) surroundings \<Rightarrow> command \<Rightarrow> 'w \<Rightarrow> 'd \<Rightarrow> ('h, 'w, 'c, 'd) outcome" where
  "run_command su cmd w d =
     (case cmd of
        StreamCommand args _ \<Rightarrow>
          (case run_stream (su_text su) (su_hex su) (su_embedded su) (su_read_text su) (su_driver su) args
                  (su_inner su) (su_steps su) w of
             (r, _, w) \<Rightarrow> \<lparr>oc_result = silent r, oc_capture = None, oc_world = w, oc_usb = d\<rparr>)
      | CaptureCommand args _ \<Rightarrow>
          (case run_capture (su_text su) (su_hex su) (su_embedded su) (su_output su) (su_capture su) args
                  (su_origin su) (su_ticks su) of
             (r, out) \<Rightarrow> \<lparr>oc_result = silent r, oc_capture = out, oc_world = w, oc_usb = d\<rparr>)
      | ReplayCommand args _ \<Rightarrow>
          (case run_replay (su_files su) (su_driver su) args (su_inner su) (su_steps su) w of
             (r, w) \<Rightarrow> \<lparr>oc_result = silent r, oc_capture = None, oc_world = w, oc_usb = d\<rparr>)
      | ReplayCaptureCommand args _ \<Rightarrow>
          (case run_replay_capture (su_json su) (su_join su) (su_open_lines su) (rf_read (su_files su))
                  (su_driver su) args (su_inner su) w of
             (r, _, w) \<Rightarrow> \<lparr>oc_result = silent r, oc_capture = None, oc_world = w, oc_usb = d\<rparr>)
      | TransportCommand args _ \<Rightarrow>
          (case run_transport (su_devices su) (su_open_device su) (su_usb su) args d of
             (r, d) \<Rightarrow>
               \<lparr>oc_result = Some (map_sum id (\<lambda>line. [line]) r), oc_capture = None, oc_world = w, oc_usb = d\<rparr>))"

datatype exit_code = Success | Failure

text \<open>
  \<open>main\<close>: the subscriber that is installed first, the exit code (\<open>None\<close> while the command runs) with the
  error that is logged, and what the command leaves.
\<close>

definition main_program ::
  "(string + 'f) \<Rightarrow> (string \<Rightarrow> 'f) \<Rightarrow> ('h, 'w, 'c, 'j, 'd) surroundings \<Rightarrow> command \<Rightarrow> 'w \<Rightarrow> 'd
   \<Rightarrow> 'f subscriber \<times> (exit_code \<times> 'h app_error option) option \<times> ('h, 'w, 'c, 'd) outcome" where
  "main_program default_env filter_new su cmd w d =
     (let subscriber = initialize_logging default_env filter_new
            (la_log_format (command_logging cmd)) (la_verbose (command_logging cmd));
          outcome = run_command su cmd w d
      in (subscriber,
          (case oc_result outcome of
             None \<Rightarrow> None
           | Some (Inr _) \<Rightarrow> Some (Success, None)
           | Some (Inl e) \<Rightarrow> Some (Failure, Some e)),
          outcome))"

subsection \<open>Arguments that are refused\<close>

text \<open>
  The argument errors of a command that uses the embedded plan: a quality that no scale factor has, and a
  sequence value of more than four bits.
\<close>

primrec default_plan :: "command \<Rightarrow> bool" where
  "default_plan (StreamCommand args l) \<longleftrightarrow> sa_init_plan args = None"
| "default_plan (CaptureCommand args l) \<longleftrightarrow> ca_init_plan args = None"
| "default_plan (ReplayCommand args l) \<longleftrightarrow> True"
| "default_plan (ReplayCaptureCommand args l) \<longleftrightarrow> True"
| "default_plan (TransportCommand args l) \<longleftrightarrow> True"

definition quality_error :: "u8 option \<Rightarrow> 'h app_error option" where
  "quality_error quality =
     (case quality of
        None \<Rightarrow> None
      | Some q \<Rightarrow> if unat q < 4 \<or> 128 < unat q then Some (ScaleFactorRange (ScaleFactorError q)) else None)"

primrec argument_error :: "command \<Rightarrow> 'h app_error option" where
  "argument_error (StreamCommand args l) = quality_error (sa_quality args)"
| "argument_error (CaptureCommand args l) = quality_error (ca_quality args)"
| "argument_error (ReplayCommand args l) = None"
| "argument_error (ReplayCaptureCommand args l) = None"
| "argument_error (TransportCommand args l) =
     (case ta_current_sequence args of
        None \<Rightarrow> None
      | Some n \<Rightarrow> if 15 < unat n then Some (InvalidTransportSequence n) else None)"

lemma quality_result:
  assumes "hex_codec hex_text hex_decode"
  shows "quality_error quality = Some e \<Longrightarrow>
      rbind (load_plan hex_decode RECORD_MODE_PLAN read_file_text None) (apply_quality quality) = (Inl e :: 'h app_error + init_op list)"
    and "(quality_error quality :: 'h app_error option) = None \<Longrightarrow>
      \<exists>plan. rbind (load_plan hex_decode RECORD_MODE_PLAN read_file_text None) (apply_quality quality) = (Inr plan :: 'h app_error + init_op list)"
  unfolding embedded_plan_quality [OF assms]
  by (auto simp: quality_error_def word_le_nat_alt split: option.splits if_splits)

lemma capture_setup_of_plan:
  "rbind (load_plan hex_decode embedded (ce_read_plan env) (ca_init_plan args)) (apply_quality (ca_quality args)) = Inl e \<Longrightarrow>
     capture_setup hex_decode embedded ops env args = Inl e"
  by (auto simp: capture_setup_def rbind_def split: sum.splits)

text \<open>
  Property C36. With the embedded plan, a command is refused for its arguments before it has any
  effect, or not at all. When the quality is outside 4 to 128, or the sequence value of a
  transport command has more than four bits, the program ends with the failure code and that
  error, prints nothing, creates no file and leaves camera and output worker untouched. Otherwise a
  stream or capture has a plan to initialize the camera with, and a dry run of a transport
  operation that has a command word ends with success after printing one line, without touching the
  camera. A status request has no command word and does not look at the flag: with or without
  it, the program reads the status of the camera.
\<close>

theorem program_checks_arguments:
  assumes "hex_codec hex_text (su_hex su)" and "su_embedded su = RECORD_MODE_PLAN" and "default_plan cmd"
  shows "case argument_error cmd of
      Some e \<Rightarrow> snd (main_program default_env filter_new su cmd w d)
        = (Some (Failure, Some e), \<lparr>oc_result = Some (Inl e), oc_capture = None, oc_world = w, oc_usb = d\<rparr>)
    | None \<Rightarrow>
        (case cmd of
           StreamCommand args l \<Rightarrow>
             \<exists>plan. stream_setup (su_hex su) (su_embedded su) (su_read_text su) args = (Inr plan :: 'h app_error + init_op list)
         | CaptureCommand args l \<Rightarrow>
             \<exists>plan. rbind (load_plan (su_hex su) (su_embedded su) (ce_read_plan (su_capture su)) (ca_init_plan args))
               (apply_quality (ca_quality args)) = (Inr plan :: 'h app_error + init_op list)
         | TransportCommand args l \<Rightarrow>
             (case action_command (ta_action args) of
                Some command \<Rightarrow> ta_dry_run args \<longrightarrow>
                  (\<exists>line. snd (main_program default_env filter_new su cmd w d)
                    = (Some (Success, None), \<lparr>oc_result = Some (Inr [line]), oc_capture = None, oc_world = w, oc_usb = d\<rparr>))
              | None \<Rightarrow>
                  (\<forall>dry. snd (main_program default_env filter_new su (TransportCommand (args\<lparr>ta_dry_run := dry\<rparr>) l) w d)
                    = snd (main_program default_env filter_new su cmd w d))
                  \<and> oc_usb (snd (snd (main_program default_env filter_new su cmd w d)))
                    = snd (read_camera_status (su_devices su) (su_open_device su) (su_usb su)
                        (case ta_usb_path args of None \<Rightarrow> \<lparr>sel_bus = None, sel_ports = []\<rparr> | Some path \<Rightarrow> path) d))
         | _ \<Rightarrow> True)"
proof (cases cmd)
  case (StreamCommand args l)
  show ?thesis
    using assms quality_result(1) [OF assms(1)] quality_result(2) [OF assms(1), of "sa_quality args" "su_read_text su"] StreamCommand
    by (auto simp: main_program_def Let_def run_command_def run_stream_def stream_setup_def silent_def split: option.split)
next
  case (CaptureCommand args l)
  note result = quality_result [OF assms(1)]
  show ?thesis
  proof (cases "quality_error (ca_quality args) :: 'h app_error option")
    case None
    then show ?thesis using assms result(2) CaptureCommand by simp
  next
    case (Some e)
    then have "capture_setup (su_hex su) (su_embedded su) (su_output su) (su_capture su) args = Inl e"
      using assms(2,3) CaptureCommand result(1) [OF Some] by (intro capture_setup_of_plan) simp
    then show ?thesis
      using Some CaptureCommand by (simp add: main_program_def Let_def run_command_def run_capture_def silent_def)
  qed
next
  case (TransportCommand args l)
  show ?thesis
  proof (cases "argument_error cmd :: 'h app_error option")
    case None
    note valid = this
    show ?thesis
    proof (cases "action_command (ta_action args)")
      case None
      then show ?thesis
        using TransportCommand valid
        by (auto simp: main_program_def Let_def run_command_def run_transport_def word_less_nat_alt
            split: option.splits prod.splits sum.splits if_splits)
    next
      case (Some command)
      then show ?thesis
        using TransportCommand valid
        by (auto simp: main_program_def Let_def run_command_def run_transport_def word_less_nat_alt
            split: option.splits prod.splits if_splits)
    qed
  next
    case (Some e)
    then show ?thesis
      using TransportCommand
      by (auto simp: main_program_def Let_def run_command_def run_transport_def word_less_nat_alt
          split: option.splits if_splits)
  qed
qed simp_all

text \<open>A dry run that succeeds, and a stream with a quality of 200.\<close>

definition sample_surroundings :: "(string, desk, cursor, unit, nat) surroundings" where
  "sample_surroundings =
     \<lparr>su_text = plain_text, su_hex = hex_pairs, su_embedded = RECORD_MODE_PLAN, su_read_text = (\<lambda>_. Inl ''none''),
      su_driver = desk_ops [], su_output = cursor_ops,
      su_capture = \<lparr>ce_read_plan = (\<lambda>_. Inl ''none''), ce_signals = Inr (), ce_open = (\<lambda>_ _. Inl NoCamera),
        ce_audio = Inr (), ce_create = Inr empty_cursor, ce_audio_stop = Inr ()\<rparr>,
      su_origin = 0, su_ticks = [],
      su_files = \<lparr>rf_is_dir = (\<lambda>_. False), rf_read_dir = (\<lambda>_. Inr []), rf_is_file = (\<lambda>_. False),
        rf_extension = (\<lambda>_. None), rf_read = (\<lambda>_. Inr [])\<rparr>,
      su_json = \<lparr>js_parse = (\<lambda>_. Inr ()), js_str = (\<lambda>_ _. None), js_u64 = (\<lambda>_ _. None)\<rparr>,
      su_join = (@), su_open_lines = (\<lambda>_. Inr []),
      su_devices = Inr [], su_open_device = (\<lambda>_. Inr ()), su_usb = sample_handle, su_inner = 1, su_steps = 1\<rparr>"

definition sample_dry_run :: command where
  "sample_dry_run = TransportCommand
     \<lparr>ta_action = PlayAction, ta_usb_path = None, ta_current_sequence = Some 3, ta_settle_ms = 500, ta_dry_run = True\<rparr>
     \<lparr>la_log_format = TextLog, la_verbose = 0\<rparr>"

definition sample_refused :: command where
  "sample_refused = StreamCommand
     \<lparr>sa_output = ''-'', sa_format = Mjpeg, sa_init_plan = None, sa_quality = Some 200, sa_semantic_init = False,
      sa_playback_init = False, sa_no_reconnect = False\<rparr>
     \<lparr>la_log_format = TextLog, la_verbose = 0\<rparr>"

theorem program_checks_arguments_witness:
  "(\<exists>line. snd (main_program (Inl ''unset'') id sample_surroundings sample_dry_run desk_initial 7)
      = (Some (Success, None :: string app_error option), \<lparr>oc_result = Some (Inr [line]), oc_capture = None, oc_world = desk_initial, oc_usb = 7\<rparr>))
   \<and> snd (main_program (Inl ''unset'') id sample_surroundings sample_refused desk_initial 7)
      = (Some (Failure, Some (ScaleFactorRange (ScaleFactorError 200) :: string app_error)),
         \<lparr>oc_result = Some (Inl (ScaleFactorRange (ScaleFactorError 200))), oc_capture = None, oc_world = desk_initial, oc_usb = 7\<rparr>)"
proof -
  have codec: "hex_codec hex_text (su_hex sample_surroundings)" "su_embedded sample_surroundings = RECORD_MODE_PLAN"
    by (simp_all add: sample_surroundings_def hex_codec_text)
  note checks = program_checks_arguments [OF codec, where default_env = "Inl ''unset''" and filter_new = id]
  have refused: "argument_error sample_dry_run = (None :: string app_error option)"
    "argument_error sample_refused = Some (ScaleFactorRange (ScaleFactorError 200) :: string app_error)"
    "default_plan sample_dry_run" "default_plan sample_refused"
    by (simp_all add: sample_dry_run_def sample_refused_def quality_error_def)
  have "\<exists>line. snd (main_program (Inl ''unset'') id sample_surroundings sample_dry_run desk_initial 7)
      = (Some (Success, None :: string app_error option), \<lparr>oc_result = Some (Inr [line]), oc_capture = None, oc_world = desk_initial, oc_usb = 7\<rparr>)"
    using checks [OF refused(3), of desk_initial 7] unfolding refused(1) option.case
    unfolding sample_dry_run_def command.case by simp
  then show ?thesis
    using checks [OF refused(4), of desk_initial 7] unfolding refused(2) option.case by (intro conjI)
qed

subsection \<open>Texts for people\<close>

text \<open>The \<open>Display\<close> of \<open>MonotonicTimestamp\<close> (\<open>crates/handycam-core/src/media.rs\<close>).\<close>

definition timestamp_display :: "monotonic_timestamp \<Rightarrow> string" where
  "timestamp_display t = decimal (unat (as_micros t)) @ ''us''"

text \<open>
  The \<open>Debug\<close> of \<open>InitOp\<close> (\<open>crates/handycam-core/src/init.rs\<close>), in the form of \<open>{:?}\<close>: it is written by
  hand so that the data of a write appear as their length only.
\<close>

definition debug_struct :: "string \<Rightarrow> (string \<times> string) list \<Rightarrow> string" where
  "debug_struct name members =
     name @ '' { '' @ concat (map (\<lambda>(i, field', v). (if i = 0 then [] else '', '') @ field' @ '': '' @ v)
       (enumerate 0 members)) @ '' }''"

definition hex_field :: "nat \<Rightarrow> nat \<Rightarrow> string" where
  "hex_field width n = ''0x'' @ padded 16 (width - 2) n"

primrec init_op_debug :: "init_op \<Rightarrow> string" where
  "init_op_debug (ControlIn delay_us request_type request value index len) =
     debug_struct ''ControlIn''
       [(''delay_us'', decimal (unat delay_us)), (''request_type'', hex_field 4 (unat request_type)),
        (''request'', hex_field 4 (unat request)), (''value'', hex_field 6 (unat value)),
        (''index'', hex_field 6 (unat index)), (''length'', decimal (unat len))]"
| "init_op_debug (ControlOut delay_us request_type request value index data) =
     debug_struct ''ControlOut''
       [(''delay_us'', decimal (unat delay_us)), (''request_type'', hex_field 4 (unat request_type)),
        (''request'', hex_field 4 (unat request)), (''value'', hex_field 6 (unat value)),
        (''index'', hex_field 6 (unat index)), (''length'', decimal (length data))]"
| "init_op_debug (SetInterface delay_us interface alternate) =
     debug_struct ''SetInterface''
       [(''delay_us'', decimal (unat delay_us)), (''interface'', decimal (unat interface)),
        (''alternate'', decimal (unat alternate))]"

lemma debug_hides_data:
  "length data = length data' \<Longrightarrow>
     init_op_debug (ControlOut delay_us t r v i data) = init_op_debug (ControlOut delay_us t r v i data')"
  by simp

lemma sample_debug:
  "init_op_debug (ControlOut 5 0x40 0x88 0 0x7c [0x14])
     = ''ControlOut { delay_us: 5, request_type: 0x40, request: 0x88, value: 0x0000, index: 0x007c, length: 1 }''"
  by code_simp

end
