(* ===== verification/Error_Texts.thy ===== *)
theory Error_Texts
  imports Cli
begin

section \<open>What the errors say\<close>

text \<open>
  The \<open>Display\<close> texts that \<open>thiserror\<close> derives from the \<open>#[error(...)]\<close> attributes of every
  error type of the program, the derived \<open>Debug\<close> of \<open>SessionEvent\<close>, and the message with which \<open>main\<close>
  logs a failed run. The texts of other crates' values are parameters, except where the model
  represents such a value by its text already (I/O errors, JPEG errors, pixel formats, codes of four
  characters). A path is displayed as it is.
\<close>

subsection \<open>Formatting\<close>

definition signed_decimal :: "int \<Rightarrow> string" where
  "signed_decimal i = (if i < 0 then CHR ''-'' # decimal (nat (- i)) else decimal (nat i))"

text \<open>
  \<open>{:?}\<close> of a string: quotes, with the escapes of the standard library for ASCII; the bytes of
  other characters stay, as they do for printable ones.
\<close>

definition debug_char :: "char \<Rightarrow> string" where
  "debug_char c =
     (let n = of_char c :: nat
      in if n = 0 then [CHR 0x5C, CHR ''0'']
         else if n = 9 then [CHR 0x5C, CHR ''t'']
         else if n = 10 then [CHR 0x5C, CHR ''n'']
         else if n = 13 then [CHR 0x5C, CHR ''r'']
         else if n = 34 \<or> n = 92 then [CHR 0x5C, c]
         else if n < 32 \<or> n = 127 then CHR 0x5C # ''u{'' @ show_radix 16 n @ ''}''
         else [c])"

definition debug_string :: "string \<Rightarrow> string" where
  "debug_string s = CHR 0x22 # concat (map debug_char s) @ [CHR 0x22]"

definition debug_pair :: "u16 \<times> u16 \<Rightarrow> string" where
  "debug_pair p = ''('' @ decimal (unat (fst p)) @ '', '' @ decimal (unat (snd p)) @ '')''"

primrec endpoint_debug :: "endpoint \<Rightarrow> string" where
  "endpoint_debug Boundary = ''Boundary''"
| "endpoint_debug Video = ''Video''"

text \<open>The texts of \<open>rusb\<close> and \<open>alsa\<close> errors by their codes, of a \<open>hex\<close> error and of an \<open>Instant\<close>.\<close>

record 'h foreign_texts =
  ft_usb :: "usb_error \<Rightarrow> string"
  ft_alsa :: "alsa_error \<Rightarrow> string"
  ft_hex :: "'h \<Rightarrow> string"
  ft_instant :: "nat \<Rightarrow> string"

subsection \<open>The core\<close>

primrec scale_factor_error_display :: "scale_factor_error \<Rightarrow> string" where
  "scale_factor_error_display (ScaleFactorError n) =
     ''Sony JPEG scale factor '' @ decimal (unat n) @ '' is outside the supported range 4..=128''"

primrec frame_conversion_error_display :: "frame_conversion_error \<Rightarrow> string" where
  "frame_conversion_error_display EmptyEntropy = ''Sony record contains no entropy payload''"
| "frame_conversion_error_display (Decode e) = ''JPEG decode failed: '' @ e"
| "frame_conversion_error_display MissingImageInfo = ''decoded JPEG has no image information''"
| "frame_conversion_error_display (Dimensions actual expected') =
     ''decoded JPEG dimensions are '' @ debug_pair actual @ '', expected '' @ debug_pair expected'"
| "frame_conversion_error_display (PixelFormat format) =
     ''decoded JPEG pixel format is '' @ format @ '', expected RGB24''"

primrec stream_decode_error_display :: "stream_decode_error \<Rightarrow> string" where
  "stream_decode_error_display (RecordTooLarge maximum) =
     ''Sony record exceeded configured maximum of '' @ decimal maximum @ '' bytes''"
| "stream_decode_error_display (FrameConversion e) = frame_conversion_error_display e"

primrec audio_packet_error_display :: "audio_packet_error \<Rightarrow> string" where
  "audio_packet_error_display (MisalignedLength n) =
     ''PCM byte length '' @ decimal n @ '' is not aligned to one stereo PCM16 sample frame''"
| "audio_packet_error_display (TooLarge n) =
     ''PCM byte length '' @ decimal n @ '' cannot be represented as one audio chunk''"

primrec audio_format_error_display :: "audio_format_error \<Rightarrow> string" where
  "audio_format_error_display ZeroSampleRate = ''audio sample rate must be non-zero''"
| "audio_format_error_display ZeroChannels = ''audio channel count must be non-zero''"

primrec synchronization_error_display :: "synchronization_error \<Rightarrow> string" where
  "synchronization_error_display (ObservationBeforeStreamStart start observed) =
     ''media observation '' @ timestamp_display observed @ '' precedes stream start '' @ timestamp_display start"

primrec init_plan_error_display :: "('h \<Rightarrow> string) \<Rightarrow> 'h init_plan_error \<Rightarrow> string" where
  "init_plan_error_display hex_message (FieldCount line count) =
     ''line '' @ decimal line @ '': expected 8 tab-separated fields, got '' @ decimal count"
| "init_plan_error_display hex_message (InvalidNumber line field value) =
     ''line '' @ decimal line @ '': invalid '' @ field @ '': '' @ value"
| "init_plan_error_display hex_message (InvalidHex line source) =
     ''line '' @ decimal line @ '': invalid hexadecimal payload: '' @ hex_message source"
| "init_plan_error_display hex_message (PayloadLength line expected' actual) =
     ''line '' @ decimal line @ '': payload length '' @ decimal actual @ '' does not match wLength '' @ decimal expected'"
| "init_plan_error_display hex_message (Unsupported line request_type request) =
     ''line '' @ decimal line @ '': unsupported request type='' @ hex_field 4 (unat request_type)
     @ '' request='' @ hex_field 4 (unat request)"

subsection \<open>The drivers\<close>

primrec usb_transport_error_display :: "(usb_error \<Rightarrow> string) \<Rightarrow> usb_transport_error \<Rightarrow> string" where
  "usb_transport_error_display usb_text (InvalidUsbPath path) =
     ''invalid USB path '' @ debug_string path @ ''; expected BUS-PORT[.PORT...]''"
| "usb_transport_error_display usb_text NoCamera = ''Sony camera 054c:00c0 is not connected''"
| "usb_transport_error_display usb_text (AmbiguousCamera paths) =
     ''multiple Sony cameras match; select one with --usb-path: '' @ paths"
| "usb_transport_error_display usb_text (Usb e) = ''USB operation failed: '' @ usb_text e"
| "usb_transport_error_display usb_text KernelDriverActive = ''interface 0 already has a kernel driver''"
| "usb_transport_error_display usb_text UnexpectedDescriptors =
     ''camera descriptors do not provide interface 0 alt 5 endpoints 0x81/0x82''"
| "usb_transport_error_display usb_text (ShortControlRead index expected' actual) =
     ''initialization control read index '' @ hex_field 6 (unat index) @ '' returned '' @ decimal actual
     @ '' bytes, expected '' @ decimal expected'"
| "usb_transport_error_display usb_text (ShortControlWrite index expected' actual) =
     ''initialization control write index '' @ hex_field 6 (unat index) @ '' wrote '' @ decimal actual
     @ '' bytes, expected '' @ decimal expected'"
| "usb_transport_error_display usb_text TransferAllocation = ''could not allocate an isochronous libusb transfer''"
| "usb_transport_error_display usb_text (TransferSubmission e) =
     ''could not submit an isochronous transfer: libusb error '' @ signed_decimal e"
| "usb_transport_error_display usb_text (EventHandling e) = ''libusb event handling failed: '' @ usb_text e"
| "usb_transport_error_display usb_text (StatusPollTimeout token last_status) =
     ''startup command token '' @ hex_field 4 (unat token) @ '' was not acknowledged within 500 ms (last status byte was ''
     @ hex_field 4 (unat last_status) @ '')''"

text \<open>The derived \<open>Debug\<close> of \<open>SessionEvent\<close>.\<close>

primrec session_event_debug :: "(nat \<Rightarrow> string) \<Rightarrow> session_event \<Rightarrow> string" where
  "session_event_debug instant_text (Packet endpoint data received_at) =
     debug_struct ''Packet''
       [(''endpoint'', endpoint_debug endpoint),
        (''data'', ''['' @ comma_separated (map (\<lambda>byte. decimal (unat byte)) data) @ '']''),
        (''received_at'', instant_text received_at)]"
| "session_event_debug instant_text (PacketError endpoint status) =
     debug_struct ''PacketError'' [(''endpoint'', endpoint_debug endpoint), (''status'', signed_decimal status)]"
| "session_event_debug instant_text (TransferFailed endpoint status) =
     debug_struct ''TransferFailed'' [(''endpoint'', endpoint_debug endpoint), (''status'', signed_decimal status)]"
| "session_event_debug instant_text (SubmitFailed endpoint error') =
     debug_struct ''SubmitFailed'' [(''endpoint'', endpoint_debug endpoint), (''error'', signed_decimal error')]"
| "session_event_debug instant_text CallbackPanicked = ''CallbackPanicked''"

primrec matroska_error_display :: "matroska_error \<Rightarrow> string" where
  "matroska_error_display (MatroskaIo e) = ''Matroska output failed: '' @ e"
| "matroska_error_display AudioFormatChanged = ''audio event format changed during capture''"
| "matroska_error_display (InvalidPcmLength expected' actual) =
     ''PCM payload has '' @ decimal actual @ '' bytes; expected '' @ decimal expected' @ '' from its format and sample count''"

primrec audio_capture_error_display :: "(alsa_error \<Rightarrow> string) \<Rightarrow> audio_capture_error \<Rightarrow> string" where
  "audio_capture_error_display alsa_text (Spawn e) = ''could not start arecord: '' @ e"
| "audio_capture_error_display alsa_text MissingStdout = ''arecord stdout was not piped''"
| "audio_capture_error_display alsa_text WorkerPanicked = ''audio capture worker panicked''"
| "audio_capture_error_display alsa_text (Alsa e) = ''ALSA operation failed: '' @ alsa_text e"
| "audio_capture_error_display alsa_text (UnexpectedRate expected' actual) =
     ''ALSA selected '' @ decimal (unat actual) @ '' Hz instead of the required '' @ decimal (unat expected') @ '' Hz''"
| "audio_capture_error_display alsa_text (UnexpectedPeriod expected' actual) =
     ''ALSA selected a period of '' @ signed_decimal (sint actual) @ '' frames instead of the required ''
     @ signed_decimal (sint expected')"

subsection \<open>The command line\<close>

primrec sink_io_display :: "sink_io_error \<Rightarrow> string" where
  "sink_io_display (BrokenPipe e) = e"
| "sink_io_display (OtherIo e) = e"

primrec sink_error_display :: "sink_error \<Rightarrow> string" where
  "sink_error_display (SinkConversion e) = ''frame conversion failed: '' @ frame_conversion_error_display e"
| "sink_error_display (SinkIo e) = ''output I/O failed: '' @ sink_io_display e"
| "sink_error_display NotOutputDevice =
     ''V4L2 node does not support single-planar video output and read/write I/O''"
| "sink_error_display (FormatRejected width height fourcc) =
     ''V4L2 rejected requested format; received '' @ decimal (unat width) @ ''x'' @ decimal (unat height) @ '' '' @ fourcc"
| "sink_error_display (ShortWrite actual required) =
     ''V4L2 accepted only '' @ decimal actual @ '' of '' @ decimal required @ '' frame bytes''"

primrec app_error_display :: "'h foreign_texts \<Rightarrow> 'h app_error \<Rightarrow> string" where
  "app_error_display texts (ReadPlan path source) =
     ''could not read initialization plan '' @ path @ '': '' @ source"
| "app_error_display texts (PlanError e) = ''invalid initialization plan: '' @ init_plan_error_display (ft_hex texts) e"
| "app_error_display texts (ScaleFactorRange e) = scale_factor_error_display e"
| "app_error_display texts MissingScaleFactorWrite =
     ''initialization plan has no configured scale-factor write at index 0x007c''"
| "app_error_display texts (SignalError e) = ''could not install signal handler: '' @ e"
| "app_error_display texts (ReadReplay path source) = ''could not read replay input '' @ path @ '': '' @ source"
| "app_error_display texts (NoReplayFrames path) = ''replay input '' @ path @ '' contains no JPEG files''"
| "app_error_display texts (InvalidReplayFrame path) = ''replay input '' @ path @ '' is not a complete JPEG image''"
| "app_error_display texts (ReplayMetadata line message) =
     ''invalid extracted-capture metadata at line '' @ decimal line @ '': '' @ message"
| "app_error_display texts (ReplayRange endpoint offset' end' len) =
     ''extracted endpoint '' @ endpoint @ '' range '' @ decimal offset' @ ''..'' @ decimal end' @ '' exceeds its ''
     @ decimal len @ ''-byte file''"
| "app_error_display texts (SinkError message) = ''output sink failed: '' @ message"
| "app_error_display texts SinkStopped = ''output sink stopped''"
| "app_error_display texts (UsbError e) = ''USB camera failed: '' @ usb_transport_error_display (ft_usb texts) e"
| "app_error_display texts (ProtocolError e) = ''video protocol failed: '' @ stream_decode_error_display e"
| "app_error_display texts SinkPanicked = ''output worker panicked''"
| "app_error_display texts (AudioError e) = ''audio capture failed: '' @ audio_capture_error_display (ft_alsa texts) e"
| "app_error_display texts (MatroskaError e) = ''Matroska capture failed: '' @ matroska_error_display e"
| "app_error_display texts (CreateCapture path source) =
     ''could not create capture output '' @ path @ '': '' @ source"
| "app_error_display texts AudioClosed = ''audio capture ended unexpectedly''"
| "app_error_display texts (AudioWorker message) = ''audio capture failed: '' @ message"
| "app_error_display texts NoCapturedAudio = ''capture stopped without receiving any audio periods''"
| "app_error_display texts NoCapturedVideo = ''capture stopped without receiving any video frames''"
| "app_error_display texts (InvalidTransportSequence n) =
     ''transport sequence '' @ decimal (unat n) @ '' is outside the four-bit range 0..=15''"

text \<open>The texts that the commands put into their messages.\<close>

definition program_texts :: "'h foreign_texts \<Rightarrow> app_text" where
  "program_texts texts =
     \<lparr>tx_event = session_event_debug (ft_instant texts), tx_sync = synchronization_error_display,
      tx_usb = usb_transport_error_display (ft_usb texts)\<rparr>"

text \<open>The message of \<open>error!(%error)\<close> in \<open>main\<close>.\<close>

definition logged_failure :: "'h foreign_texts \<Rightarrow> (exit_code \<times> 'h app_error option) option \<Rightarrow> string option" where
  "logged_failure texts exit = Option.bind exit (\<lambda>(code, e). map_option (app_error_display texts) e)"

subsection \<open>Lemmas\<close>

lemma sample_texts:
  "session_event_debug instant_text (TransferFailed Video 5) = ''TransferFailed { endpoint: Video, status: 5 }''"
  "usb_transport_error_display usb_text (ShortControlRead 0x340 64 8)
     = ''initialization control read index 0x0340 returned 8 bytes, expected 64''"
  "usb_transport_error_display usb_text (TransferSubmission (-4))
     = ''could not submit an isochronous transfer: libusb error -4''"
  "usb_transport_error_display usb_text (StatusPollTimeout 0x71 0)
     = ''startup command token 0x71 was not acknowledged within 500 ms (last status byte was 0x00)''"
  "frame_conversion_error_display (Dimensions (640, 480) (320, 240))
     = ''decoded JPEG dimensions are (640, 480), expected (320, 240)''"
  by code_simp+

text \<open>What an error of a plan says, after the number of the line.\<close>

primrec init_plan_error_detail :: "('h \<Rightarrow> string) \<Rightarrow> 'h init_plan_error \<Rightarrow> string" where
  "init_plan_error_detail hex_message (FieldCount line count) =
     ''expected 8 tab-separated fields, got '' @ decimal count"
| "init_plan_error_detail hex_message (InvalidNumber line field value) = ''invalid '' @ field @ '': '' @ value"
| "init_plan_error_detail hex_message (InvalidHex line source) = ''invalid hexadecimal payload: '' @ hex_message source"
| "init_plan_error_detail hex_message (PayloadLength line expected' actual) =
     ''payload length '' @ decimal actual @ '' does not match wLength '' @ decimal expected'"
| "init_plan_error_detail hex_message (Unsupported line request_type request) =
     ''unsupported request type='' @ hex_field 4 (unat request_type) @ '' request='' @ hex_field 4 (unat request)"

lemma init_plan_error_names_line:
  "init_plan_error_display hex_message e = ''line '' @ decimal (error_line e) @ '': '' @ init_plan_error_detail hex_message e"
  by (cases e) simp_all

lemma hex_field_newline [simp]: "newline \<notin> set (hex_field width n)"
  using show_radix_no_separator [of 16 newline n]
  by (auto simp: hex_field_def padded_def Let_def newline_def)

text \<open>The text of the plan that an error quotes: it comes from one line, so it has no line break.\<close>

primrec quoted_value :: "'h init_plan_error \<Rightarrow> string" where
  "quoted_value (FieldCount line count) = []"
| "quoted_value (InvalidNumber line field value) = field @ value"
| "quoted_value (InvalidHex line source) = []"
| "quoted_value (PayloadLength line expected' actual) = []"
| "quoted_value (Unsupported line request_type request) = []"

lemma detail_newline:
  "newline \<notin> set (quoted_value e) \<Longrightarrow> (\<And>h. newline \<notin> set (hex_message h)) \<Longrightarrow>
   newline \<notin> set (init_plan_error_detail hex_message e)"
  by (cases e) (auto simp: newline_def [symmetric], auto simp: newline_def)

lemma split_on_chars: "f \<in> set (split_on c s) \<Longrightarrow> set f \<subseteq> set s - {c}"
  by (induction s arbitrary: f) (auto split: if_splits list.splits, blast+)

lemma terminated_lines_chars: "l \<in> set (terminated_lines ls) \<Longrightarrow> \<exists>l' \<in> set ls. set l \<subseteq> set l'"
  by (induction ls) (auto simp: strip_cr_def split: if_splits dest: in_set_butlastD)

lemma str_lines_newline: "l \<in> set (str_lines s) \<Longrightarrow> newline \<notin> set l"
  using terminated_lines_chars [of l "split_on newline s"] split_on_chars [of _ newline s]
  by (auto simp: str_lines_def)

definition quotes_line :: "'h init_plan_error + 'a \<Rightarrow> bool" where
  "quotes_line r \<longleftrightarrow> (\<forall>e. r = Inl e \<longrightarrow> newline \<notin> set (quoted_value e))"

lemma quotes_line_intros [intro!]:
  "quotes_line (Inr a)"
  "quotes_line r \<Longrightarrow> (\<And>a. quotes_line (k a)) \<Longrightarrow> quotes_line (rbind r k)"
  by (auto simp: quotes_line_def rbind_eq_Inl)

lemma quotes_line_bounded:
  "newline \<notin> set field \<Longrightarrow> newline \<notin> set value \<Longrightarrow> quotes_line (parse_bounded line field value maximum)"
  by (auto simp: quotes_line_def parse_bounded_def parse_u64_def Let_def rbind_eq_Inl split: option.splits if_splits)

lemma row_fields_newline:
  "newline \<notin> set row \<Longrightarrow> i < length (split_on c row) \<Longrightarrow> newline \<notin> set (split_on c row ! i)"
  using split_on_chars [of "split_on c row ! i" c row] nth_mem by blast

lemma parse_row_quotes:
  assumes "newline \<notin> set row"
  shows "quotes_line (parse_row hex_decode line row)"
proof -
  have bounded: "quotes_line (parse_bounded line name (split_on tab row ! i) maximum)"
    if "length (split_on tab row) = 8" "i < 8" "newline \<notin> set name" for name i maximum
    using quotes_line_bounded [OF that(3) row_fields_newline [OF assms, of i tab]] that by simp
  have names: "newline \<notin> set ''delay_us''" "newline \<notin> set ''bmRequestType''" "newline \<notin> set ''bRequest''"
    "newline \<notin> set ''wValue''" "newline \<notin> set ''wIndex''" "newline \<notin> set ''wLength''"
    by (simp_all add: newline_def)
  have simple: "quotes_line (Inl (FieldCount l n))" "quotes_line (Inl (InvalidHex l h))"
    "quotes_line (Inl (PayloadLength l m n))" "quotes_line (Inl (Unsupported l a b))" for l n h m a b
    by (simp_all add: quotes_line_def)
  show ?thesis
    unfolding parse_row_def Let_def
    by (auto intro!: bounded names simple split: sum.splits)
qed

text \<open>The text of the plan file that a command reads.\<close>

definition read_if_ok :: "(string \<Rightarrow> string + string) \<Rightarrow> string option \<Rightarrow> string option" where
  "read_if_ok read_text path =
     (case path of None \<Rightarrow> None | Some p \<Rightarrow> (case read_text p of Inl _ \<Rightarrow> None | Inr text' \<Rightarrow> Some text'))"

lemma read_if_ok_Some: "read_if_ok read_text path = Some text' \<longleftrightarrow> (\<exists>p. path = Some p \<and> read_text p = Inr text')"
  by (auto simp: read_if_ok_def split: option.splits sum.splits)

definition plan_file_text :: "('h, 'w, 'c, 'j, 'd) surroundings \<Rightarrow> command \<Rightarrow> string option" where
  "plan_file_text su cmd =
     (case cmd of
        StreamCommand args _ \<Rightarrow> read_if_ok (su_read_text su) (sa_init_plan args)
      | CaptureCommand args _ \<Rightarrow> read_if_ok (ce_read_plan (su_capture su)) (ca_init_plan args)
      | _ \<Rightarrow> None)"

lemma rejected_plan_run:
  assumes "plan_file_text su cmd = Some text'" and "parse_init_plan (su_hex su) text' = Inl e"
  shows "snd (main_program default_env filter_new su cmd w d)
    = (Some (Failure, Some (PlanError e)),
       \<lparr>oc_result = Some (Inl (PlanError e)), oc_capture = None, oc_world = w, oc_usb = d\<rparr>)"
proof (cases cmd)
  case (StreamCommand args l)
  then obtain path where path: "sa_init_plan args = Some path" "su_read_text su path = Inr text'"
    using assms(1) by (auto simp: plan_file_text_def read_if_ok_Some)
  have "stream_setup (su_hex su) (su_embedded su) (su_read_text su) args = Inl (PlanError e)"
    by (simp add: stream_setup_def load_plan_def path assms(2))
  then show ?thesis
    using StreamCommand by (simp add: main_program_def Let_def run_command_def run_stream_def silent_def)
next
  case (CaptureCommand args l)
  then obtain path where path: "ca_init_plan args = Some path" "ce_read_plan (su_capture su) path = Inr text'"
    using assms(1) by (auto simp: plan_file_text_def read_if_ok_Some)
  have "capture_setup (su_hex su) (su_embedded su) (su_output su) (su_capture su) args = Inl (PlanError e)"
    by (rule capture_setup_of_plan) (simp add: load_plan_def path assms(2))
  then show ?thesis
    using CaptureCommand by (simp add: main_program_def Let_def run_command_def run_capture_def silent_def)
qed (use assms(1) in \<open>simp_all add: plan_file_text_def\<close>)

subsection \<open>Properties\<close>

text \<open>
  Property C37. A plan file that does not parse stops a stream or a capture before it has any effect: the program
  ends with the failure code, having printed nothing, created no file and touched neither camera nor output worker,
  and the one message that it logs is a single line, whatever the file holds, which names the number of the first
  line of the file that is wrong.
\<close>

theorem rejected_plan_reported:
  assumes "plan_file_text su cmd = Some text'" and "parse_init_plan (su_hex su) text' = Inl e"
    and "\<And>h. newline \<notin> set (ft_hex texts h)"
  shows "\<exists>i message detail. snd (main_program default_env filter_new su cmd w d)
      = (Some (Failure, Some (PlanError e)),
         \<lparr>oc_result = Some (Inl (PlanError e)), oc_capture = None, oc_world = w, oc_usb = d\<rparr>)
    \<and> logged_failure texts (fst (snd (main_program default_env filter_new su cmd w d))) = Some message
    \<and> message = ''invalid initialization plan: line '' @ decimal (i + 1) @ '': '' @ detail \<and> newline \<notin> set message
    \<and> i < length (str_lines text') \<and> isl (parse_row (su_hex su) (i + 1) (str_lines text' ! i))
    \<and> (\<forall>j < i. \<not> isl (parse_row (su_hex su) (j + 1) (str_lines text' ! j)))"
proof -
  obtain i where i: "i < length (str_lines text')" "error_line e = i + 1"
    "parse_row (su_hex su) (i + 1) (str_lines text' ! i) = Inl e"
    "\<forall>j < i. \<not> isl (parse_row (su_hex su) (j + 1) (str_lines text' ! j))"
    using parse_rows_Inl [OF assms(2) [unfolded parse_init_plan_def]] by auto
  have "newline \<notin> set (quoted_value e)"
    using parse_row_quotes [OF str_lines_newline [OF nth_mem [OF i(1)]], of "su_hex su" "i + 1"] i(3)
    by (simp add: quotes_line_def)
  then have "newline \<notin> set (init_plan_error_detail (ft_hex texts) e)"
    by (rule detail_newline) (rule assms(3))
  moreover have "newline \<notin> set ''invalid initialization plan: line ''" "newline \<notin> set '': ''"
    by (simp_all add: newline_def)
  ultimately show ?thesis
    using i rejected_plan_run [OF assms(1,2), of default_env filter_new w d]
    by (intro exI [of _ i] exI [of _ "app_error_display texts (PlanError e)"]
        exI [of _ "init_plan_error_detail (ft_hex texts) e"])
      (simp add: logged_failure_def init_plan_error_names_line)
qed

text \<open>A plan file whose second line has two fields.\<close>

definition broken_plan :: string where
  "broken_plan = ''# plan'' @ [newline] @ ''1 2''"

definition sample_stream_plan :: command where
  "sample_stream_plan = StreamCommand
     \<lparr>sa_output = ''-'', sa_format = Mjpeg, sa_init_plan = Some ''plan.tsv'', sa_quality = None, sa_semantic_init = False,
      sa_playback_init = False, sa_no_reconnect = False\<rparr>
     \<lparr>la_log_format = TextLog, la_verbose = 0\<rparr>"

definition sample_foreign :: "string foreign_texts" where
  "sample_foreign = \<lparr>ft_usb = (\<lambda>_. ''usb''), ft_alsa = (\<lambda>_. ''alsa''), ft_hex = (\<lambda>_. ''odd length''), ft_instant = (\<lambda>_. ''now'')\<rparr>"

theorem rejected_plan_reported_witness:
  "\<exists>detail. logged_failure sample_foreign (fst (snd (main_program (Inl ''unset'') id
        (sample_surroundings\<lparr>su_read_text := \<lambda>_. Inr broken_plan\<rparr>) sample_stream_plan desk_initial 7)))
      = Some (''invalid initialization plan: line 2: '' @ detail)"
proof -
  let ?su = "sample_surroundings\<lparr>su_read_text := \<lambda>_. Inr broken_plan\<rparr>"
  have lines: "str_lines broken_plan = [''# plan'', ''1 2'']" by code_simp
  have file': "plan_file_text ?su sample_stream_plan = Some broken_plan"
    by (simp add: plan_file_text_def sample_stream_plan_def read_if_ok_def)
  have parse: "parse_init_plan (su_hex ?su) broken_plan = Inl (FieldCount 2 1)"
    by (simp add: sample_surroundings_def) code_simp
  have hex: "\<And>h. newline \<notin> set (ft_hex sample_foreign h)" by (simp add: sample_foreign_def newline_def)
  have comment: "\<not> isl (parse_row (su_hex ?su) 1 ''# plan'')" by (simp add: parse_row_def)
  from rejected_plan_reported [OF file' parse hex, of "Inl ''unset''" id desk_initial 7]
  obtain i message detail where
    logged: "logged_failure sample_foreign (fst (snd (main_program (Inl ''unset'') id ?su sample_stream_plan desk_initial 7)))
      = Some message"
    and message: "message = ''invalid initialization plan: line '' @ decimal (i + 1) @ '': '' @ detail"
    and i: "i < length (str_lines broken_plan)" "isl (parse_row (su_hex ?su) (i + 1) (str_lines broken_plan ! i))"
    by (elim exE conjE)
  have "i = 1" using i comment unfolding lines by (cases i) auto
  moreover have "decimal (Suc (Suc 0)) = ''2''" by code_simp
  ultimately show ?thesis
    using message unfolding logged by (intro exI [of _ detail]) simp
qed

end
