(* ===== verification/Stream_Output.thy ===== *)
theory Stream_Output
  imports Stream_Log Frame_Channel
begin

section \<open>From the camera to the output\<close>

text \<open>
  The stream command together with its output worker: the frames of all its sessions, through the
  bounded channel, to what the worker writes, for every interleaving of the two threads.
\<close>

subsection \<open>The frames of a stream\<close>

lemma quiet_entries [simp]:
  "polled_of (TimeRead t # l) = polled_of l" "polled_of (Slept n # l) = polled_of l"
  "polled_of (Opened r # l) = polled_of l" "polled_of (SessionStopped # l) = polled_of l"
  "offers_of (Opened r # l) = offers_of l" "offers_of (SessionStopped # l) = offers_of l"
  by (simp_all add: polled_of_def offers_of_def)

lemma wait_until_quiet:
  "wait_until (logged_stream ops) steps deadline (w, l) = (r :: ('h app_error + bool) option, w', l') \<Longrightarrow>
   \<exists>l1. l' = l @ l1 \<and> offers_of l1 = [] \<and> polled_of l1 = [] \<and> opened l1 = 0"
proof (induction steps arbitrary: w l)
  case 0
  then show ?case by simp
next
  case (Suc steps)
  obtain t w1 where now: "dr_now ops w = (t, w1)" by fastforce
  obtain b w2 where stop: "dr_stopping ops w1 = (b, w2)" by fastforce
  obtain status w3 where status: "dr_try_recv_status ops w2 = (status, w3)" by fastforce
  let ?l1 = "[TimeRead t, StopRead False, StatusRead status, Slept 50000000]"
  show ?case
  proof (cases "t < deadline \<and> \<not> b \<and> (check_sink status :: ('h app_error + unit) option) = None")
    case True
    then have "wait_until (logged_stream ops) steps deadline (dr_sleep ops 50000000 w3, l @ ?l1) = (r, w', l')"
      using Suc.prems now stop status by simp
    from Suc.IH [OF this] obtain l2 where "l' = (l @ ?l1) @ l2" "offers_of l2 = []" "polled_of l2 = []" "opened l2 = 0"
      by blast
    then show ?thesis by (intro exI [of _ "?l1 @ l2"]) simp
  next
    case False
    then have "l' = l @ [TimeRead t] \<or> l' = l @ [TimeRead t, StopRead b] \<or> l' = l @ [TimeRead t, StopRead b, StatusRead status]"
      using Suc.prems now stop status by (auto split: if_splits option.splits bool.splits)
    then show ?thesis by auto
  qed
qed

lemma wait_quiet:
  assumes "wait_interruptibly (logged_stream ops) steps delay (w, l) = (r :: ('h app_error + bool) option, w', l')"
  shows "\<exists>l1. l' = l @ l1 \<and> offers_of l1 = [] \<and> polled_of l1 = [] \<and> opened l1 = 0"
proof -
  obtain t w1 where "dr_now ops w = (t, w1)" by fastforce
  with assms have "wait_until (logged_stream ops) steps (t + delay) (w1, l @ [TimeRead t]) = (r, w', l')"
    by (simp add: wait_interruptibly_def)
  from wait_until_quiet [OF this] obtain l1 where
    "l' = (l @ [TimeRead t]) @ l1" "offers_of l1 = []" "polled_of l1 = []" "opened l1 = 0" by blast
  then show ?thesis by (intro exI [of _ "[TimeRead t] @ l1"]) simp
qed

text \<open>
  The frames of sessions that handled these events, each with a decoder of its own, and the
  counts of their offers.
\<close>

definition session_frames :: "session_event list list \<Rightarrow> compressed_frame list" where
  "session_frames sessions = concat (map (\<lambda>events. fst (decoded_frames events decoder_new)) sessions)"

definition stream_frames :: "driver_log list \<Rightarrow> session_event list list \<Rightarrow> driver_stats \<Rightarrow> driver_stats \<Rightarrow> bool" where
  "stream_frames l sessions stats stats' \<longleftrightarrow>
     map fst (offers_of l) = session_frames sessions
     \<and> (\<exists>polled. concat polled = polled_of l \<and> list_all2 prefix sessions polled)
     \<and> length sessions = opened l
     \<and> ds_frames stats' = ds_frames stats + of_nat (length (filter (\<lambda>(f, r). r = SendOk) (offers_of l)))
     \<and> ds_queue_drops stats' = ds_queue_drops stats + of_nat (length (filter (\<lambda>(f, r). r = SendFull) (offers_of l)))"

lemma stream_frames_quiet:
  "offers_of l = [] \<Longrightarrow> polled_of l = [] \<Longrightarrow> opened l = 0 \<Longrightarrow> stream_frames l [] stats stats"
  by (auto simp: stream_frames_def session_frames_def)

lemma stream_frames_append:
  assumes "stream_frames l sessions stats stats1" and "stream_frames l' sessions' stats1 stats'"
  shows "stream_frames (l @ l') (sessions @ sessions') stats stats'"
proof -
  obtain polled polled' where "concat polled = polled_of l" "list_all2 prefix sessions polled"
    "concat polled' = polled_of l'" "list_all2 prefix sessions' polled'"
    using assms by (auto simp: stream_frames_def)
  then have "\<exists>p. concat p = polled_of (l @ l') \<and> list_all2 prefix (sessions @ sessions') p"
    by (intro exI [of _ "polled @ polled'"]) (simp add: list_all2_appendI)
  then show ?thesis using assms by (simp add: stream_frames_def session_frames_def opened_def add.assoc)
qed

lemma run_session_frames:
  assumes "run_session text (logged_stream ops) steps decoder_new stats (w, l)
      = (r :: ('h app_error + session_end) option, stats', w', l')"
  shows "\<exists>l1 events. l' = l @ l1 \<and> opened l1 = 0 \<and> stream_frames (Opened (Inr ()) # l1) [events] stats stats'"
proof -
  obtain past l1 where log: "l' = l @ l1" "session_handled text (polled_of l1) past (offers_of l1) r"
    "map fst (offers_of l1) = fst (decoded_frames past decoder_new)"
    "stats' = session_counts decoder_new past (offers_of l1) stats"
    using run_session_log [OF assms] by blast
  obtain l2 where "l' = l @ l2" "opened l2 = 0"
    using run_session_phases [OF assms, of 0] by blast
  then have quiet: "opened l1 = 0" using log(1) by simp
  have "prefix past (polled_of l1)"
    using log(2) by (auto simp: session_handled_def handled_def)
  then have "\<exists>polled. concat polled = polled_of l1 \<and> list_all2 prefix [past] polled"
    by (intro exI [of _ "[polled_of l1]"]) simp
  then show ?thesis
    using log quiet
    by (intro exI [of _ l1] exI [of _ past]) (simp add: stream_frames_def session_frames_def session_counts_def opened_def)
qed

lemma stream_loop_frames:
  "stream_loop text (logged_stream ops) plan strategy no_reconnect inner steps delay stats (w, l)
      = (exit :: 'h stream_exit, stats', w', l') \<Longrightarrow>
   \<exists>l1 sessions. l' = l @ l1 \<and> stream_frames l1 sessions stats stats'"
proof (induction steps arbitrary: delay stats w l)
  case 0
  then show ?case by (intro exI [of _ "[]"]) (auto intro: stream_frames_quiet)
next
  case (Suc steps)
  obtain b w1 where stop: "dr_stopping ops w = (b, w1)" by fastforce
  obtain status w2 where status: "dr_try_recv_status ops w1 = (status, w2)" by fastforce
  obtain answer w3 where tried: "st_open ops plan strategy w2 = (answer, w3)" by fastforce
  let ?read = "[StopRead False, StatusRead status]"
  have quiet: ?case if "l' = l @ l1" "offers_of l1 = []" "polled_of l1 = []" "opened l1 = 0" "stats' = stats" for l1
    using that stream_frames_quiet by blast
  consider "b \<or> (check_sink status :: ('h app_error + unit) option) \<noteq> None"
    | e where "\<not> b" "(check_sink status :: ('h app_error + unit) option) = None" "answer = Inl e"
        "\<not> (should_retry_open e \<and> \<not> no_reconnect)"
    | e where "\<not> b" "(check_sink status :: ('h app_error + unit) option) = None" "answer = Inl e"
        "should_retry_open e" "\<not> no_reconnect"
    | "\<not> b" "(check_sink status :: ('h app_error + unit) option) = None" "answer = Inr ()"
    by (cases answer) auto
  then show ?case
  proof cases
    case 1
    then have "(l' = l @ [StopRead True] \<or> l' = l @ ?read) \<and> stats' = stats"
      using Suc.prems stop status by (auto split: bool.splits)
    then show ?thesis using quiet [of "[StopRead True]"] quiet [of ?read] by auto
  next
    case (2 e)
    then show ?thesis
      using Suc.prems stop status tried by (intro quiet [of "?read @ [Opened (Inl e)]"]) auto
  next
    case (3 e)
    let ?l = "?read @ [Opened (Inl e)]"
    obtain r w4 l4 where wait: "wait_interruptibly (logged_stream ops) inner delay (w3, l @ ?l)
        = (r :: ('h app_error + bool) option, w4, l4)" by (metis prod_cases3)
    from wait_quiet [OF wait] obtain l1 where
      l1: "l4 = (l @ ?l) @ l1" "offers_of l1 = []" "polled_of l1 = []" "opened l1 = 0" by blast
    show ?thesis
    proof (cases "r = Some (Inr False)")
      case False
      then have "l' = l4" "stats' = stats"
        using Suc.prems stop status tried 3 wait by (auto split: option.splits sum.splits bool.splits)
      then show ?thesis using l1 by (intro quiet [of "?l @ l1"]) simp_all
    next
      case True
      then have "stream_loop text (logged_stream ops) plan strategy no_reconnect inner steps
          (next_retry_delay delay) stats (w4, l4) = (exit, stats', w', l')"
        using Suc.prems stop status tried 3 wait by simp
      from Suc.IH [OF this] obtain l2 sessions where "l' = l4 @ l2" "stream_frames l2 sessions stats stats'" by blast
      moreover have "stream_frames (?l @ l1) [] stats stats" using l1 by (intro stream_frames_quiet) simp_all
      ultimately show ?thesis
        using l1(1) stream_frames_append [of "?l @ l1" "[]" stats stats l2 sessions stats'] by fastforce
    qed
  next
    case 4
    let ?stats = "stats\<lparr>ds_reconnects := ds_reconnects stats + 1\<rparr>"
    obtain r s4 w4 l4 where session: "run_session text (logged_stream ops) inner decoder_new ?stats
        (w3, l @ ?read @ [Opened (Inr ())]) = (r :: ('h app_error + session_end) option, s4, w4, l4)"
      by (metis prod_cases4)
    from run_session_frames [OF session] obtain l1 events where
      l1: "l4 = (l @ ?read @ [Opened (Inr ())]) @ l1" "stream_frames (Opened (Inr ()) # l1) [events] ?stats s4"
      by blast
    let ?l1 = "?read @ Opened (Inr ()) # l1"
    have this_session: "stream_frames ?l1 [events] stats s4" "stream_frames (?l1 @ [SessionStopped]) [events] stats s4"
      using l1(2) by (simp_all add: stream_frames_def)
    show ?thesis
    proof (cases "r = None \<or> no_reconnect \<or> (\<nexists>reason. r = Some (Inr (SessionDisconnected reason)))")
      case True
      then have "(l' = l4 \<or> l' = l4 @ [SessionStopped]) \<and> stats' = s4"
        using Suc.prems stop status tried 4 session
        by (auto simp: Let_def split: option.splits sum.splits session_end.splits)
      then have "(l' = l @ ?l1 \<or> l' = l @ (?l1 @ [SessionStopped])) \<and> stats' = s4" using l1(1) by simp
      then show ?thesis using this_session by blast
    next
      case False
      then have "stream_loop text (logged_stream ops) plan strategy no_reconnect inner steps
          RETRY_DELAY s4 (st_stop ops w4, l4 @ [SessionStopped]) = (exit, stats', w', l')"
        using Suc.prems stop status tried 4 session by auto
      from Suc.IH [OF this] obtain l2 sessions where
        "l' = (l4 @ [SessionStopped]) @ l2" "stream_frames l2 sessions s4 stats'" by blast
      then show ?thesis
        using l1(1) stream_frames_append [OF this_session(2)]
        by (intro exI [of _ "(?l1 @ [SessionStopped]) @ l2"] exI [of _ "[events] @ sessions"]) simp
    qed
  qed
qed

lemma run_stream_frames:
  assumes "run_stream text hex_decode embedded read_file_text (logged_stream ops) args inner steps (w, [])
      = (result :: ('h app_error + unit) option, stats, w', l)"
  shows "\<exists>sessions. stream_frames l sessions driver_stats_default stats"
  using assms
proof (cases rule: run_stream_cases)
  case (refused e)
  then show ?thesis using stream_frames_quiet [of "[]"] by auto
next
  case (streamed plan w1 exit w2 joined)
  then show ?thesis using stream_loop_frames [OF streamed(1)] by auto
qed

subsection \<open>Both threads\<close>

text \<open>
  Property C10. From the camera to the output, for every interleaving of the stream command
  and its worker on their channel: each successful opening is a session whose handled events are
  a beginning of those it polled, the frames decoded from these events are each offered
  once and in order, and what the worker takes is a subsequence of them, at most one frame
  behind what has entered the channel. Frames are only lost by being refused while an earlier
  one still waits, and both counters are exact; a worker that has seen the end of the channel has taken
  every frame that was counted as delivered. On a standard output that is read, the worker
  writes the images of the frames it took, in order and without any framing.
\<close>

theorem stream_output_of_threads:
  assumes stream: "run_stream text hex_decode embedded read_file_text (logged_stream ops) args inner steps (w, [])
      = (result :: ('h app_error + unit) option, stats, w', l)"
    and threads: "channel_run FRAME_QUEUE trace sync_channel = Some c"
    and offers: "offered trace = offers_of l" "sent trace = []"
  shows "(\<exists>sessions polled. concat polled = polled_of l \<and> list_all2 prefix sessions polled
      \<and> length sessions = opened l \<and> map fst (offered trace) = session_frames sessions
      \<and> subseq (taken trace) (session_frames sessions))
    \<and> prefix (taken trace) (entered trace)
    \<and> (ch_receiver c \<longrightarrow> length (entered trace) \<le> length (taken trace) + 1)
    \<and> (SeeEnd \<in> set trace \<longrightarrow> taken trace = entered trace)
    \<and> (\<forall>before f later. trace = before @ TrySend f SendFull # later \<longrightarrow> length (entered before) = length (taken before) + 1)
    \<and> ds_frames stats = of_nat (length (entered trace))
    \<and> ds_queue_drops stats = of_nat (length (filter (\<lambda>(f, r). r = SendFull) (offered trace)))
    \<and> sink_worker message decoder pipe_ops device Stdout Mjpeg (taken trace) \<lparr>pi_bytes = [], pi_statuses = []\<rparr>
        = \<lparr>pi_bytes = concat (map fr_jpeg (taken trace)), pi_statuses = [SinkReady, SinkClosed]\<rparr>"
proof -
  obtain sessions where frames: "stream_frames l sessions driver_stats_default stats"
    using run_stream_frames [OF stream] by blast
  note inv = channel_run_inv [OF threads, unfolded channel_inv_def FRAME_QUEUE_def]
  have taken: "prefix (taken trace) (entered trace)" using inv by (meson append_prefixD)
  then have "subseq (taken trace) (map fst (offered trace))"
    using entered_subseq [OF offers(2)] by (meson prefix_imp_subseq subseq_order.trans)
  moreover have "length (entered trace) \<le> length (taken trace) + 1" if "ch_receiver c" using inv that by simp
  moreover have "length (entered before) = length (taken before) + 1" if "trace = before @ TrySend f SendFull # later"
    for before f later using full_means_waiting [of FRAME_QUEUE before f later c] threads that by (simp add: FRAME_QUEUE_def)
  ultimately show ?thesis
    using frames taken inv offers entered_offers [OF offers(2)]
    by (auto simp: stream_frames_def driver_stats_default_def stdout_worker_pipe convertible_mjpeg)
qed

subsection \<open>A desk where both threads run\<close>

lemma desk_events:
  "\<forall>event \<in> set evs. \<not> ends_session event \<Longrightarrow>
     fst (stream_events text (logged_stream (desk_ops events)) evs decoder stats (d, l)) = None
     \<and> snd (snd (snd (stream_events text (logged_stream (desk_ops events)) evs decoder stats (d, l))))
       = (d, l @ map (\<lambda>f. Offered (f, SendOk)) (fst (decoded_frames evs decoder)))"
proof (induction evs arbitrary: decoder stats l)
  case (Cons event evs)
  then show ?case
    by (cases event)
      (auto simp: stream_event_def offer_frame_def ends_session_def Let_def
        split: prod.split sum.split option.split)
qed simp

lemma desk_busy_session:
  assumes "dk_polls d = 0" and "3 \<le> steps" and "\<forall>event \<in> set events. \<not> ends_session event"
  shows "\<exists>stats' l1. run_session text (logged_stream (desk_ops events)) steps decoder stats (d, l)
    = (Some (Inr Stopped) :: ('h app_error + session_end) option, stats', d\<lparr>dk_polls := 2\<rparr>, l1)
    \<and> offers_of l1 = offers_of l @ map (\<lambda>f. (f, SendOk)) (fst (decoded_frames events decoder))"
proof -
  obtain n where n: "steps = Suc (Suc (Suc n))"
    using assms(2) by (metis Suc_le_D numeral_3_eq_3 Suc_le_mono)
  let ?l = "l @ [StopRead False, StatusRead Empty, Polled (Inr events)]"
  let ?frames = "fst (decoded_frames events decoder)"
  obtain decoder' stats' where
    busy: "stream_events text (logged_stream (desk_ops events)) events decoder stats (d\<lparr>dk_polls := Suc 0\<rparr>, ?l)
      = (None, decoder', stats', d\<lparr>dk_polls := Suc 0\<rparr>, ?l @ map (\<lambda>f. Offered (f, SendOk)) ?frames)"
    using desk_events [OF assms(3), of "text" events decoder stats "d\<lparr>dk_polls := Suc 0\<rparr>" ?l]
    by (metis prod.collapse)
  have "offers_of (map (\<lambda>f. Offered (f, SendOk)) fs) = map (\<lambda>f. (f, SendOk)) fs" for fs
    by (induction fs) simp_all
  then show ?thesis
    unfolding n run_session.simps using assms(1) busy
    by (simp add: check_sink_def)
qed

lemma desk_busy_stream:
  assumes "\<forall>event \<in> set events. \<not> ends_session event"
  shows "\<exists>stats d l. run_stream plain_text (\<lambda>_. Inl ''none'') [] (\<lambda>_. Inl ''none'') (logged_stream (desk_ops events))
      desk_args 20 3 (desk_initial, []) = (Some (Inr ()) :: (string app_error + unit) option, stats, d, l)
    \<and> offers_of l = map (\<lambda>f. (f, SendOk)) (fst (decoded_frames events decoder_new))"
proof -
  let ?ops = "logged_stream (desk_ops events)" and ?l = "[StopRead False, StatusRead Empty, Opened (Inl NoCamera), TimeRead 0]"
  let ?d = "desk_initial\<lparr>dk_opens := 1, dk_time := 500000000\<rparr>"
  obtain l1 where wait: "wait_interruptibly ?ops 20 500000000 (desk_initial\<lparr>dk_opens := 1\<rparr>, butlast ?l)
      = (Some (Inr False) :: (string app_error + bool) option, ?d, l1)"
    using desk_wait [of "desk_initial\<lparr>dk_opens := 1\<rparr>" 500000000 10 20 events ?l]
    by (auto simp: wait_interruptibly_def desk_initial_def)
  have quiet: "offers_of l1 = []" using wait_quiet [OF wait] by auto
  let ?stats = "driver_stats_default\<lparr>ds_reconnects := 1\<rparr>"
  obtain stats2 l2 where session: "run_session plain_text ?ops 20 decoder_new ?stats
      (?d\<lparr>dk_opens := Suc (Suc 0)\<rparr>, l1 @ [StopRead False, StatusRead Empty, Opened (Inr ())])
      = (Some (Inr Stopped) :: (string app_error + session_end) option, stats2, ?d\<lparr>dk_opens := Suc (Suc 0), dk_polls := 2\<rparr>, l2)"
    "offers_of l2 = map (\<lambda>f. (f, SendOk)) (fst (decoded_frames events decoder_new))"
    using desk_busy_session [OF _ _ assms, of "?d\<lparr>dk_opens := Suc (Suc 0)\<rparr>" 20 plain_text decoder_new ?stats
        "l1 @ [StopRead False, StatusRead Empty, Opened (Inr ())]"] quiet
    by (auto simp: desk_initial_def)
  have three: "3 = Suc (Suc (Suc 0))" by simp
  show ?thesis
    unfolding run_stream_def three stream_loop.simps using wait session
    by (simp add: stream_setup_def load_plan_def record_mode_init_plan_def parse_init_plan_def str_lines_def
        desk_args_def apply_quality_def choose_strategy_def check_sink_def wait_for_sink_def
        should_retry_open_def RETRY_DELAY_def desk_initial_def driver_stats_default_def)
qed

text \<open>An interleaving in which the worker takes every frame at once and sees the end.\<close>

definition prompt_trace :: "compressed_frame list \<Rightarrow> channel_event list" where
  "prompt_trace frames = concat (map (\<lambda>f. [TrySend f SendOk, Take f]) frames) @ [DropSender, SeeEnd]"

lemma prompt_trace_runs:
  "channel_run FRAME_QUEUE (prompt_trace frames) sync_channel = Some \<lparr>ch_queue = [], ch_sender = False, ch_receiver = False\<rparr>"
  by (induction frames) (simp_all add: prompt_trace_def sync_channel_def FRAME_QUEUE_def)

lemma prompt_trace_views:
  "offered (prompt_trace frames) = map (\<lambda>f. (f, SendOk)) frames" "sent (prompt_trace frames) = []"
  "taken (prompt_trace frames) = frames" "SeeEnd \<in> set (prompt_trace frames)"
  by (induction frames) (simp_all add: prompt_trace_def)

theorem stream_output_of_threads_witness:
  "\<exists>stats d l. run_stream plain_text (\<lambda>_. Inl ''none'') [] (\<lambda>_. Inl ''none'') (logged_stream (desk_ops sample_usb))
      desk_args 20 3 (desk_initial, []) = (Some (Inr ()) :: (string app_error + unit) option, stats, d, l)
    \<and> ds_frames stats = of_nat (length sample_decoded) \<and> ds_queue_drops stats = 0
    \<and> (\<forall>device. sink_worker (\<lambda>e. ''failed'') no_decoder pipe_ops device Stdout Mjpeg
          (taken (prompt_trace (map tv_frame sample_decoded))) \<lparr>pi_bytes = [], pi_statuses = []\<rparr>
        = \<lparr>pi_bytes = concat (map fr_jpeg (map tv_frame sample_decoded)), pi_statuses = [SinkReady, SinkClosed]\<rparr>)"
proof -
  have "\<forall>event \<in> set sample_usb. \<not> ends_session event" by (auto simp: sample_usb_def ends_session_def)
  from desk_busy_stream [OF this] obtain stats d l where
    run: "run_stream plain_text (\<lambda>_. Inl ''none'') [] (\<lambda>_. Inl ''none'') (logged_stream (desk_ops sample_usb))
      desk_args 20 3 (desk_initial, []) = (Some (Inr ()) :: (string app_error + unit) option, stats, d, l)"
    and l: "offers_of l = map (\<lambda>f. (f, SendOk)) (map tv_frame sample_decoded)"
    unfolding sample_frames_decoded by blast
  note views = prompt_trace_views [of "map tv_frame sample_decoded"]
  note both = stream_output_of_threads [OF run prompt_trace_runs [of "map tv_frame sample_decoded"] _ views(2)]
  have "entered (prompt_trace (map tv_frame sample_decoded)) = map tv_frame sample_decoded"
    by (simp add: entered_offers views filter_map comp_def)
  then show ?thesis
    using run both l views by (auto simp: filter_map comp_def)
qed

end
