(* ===== verification/Findings.thy ===== *)
theory Findings
  imports Stream_Output Plan_Session Capture Transport
begin

section \<open>What modelling showed\<close>

text \<open>
  Behaviour of the code that differs from what it is meant to do, each on a concrete run
  of the model.
\<close>

subsection \<open>Timelines\<close>

text \<open>
  \<open>audio_timing\<close> rounds position and duration down separately: the fourth of four contiguous
  blocks of 1024 frames at 48 kHz is reported as discontinuous.
\<close>

definition block_48k :: "u64 \<Rightarrow> timed_audio_chunk" where
  "block_48k n =
     \<lparr>observed_start = MonotonicTimestamp (21333 * n), ta_accuracy = Hardware,
      ta_format = \<lparr>sample_rate_hz = nonzero_or_one 48000, af_channels = nonzero_or_one 2, af_encoding = Signed16LittleEndian\<rparr>,
      ta_chunk = \<lparr>pcm = [], start_sample_frame = 1024 * n, sample_frames = 1024\<rparr>, ta_discontinuity = False\<rparr>"

theorem contiguous_audio_reported_discontinuous:
  "map (map_sum id discontinuity) (fst (run_steps audio_timing (synchronizer_new timestamp_ZERO) (map block_48k [0, 1, 2, 3])))
     = [Inr False, Inr False, Inr False, Inr True]"
  by (simp add: block_48k_def audio_timing_def synchronizer_new_def observed_pts_def duration_since_def samples_to_us_def
      timestamp_ZERO_def get_or_insert_def anchored_pts_def sat_mul_def sat_add_def checked_sub_def Let_def)

text \<open>
  A packet error resets the decoder, whose unwrapped time starts again at zero, but not the
  synchronizer, which keeps the anchor of the first frame: the frame after the error,
  observed later, is presented before the last frame before it.
\<close>

lemma decoded_frames_maximum: "max_record_size (snd (decoded_frames events decoder)) = max_record_size decoder"
proof -
  have push: "max_record_size (snd (push_packet s p)) = max_record_size s" for s p
    by (auto simp: push_packet_def push_video_def Let_def split: endpoint.split option.split sum.split)
  show ?thesis
  proof (induction events decoder rule: decoded_frames.induct)
    case (2 ep data received_at events decoder)
    obtain r d1 where step: "push_packet decoder \<lparr>ep_endpoint = ep, ep_data = data\<rparr> = (r, d1)" by fastforce
    then have "max_record_size d1 = max_record_size decoder"
      using push [of decoder "\<lparr>ep_endpoint = ep, ep_data = data\<rparr>"] by simp
    with 2 step show ?case
      by (auto simp: decoder_reset_def split: prod.split sum.split option.split)
  qed (simp_all add: decoder_reset_def)
qed

definition observed_frames :: "u64 list \<Rightarrow> compressed_frame list \<Rightarrow> timed_video_frame list" where
  "observed_frames ts fs =
     map2 (\<lambda>t f. \<lparr>observed_at = MonotonicTimestamp t, tv_frame = f, tv_discontinuity = t = 90000\<rparr>) ts fs"

lemma position_after_error:
  "sample_decoded = [e1, e2] \<Longrightarrow>
   map (map_sum id pts_us) (fst (run_steps video_timing (synchronizer_new timestamp_ZERO)
      (observed_frames [5000, 39000, 90000, 122000] [tv_frame e1, tv_frame e2, tv_frame e1, tv_frame e2])))
    = [Inr 5000, Inr 37000, Inr 5000, Inr 37000]"
proof -
  assume "sample_decoded = [e1, e2]"
  then have "timestamp_unwrapped_ms (tv_frame e1) = 0" "timestamp_delta_to_next_ms (tv_frame e1) = 32"
    "timestamp_unwrapped_ms (tv_frame e2) = 32" "timestamp_delta_to_next_ms (tv_frame e2) = 40"
    by (auto simp: sample_decoded_def)
  then show ?thesis
    by (simp add: observed_frames_def video_timing_def synchronizer_new_def observed_pts_def duration_since_def timestamp_ZERO_def
        get_or_insert_def anchored_pts_def sat_mul_def sat_add_def sat_sub_def checked_sub_def Let_def)
qed

theorem presentation_jumps_back_after_packet_error:
  "map (map_sum id pts_us) (fst (run_steps video_timing (synchronizer_new timestamp_ZERO)
      (observed_frames [5000, 39000, 90000, 122000]
        (fst (decoded_frames (sample_usb @ [PacketError Video 1] @ sample_usb) decoder_new)))))
    = [Inr 5000, Inr 37000, Inr 5000, Inr 37000]"
proof -
  obtain e1 e2 where two: "sample_decoded = [e1, e2]" by (simp add: sample_decoded_def)
  have "decoder_reset (snd (decoded_frames sample_usb decoder_new)) = decoder_new"
    using decoded_frames_maximum [of sample_usb decoder_new] by (simp add: decoder_reset_def decoder_new_def)
  then have "fst (decoded_frames (sample_usb @ [PacketError Video 1] @ sample_usb) decoder_new)
      = map tv_frame sample_decoded @ map tv_frame sample_decoded"
    using sample_frames_decoded by (simp add: decoded_frames_append case_prod_unfold)
  then show ?thesis using position_after_error [OF two] by (simp only: two list.map append.simps)
qed

subsection \<open>Bounds and formats\<close>

text \<open>The payload of a header packet is not held to the maximal size of a record.\<close>

theorem header_payload_exceeds_maximum:
  "let mark = \<lparr>ep_endpoint = Boundary, ep_data = [0x08]\<rparr>;
       header = (\<lambda>payload. \<lparr>ep_endpoint = Video, ep_data = replicate 6 0xff @ [0, 0] @ payload\<rparr>)
   in map (map_sum id fr_jpeg) (fst (push_packets (with_max_record_size 2)
        [mark, header [], mark, header [1, 2, 3, 4, 5], mark, header []]))
      = [Inr (JPEG_HEADER @ [1, 2, 3, 4, 5] @ [0xff, 0xd9])]"
proof -
  have six: "replicate 6 x = [x, x, x, x, x, x]" for x :: u8 by (simp add: numeral_eq_Suc)
  show ?thesis
    by (simp add: push_packet_def push_video_def with_max_record_size_def decoder_new_def is_boundary_mark_def
        has_header_prefix_def reconstruct_jpeg_nonzero Let_def six)
qed

text \<open>A \<open>SetInterface\<close> row with a value above 255 is accepted and its value truncated.\<close>

theorem alternate_setting_truncated:
  "parse_row hex_pairs 1 (join_with tab [''0'', ''1'', ''11'', ''0x105'', ''0'', ''0'', ''-'', ''-''])
     = Inr (Some (SetInterface 0 0 5))"
proof -
  have split: "split_on tab (join_with tab [''0'', ''1'', ''11'', ''0x105'', ''0'', ''0'', ''-'', ''-''])
      = [''0'', ''1'', ''11'', ''0x105'', ''0'', ''0'', ''-'', ''-'']"
    by (rule split_on_join) (simp_all add: tab_def)
  have start: "join_with tab [''0'', ''1'', ''11'', ''0x105'', ''0'', ''0'', ''-'', ''-''] \<noteq> []"
    "hd (join_with tab [''0'', ''1'', ''11'', ''0x105'', ''0'', ''0'', ''-'', ''-'']) \<noteq> CHR ''#''" by simp_all
  show ?thesis
    unfolding parse_row_def split using start by (simp add: parse_bounded_def parse_u64_def row_evaluation)
qed

text \<open>Numbers may carry a plus sign, also after the hexadecimal prefix.\<close>

theorem signed_numbers_accepted:
  "parse_u64 1 ''delay_us'' ''+5'' = (Inr 5 :: string init_plan_error + u64)
   \<and> parse_u64 1 ''delay_us'' ''0x+5'' = (Inr 5 :: string init_plan_error + u64)"
  by (simp_all add: parse_u64_def row_evaluation)

subsection \<open>Commands\<close>

text \<open>
  A failed poll while the stop flag is set ends a capture with success although nothing was
  captured; the regular end of the same capture is an error.
\<close>

theorem empty_capture_succeeds_on_poll_error:
  "fst (run_capture_session text ops origin delay
      [\<lparr>ct_stopping = False, ct_audio = [], ct_poll = Inl NoCamera, ct_stopping_after = True, ct_report = False\<rparr>]
      (capture_initial writer)) = (Some (Inr ()) :: ('h app_error + unit) option)
   \<and> fst (run_capture_session text ops origin delay
      [\<lparr>ct_stopping = True, ct_audio = [], ct_poll = Inl NoCamera, ct_stopping_after = True, ct_report = False\<rparr>]
      (capture_initial writer)) = (Some (Inl NoCapturedAudio) :: ('h app_error + unit) option)"
  by (simp add: capture_iteration_def capture_initial_def)

text \<open>
  When the audio capture fails at its end, the file is left as the session wrote it: the duration of what
  it holds is not stored.
\<close>

theorem duration_not_stored_on_audio_failure:
  assumes "capture_setup hex_decode embedded ops env args = (Inr writer :: 'h app_error + 'w matroska_writer)"
    and "run_capture_session text ops origin (ca_audio_delay_ms args) ticks (capture_initial writer)
      = (Some (Inr ()) :: ('h app_error + unit) option, s)"
    and "ce_audio_stop env = Inl e"
  shows "run_capture text hex_decode embedded ops env args origin ticks
    = (Some (Inl (AudioError e)), Some (mw_output (cs_writer s)))"
  using assms by (simp add: run_capture_def)

text \<open>
  When the worker fails while a frame is being offered, the stream command ends with success
  and leaves the failure that the worker has reported unread.
\<close>

definition failing_desk :: "desk stream_ops" where
  "failing_desk = (desk_ops sample_usb)
     \<lparr>dr_try_send := (\<lambda>_ d. (SendDisconnected, d)),
      dr_try_recv_status := (\<lambda>d. (if dk_polls d = 0 then Empty else Received (SinkFailed ''write failed''), d)),
      st_open := (\<lambda>_ _ d. (Inr (), d))\<rparr>"

lemma offer_refused:
  "fst (decoded_frames events decoder) \<noteq> [] \<Longrightarrow> (\<And>frame w. dr_try_send ops frame w = (SendDisconnected, w)) \<Longrightarrow>
   \<forall>event \<in> set events. \<not> ends_session event \<Longrightarrow>
     fst (stream_events text ops events decoder stats d) = Some SinkEnded
     \<and> snd (snd (snd (stream_events text ops events decoder stats d))) = d"
proof (induction events arbitrary: decoder stats)
  case (Cons event events)
  then show ?case
    by (cases event)
      (auto simp: stream_event_def offer_frame_def ends_session_def Let_def
        split: prod.split sum.split option.split)
qed simp

theorem worker_failure_lost:
  "\<exists>stats d. run_stream plain_text (\<lambda>_. Inl ''none'') [] (\<lambda>_. Inl ''none'') failing_desk desk_args 1 1 desk_initial
      = (Some (Inr ()) :: (string app_error + unit) option, stats, d)
    \<and> dr_try_recv_status failing_desk d = (Received (SinkFailed ''write failed''), d)"
proof -
  let ?d = "desk_initial\<lparr>dk_polls := 1\<rparr>" and ?stats = "driver_stats_default\<lparr>ds_reconnects := 1\<rparr>"
  have "\<forall>event \<in> set sample_usb. \<not> ends_session event" by (auto simp: sample_usb_def ends_session_def)
  moreover have "fst (decoded_frames sample_usb decoder_new) \<noteq> []"
    unfolding sample_frames_decoded by (simp add: sample_decoded_def)
  ultimately obtain decoder stats where
    events: "stream_events plain_text failing_desk sample_usb decoder_new ?stats ?d = (Some SinkEnded, decoder, stats, ?d)"
    using offer_refused [of sample_usb decoder_new failing_desk plain_text ?stats ?d]
    by (auto simp: failing_desk_def prod_eq_iff)
  have session: "run_session plain_text failing_desk 1 decoder_new ?stats desk_initial
      = (Some (Inr SinkEnded) :: (string app_error + session_end) option, stats, ?d)"
    unfolding One_nat_def run_session.simps using events
    by (simp add: failing_desk_def desk_initial_def check_sink_def)
  show ?thesis
    unfolding run_stream_def One_nat_def stream_loop.simps using session
    by (simp add: failing_desk_def desk_initial_def stream_setup_def load_plan_def record_mode_init_plan_def parse_init_plan_def
        str_lines_def desk_args_def apply_quality_def choose_strategy_def check_sink_def wait_for_sink_def driver_stats_default_def)
qed

text \<open>
  \<open>transport status --dry-run\<close> asks the camera for its status, although the flag is documented as
  not touching USB: each read advances the state of the sample device.
\<close>

theorem status_dry_run_reads_camera:
  "run_transport (Inr [sample_camera]) (\<lambda>_. Inr ()) (logged sample_handle)
      \<lparr>ta_action = StatusAction, ta_usb_path = None, ta_current_sequence = None, ta_settle_ms = 500, ta_dry_run = True\<rparr> (0, [])
     = (Inr (''status='' @ format_status (replicate 64 0x71)) :: 'h app_error + string, 100, [])"
  by (simp add: run_transport_def read_camera_status_def sample_camera_selected sample_read hbind_def usb_result_def
      usb_step_def Let_def)

subsection \<open>Lost audio\<close>

text \<open>
  The clock of the direct ALSA capture counts the frames it delivers: after an overrun it goes on
  where it stopped. Of the two chunks that a device delivers around an overrun of three seconds, the
  second is marked, but it is positioned, and then presented, directly behind the first.
\<close>

definition gap_device :: "nat alsa_ops" where
  "gap_device =
     \<lparr>al_io = (\<lambda>n. (Inr (), n)), al_running = (\<lambda>n. (n < 3, n)), al_wait = (\<lambda>n. (Inr True, n)),
      al_readi = (\<lambda>k n. if n = 1 then (Inl 32, 2) else (Inr (replicate (k div 2 * 2) 1), n)),
      al_recover = (\<lambda>e n. (Inr (), n)),
      al_status = (\<lambda>n. (Inr (\<lparr>tv_sec = if n = 0 then 2 else 5, tv_nsec = 0\<rparr>, 160), n)), al_drop = (\<lambda>n. n),
      al_send = (\<lambda>e n. (True, n + 1)), al_message = (\<lambda>e. ''overrun'')\<rparr>"

lemma gap_device_simps [simp]:
  "al_io gap_device n = (Inr (), n)" "al_running gap_device n = (n < 3, n)"
  "al_wait gap_device n = (Inr True, n)"
  "al_readi gap_device k n = (if n = 1 then (Inl 32, 2) else (Inr (replicate (k div 2 * 2) 1), n))"
  "al_recover gap_device e n = (Inr (), n)"
  "al_status gap_device n = (Inr (\<lparr>tv_sec = if n = 0 then 2 else 5, tv_nsec = 0\<rparr>, 160), n)"
  "al_drop gap_device n = n" "al_send gap_device ev n = (True, n + 1)"
  by (simp_all add: gap_device_def)

definition gap_chunk :: "u64 \<Rightarrow> u64 \<Rightarrow> bool \<Rightarrow> timed_audio_chunk" where
  "gap_chunk start observed_us gap =
     \<lparr>observed_start = from_micros observed_us, ta_accuracy = Hardware, ta_format = camera_format,
      ta_chunk = \<lparr>pcm = concat (map to_le_bytes (replicate 1280 1)), start_sample_frame = start, sample_frames = 640\<rparr>,
      ta_discontinuity = gap\<rparr>"

lemma gap_push:
  "push_pcm \<lparr>next_sample_frame = n\<rparr> (concat (map to_le_bytes (replicate 1280 1))) =
      (Inr \<lparr>pcm = concat (map to_le_bytes (replicate 1280 1)), start_sample_frame = n, sample_frames = 640\<rparr>,
       \<lparr>next_sample_frame = n + 640\<rparr>)"
  by (subst push_period) (simp_all only: length_le_samples length_replicate, simp_all)

lemma gap_run:
  "run_alsa_capture (with_log gap_device) 0 (Suc (Suc (Suc 0))) (Suc (Suc (Suc 0))) (0, [])
      = (Returned, 4, [Stored (replicate 1280 1), SentEvent (Chunk (gap_chunk 0 1950000 False)),
          Recovered, Stored (replicate 1280 1), SentEvent (Chunk (gap_chunk 640 4950000 True)), SentEvent Closed])"
  using gap_push [of 0] gap_push [of 640]
  by (simp add: run_alsa_capture_def PERIOD_SAMPLE_FRAMES_def Let_def audio_clock_new_def gap_chunk_def
      first_sample_timestamp_ns_def timespec_ns_def u64_try_from_def sat_add_def sat_mul_def sat_sub_def AUDIO_SAMPLE_RATE_HZ_def EAGAIN_def)

theorem lost_audio_not_counted:
  "\<exists>first second. snd (snd (run_alsa_capture (with_log gap_device) 0 (Suc (Suc (Suc 0))) (Suc (Suc (Suc 0))) (0, [])))
      = [Stored (replicate 1280 1), SentEvent (Chunk first), Recovered, Stored (replicate 1280 1),
         SentEvent (Chunk second), SentEvent Closed]
    \<and> observed_start first = from_micros 1950000 \<and> observed_start second = from_micros 4950000
    \<and> ta_discontinuity second \<and> start_sample_frame (ta_chunk second) = 640
    \<and> map (map_sum id pts_us) (fst (run_steps audio_timing (synchronizer_new timestamp_ZERO) [first, second]))
       = [Inr 1950000, Inr 1990000]"
  unfolding gap_run snd_conv
  by (intro exI conjI, rule refl)
    (simp_all add: gap_chunk_def camera_format_def audio_timing_def synchronizer_new_def observed_pts_def duration_since_def
      samples_to_us_def timestamp_ZERO_def from_micros_def get_or_insert_def anchored_pts_def sat_mul_def sat_add_def sat_sub_def
      checked_sub_def Let_def)

end
