(* ===== verification/Core_Tests.thy ===== *)
theory Core_Tests
  imports Record_Mode_Init Plan_Session Av_Sync
begin

section \<open>The unit tests of the protocol core\<close>

text \<open>
  The unit tests of \<open>crates/handycam-core\<close> as predicates on the model, each with the proof that it
  holds: what the authors expect of the code on their inputs, the model does. \<open>unwrap\<close> on an error
  panics, which fails the test. Left out: digests of a recorded image (SHA-256 and the JPEG
  decoder are other crates) and the replay of a capture that is not in the repository.
\<close>

definition unwraps :: "'e + 'a \<Rightarrow> ('a \<Rightarrow> bool) \<Rightarrow> bool" where
  "unwraps r P = (case r of Inl _ \<Rightarrow> False | Inr a \<Rightarrow> P a)"

lemma unwraps_simps [simp]: "unwraps (Inr a) P = P a" "\<not> unwraps (Inl e) P"
  by (simp_all add: unwraps_def)

subsection \<open>\<open>control.rs\<close>\<close>

definition transport_command_is_big_endian_at_end_of_zeroed_mailbox :: bool where
  "transport_command_is_big_endian_at_end_of_zeroed_mailbox =
     (let block = command_block 0x00691061
      in take COMMAND_WORD_OFFSET block = replicate COMMAND_WORD_OFFSET 0
         \<and> drop COMMAND_WORD_OFFSET block = [0x00, 0x69, 0x10, 0x61])"

definition scan_command_exposes_its_status_acknowledgement_token :: bool where
  "scan_command_exposes_its_status_acknowledgement_token \<longleftrightarrow>
     scan_ack_token (command_block 0x00791071) = Some 0x71
     \<and> scan_ack_token (command_block 0x00a910a1) = Some 0xa1
     \<and> scan_ack_token (command_block 0x00188010) = None
     \<and> scan_ack_token ((command_block 0x00791071)[4 := 1]) = None"

definition transport_commands_match_sony_picture_package :: bool where
  "transport_commands_match_sony_picture_package \<longleftrightarrow>
     command_byte Play = 0x1a \<and> command_byte Pause = 0x19 \<and> command_byte Stop = 0x18
     \<and> command_byte FastForward = 0x1c \<and> command_byte Rewind = 0x1b"

definition transport_encoder_duplicates_and_wraps_sequence_nibble :: bool where
  "transport_encoder_duplicates_and_wraps_sequence_nibble =
     (case encode default_encoder Play of (word, encoder) \<Rightarrow>
      case encoder_command_write encoder Pause of (write_, _) \<Rightarrow>
      case encode (with_sequence 0x0f) Stop of (wrapped, wrapping) \<Rightarrow>
        word = 0x00111a10 \<and> write_ = command_write 0x00211920
        \<and> wrapped = 0x00011800 \<and> enc_sequence wrapping = 0)"

definition scale_factor_bounds_and_register_write_are_explicit :: bool where
  "scale_factor_bounds_and_register_write_are_explicit \<longleftrightarrow>
     isl (scale_factor_new 3)
     \<and> unwraps (scale_factor_new 20) (\<lambda>s. scale_register_write s = \<lparr>rw_index = 0x007c, rw_data = [20]\<rparr>)
     \<and> isl (scale_factor_new 129)"

definition semantic_device_manager_sequences_match_the_trace :: bool where
  "semantic_device_manager_sequences_match_the_trace =
     (let init = device_init_registers 0x3f 0x03
      in POWER_OFF_REGISTERS ! 0 = \<lparr>rv_index = 0x35, rv_value = 0x06\<rparr>
         \<and> map rv_index AUDIO_ON_REGISTERS = [0x23, 0x24, 0x22, 0x35]
         \<and> POWER_ON_STAGE_DELAY_US = 10000
         \<and> length init = 21
         \<and> init ! 3 = \<lparr>rv_index = 0x61, rv_value = 0x3f\<rparr>
         \<and> init ! 18 = \<lparr>rv_index = 0x51, rv_value = 0x03\<rparr>)"

lemma control_tests:
  transport_command_is_big_endian_at_end_of_zeroed_mailbox
  scan_command_exposes_its_status_acknowledgement_token
  transport_commands_match_sony_picture_package
  transport_encoder_duplicates_and_wraps_sequence_nibble
  scale_factor_bounds_and_register_write_are_explicit
  semantic_device_manager_sequences_match_the_trace
  by code_simp+

subsection \<open>\<open>audio.rs\<close> and \<open>media.rs\<close>\<close>

definition one_usb_frame_is_exactly_one_millisecond :: bool where
  "one_usb_frame_is_exactly_one_millisecond =
     (case push_pcm audio_clock_new (replicate AUDIO_BYTES_PER_USB_FRAME 0) of (first, clock) \<Rightarrow>
      case push_pcm clock (replicate AUDIO_BYTES_PER_USB_FRAME 0) of (second, _) \<Rightarrow>
        unwraps first (\<lambda>first. unwraps second (\<lambda>second.
          start_sample_frame first = 0 \<and> sample_frames first = 16
          \<and> start_sample_frame second = 16 \<and> start_timestamp_us second = 1000)))"

definition one_pal_video_frame_corresponds_to_640_audio_frames :: bool where
  "one_pal_video_frame_corresponds_to_640_audio_frames \<longleftrightarrow> audio_sample_frames_for_video_delta 40 = 640"

definition rejects_partial_stereo_sample_frames :: bool where
  "rejects_partial_stereo_sample_frames \<longleftrightarrow>
     fst (push_pcm audio_clock_new (replicate 3 0)) = Inl (MisalignedLength 3)"

definition timestamps_are_explicitly_relative_to_one_clock_domain :: bool where
  "timestamps_are_explicitly_relative_to_one_clock_domain =
     (let start = from_micros 1000; event = from_micros 1750
      in duration_since event start = Some 750 \<and> duration_since start event = None)"

definition audio_format_rejects_invalid_clock_and_channel_counts :: bool where
  "audio_format_rejects_invalid_clock_and_channel_counts \<longleftrightarrow>
     pcm_s16le 0 2 = Inl ZeroSampleRate \<and> pcm_s16le 16000 0 = Inl ZeroChannels"

text \<open>The sink of the test collects events; \<open>collect\<close> is its \<open>push\<close>.\<close>

definition collect :: "timed_media_event list \<Rightarrow> timed_media_event \<Rightarrow> (unit + unit) \<times> timed_media_event list" where
  "collect events event = (Inr (), events @ [event])"

definition backend_events_can_flow_through_a_platform_neutral_sink :: bool where
  "backend_events_can_flow_through_a_platform_neutral_sink =
     unwraps (pcm_s16le 48000 2) (\<lambda>format.
       let event = AudioEvent \<lparr>observed_start = from_micros 4000, ta_accuracy = Hardware, ta_format = format,
             ta_chunk = \<lparr>pcm = replicate 192 0, start_sample_frame = 0, sample_frames = 48\<rparr>, ta_discontinuity = False\<rparr>
       in case collect [] event of (pushed, collector) \<Rightarrow> unwraps pushed (\<lambda>_. collector = [event]))"

lemma audio_tests:
  one_usb_frame_is_exactly_one_millisecond
  one_pal_video_frame_corresponds_to_640_audio_frames
  rejects_partial_stereo_sample_frames
  by (simp_all add: one_usb_frame_is_exactly_one_millisecond_def push_pcm_def audio_clock_new_def
      AUDIO_BYTES_PER_USB_FRAME_def AUDIO_SAMPLE_FRAMES_PER_USB_FRAME_def start_timestamp_us_def AUDIO_SAMPLE_RATE_HZ_def
      one_pal_video_frame_corresponds_to_640_audio_frames_def audio_sample_frames_for_video_delta_def
      rejects_partial_stereo_sample_frames_def Let_def)

lemma media_tests:
  timestamps_are_explicitly_relative_to_one_clock_domain
  audio_format_rejects_invalid_clock_and_channel_counts
  backend_events_can_flow_through_a_platform_neutral_sink
  by (simp_all add: timestamps_are_explicitly_relative_to_one_clock_domain_def duration_since_def checked_sub_def from_micros_def
      audio_format_rejects_invalid_clock_and_channel_counts_def backend_events_can_flow_through_a_platform_neutral_sink_def
      pcm_s16le_def nonzero_new_def collect_def Let_def)

subsection \<open>\<open>sync.rs\<close>\<close>

text \<open>The events of the tests.\<close>

definition video_of :: "u64 \<Rightarrow> u16 \<Rightarrow> u64 \<Rightarrow> timed_video_frame" where
  "video_of timestamp_ms duration_ms observed_us =
     \<lparr>observed_at = from_micros observed_us,
      tv_frame = \<lparr>fr_sequence = timestamp_ms div 40, timestamp_11bit_ms = ucast (timestamp_ms AND 0x07ff),
        timestamp_unwrapped_ms = timestamp_ms, timestamp_delta_to_next_ms = duration_ms, fr_flags = 0, fr_jpeg = []\<rparr>,
      tv_discontinuity = False\<rparr>"

definition audio_of :: "u64 \<Rightarrow> u32 \<Rightarrow> u64 \<Rightarrow> timed_audio_chunk" where
  "audio_of start count observed_us =
     \<lparr>observed_start = from_micros observed_us, ta_accuracy = Hardware,
      ta_format = projr (pcm_s16le 16000 2),
      ta_chunk = \<lparr>pcm = [], start_sample_frame = start, sample_frames = count\<rparr>, ta_discontinuity = False\<rparr>"

definition preserves_initial_audio_video_offset :: bool where
  "preserves_initial_audio_video_offset =
     (case video_timing (synchronizer_new (from_micros 1000000)) (video_of 0 40 1120000) of (v, sync) \<Rightarrow>
      case audio_timing sync (audio_of 0 640 1370000) of (a, _) \<Rightarrow>
        unwraps v (\<lambda>v. unwraps a (\<lambda>a. pts_us v = 120000 \<and> pts_us a = 370000 \<and> pts_us a - pts_us v = 250000)))"

definition media_clocks_remove_arrival_jitter_but_report_it_as_drift :: bool where
  "media_clocks_remove_arrival_jitter_but_report_it_as_drift =
     (case video_timing (synchronizer_new (from_micros 10000)) (video_of 0 40 20000) of (first, sync) \<Rightarrow>
      case video_timing sync (video_of 40 40 63000) of (second, _) \<Rightarrow>
        unwraps first (\<lambda>first. unwraps second (\<lambda>second.
          pts_us first = 10000 \<and> pts_us second = 50000 \<and> observed_drift_us second = 3000 \<and> \<not> discontinuity second)))"

definition detects_dropped_video_and_audio_ranges :: bool where
  "detects_dropped_video_and_audio_ranges =
     (case video_timing (synchronizer_new timestamp_ZERO) (video_of 0 40 0) of (v1, sync) \<Rightarrow>
      case video_timing sync (video_of 80 40 80000) of (v2, sync) \<Rightarrow>
      case audio_timing sync (audio_of 0 160 0) of (a1, sync) \<Rightarrow>
      case audio_timing sync (audio_of 320 160 20000) of (a2, _) \<Rightarrow>
        unwraps v1 (\<lambda>_. unwraps v2 discontinuity) \<and> unwraps a1 (\<lambda>_. unwraps a2 discontinuity))"

definition audio_sample_count_has_exact_pal_frame_duration :: bool where
  "audio_sample_count_has_exact_pal_frame_duration =
     unwraps (fst (audio_timing (synchronizer_new timestamp_ZERO) (audio_of 0 640 0))) (\<lambda>t. duration_us t = 40000)"

definition supports_non_sony_audio_clock_rates :: bool where
  "supports_non_sony_audio_clock_rates =
     unwraps (pcm_s16le 48000 1) (\<lambda>format.
       unwraps (fst (audio_timing (synchronizer_new timestamp_ZERO) ((audio_of 48000 480 1000000)\<lparr>ta_format := format\<rparr>)))
         (\<lambda>t. duration_us t = 10000))"

definition rejects_events_from_before_the_session_clock_origin :: bool where
  "rejects_events_from_before_the_session_clock_origin \<longleftrightarrow>
     fst (video_timing (synchronizer_new (from_micros 100)) (video_of 0 40 99))
     = Inl (ObservationBeforeStreamStart (from_micros 100) (from_micros 99))"

lemmas timing_eval =
  video_of_def audio_of_def video_timing_def audio_timing_def observed_pts_def anchored_pts_def samples_to_us_def
  signed_difference_def get_or_insert_def synchronizer_new_def from_micros_def timestamp_ZERO_def duration_since_def
  checked_sub_def sat_mul_def sat_add_def sat_sub_def pcm_s16le_def nonzero_new_def Let_def

lemma sync_tests:
  preserves_initial_audio_video_offset
  media_clocks_remove_arrival_jitter_but_report_it_as_drift
  detects_dropped_video_and_audio_ranges
  audio_sample_count_has_exact_pal_frame_duration
  supports_non_sony_audio_clock_rates
  rejects_events_from_before_the_session_clock_origin
  by (simp_all add: timing_eval preserves_initial_audio_video_offset_def
      media_clocks_remove_arrival_jitter_but_report_it_as_drift_def detects_dropped_video_and_audio_ranges_def
      audio_sample_count_has_exact_pal_frame_duration_def supports_non_sony_audio_clock_rates_def
      rejects_events_from_before_the_session_clock_origin_def)

subsection \<open>\<open>stream.rs\<close>\<close>

definition test_boundary :: endpoint_packet where
  "test_boundary = \<lparr>ep_endpoint = Boundary, ep_data = [0x08, 0, 0, 0, 0]\<rparr>"

definition test_header :: "u16 \<Rightarrow> bytes" where
  "test_header timestamp =
     [0xff, 0xff, 0xff, 0xff, 0xff, 0xff, ucast (drop_bit 8 timestamp) AND 0x07, ucast timestamp]"

definition test_video :: "bytes \<Rightarrow> endpoint_packet" where
  "test_video data = \<lparr>ep_endpoint = Video, ep_data = data\<rparr>"

definition header_requires_a_boundary_and_packet_start :: bool where
  "header_requires_a_boundary_and_packet_start =
     (case push_packet decoder_new (test_video (test_header 100)) of (first, decoder) \<Rightarrow>
      case push_packet decoder test_boundary of (marked, decoder) \<Rightarrow>
      case push_packet decoder (test_video ([0] @ test_header 100)) of (prefixed, decoder) \<Rightarrow>
      case push_packet decoder test_boundary of (again, decoder) \<Rightarrow>
      case push_packet decoder (test_video (test_header 100)) of (started, decoder) \<Rightarrow>
        first = Inr None \<and> list_all (\<lambda>r. \<not> isl r) [marked, prefixed, again, started]
        \<and> current decoder \<noteq> None)"

definition timestamp_wrap_uses_2048_modulus :: bool where
  "timestamp_wrap_uses_2048_modulus \<longleftrightarrow> timestamp_delta 20 2028 = 40"

definition oversized_record_resets_decoder :: bool where
  "oversized_record_resets_decoder =
     (case push_packet (with_max_record_size 4) test_boundary of (marked, decoder) \<Rightarrow>
      case push_packet decoder (test_video (test_header 0)) of (started, decoder) \<Rightarrow>
      case push_packet decoder (test_video [1, 2, 3, 4, 5]) of (oversized, decoder) \<Rightarrow>
        \<not> isl marked \<and> \<not> isl started \<and> oversized = Inl (RecordTooLarge 4) \<and> current decoder = None)"

lemma replicate_six: "replicate 6 x = [x, x, x, x, x, x]"
  by (simp add: numeral_eq_Suc)

lemmas decoder_eval =
  test_boundary_def test_header_def test_video_def push_packet_def push_video_def decoder_new_def with_max_record_size_def
  is_boundary_mark_def has_header_prefix_def replicate_six DEFAULT_MAX_RECORD_SIZE_def Let_def

lemma stream_tests:
  header_requires_a_boundary_and_packet_start
  timestamp_wrap_uses_2048_modulus
  oversized_record_resets_decoder
  by (simp_all add: header_requires_a_boundary_and_packet_start_def timestamp_wrap_uses_2048_modulus_def
      oversized_record_resets_decoder_def timestamp_delta_def decoder_eval)

text \<open>
  The replay of one camera record under three timestamps. The fixture and the digest are
  parameters (a recorded image and SHA-256): on every record that starts with the header
  prefix, is not empty and fits the decoder, the test fails at most for the digest, so the framing
  is right for any record in place of the curated one. \<open>packet_chunks\<close> is \<open>chunks\<close> of the standard library.
\<close>

function packet_chunks :: "nat \<Rightarrow> bytes \<Rightarrow> bytes list" where
  "packet_chunks n xs = (if xs = [] \<or> n = 0 then [] else take n xs # packet_chunks n (drop n xs))"
  by auto
termination
  by (relation "measure (\<lambda>(n, xs). length xs)") auto

declare packet_chunks.simps [simp del]

definition restamped :: "u16 \<Rightarrow> bytes \<Rightarrow> bytes" where
  "restamped timestamp camera_record =
     camera_record[6 := ucast (drop_bit 8 timestamp) AND 0x07, 7 := ucast timestamp]"

definition curated_packets :: "bytes \<Rightarrow> endpoint_packet list" where
  "curated_packets camera_record =
     concat (map (\<lambda>timestamp. test_boundary # map test_video (packet_chunks 768 (restamped timestamp camera_record)))
       [100, 140, 180])"

definition curated_camera_record_passes_through_framing_state_machine ::
  "(bytes \<Rightarrow> string) \<Rightarrow> string \<Rightarrow> bytes \<Rightarrow> bool" where
  "curated_camera_record_passes_through_framing_state_machine sha256_hex expected_digest camera_record =
     (case fst (push_packets decoder_new (curated_packets camera_record)) of
        [Inr frame] \<Rightarrow>
          timestamp_11bit_ms frame = 140 \<and> timestamp_delta_to_next_ms frame = 40
          \<and> take 6 (hd (packet_chunks 768 camera_record)) = replicate 6 0xff
          \<and> sha256_hex (fr_jpeg frame) = expected_digest
      | _ \<Rightarrow> False)"

lemma packet_chunks_concat: "0 < n \<Longrightarrow> concat (packet_chunks n xs) = xs"
  by (induction n xs rule: packet_chunks.induct) (subst packet_chunks.simps, simp)

lemma framing_video_run:
  "framing False (map test_video ds @ test_boundary # ps) = (concat ds @ fst (framing True ps), snd (framing True ps))"
  "framing False (map test_video ds) = (concat ds, [])"
  by (induction ds) (simp_all add: test_video_def test_boundary_def is_boundary_mark_def Let_def)

lemma framing_record:
  assumes "has_header_prefix d" and "framing False ps = (tail, rs)"
  shows "framing True (test_video d # ps) = ([], (header_timestamp d, header_flags d, drop 8 d @ tail) # rs)"
  using assms by (simp add: test_video_def Let_def)

lemma restamped_record:
  assumes "has_header_prefix camera_record" and "timestamp \<in> {100, 140, 180}"
  shows "\<exists>d ds. packet_chunks 768 (restamped timestamp camera_record) = d # ds \<and> has_header_prefix d
    \<and> header_timestamp d = timestamp \<and> header_flags d = 0 \<and> drop 8 d @ concat ds = drop 8 camera_record"
proof -
  let ?r = "restamped timestamp camera_record"
  have len: "8 \<le> length ?r" and pre: "take 6 ?r = replicate 6 0xff" and six: "?r ! 6 = ucast (drop_bit 8 timestamp) AND 0x07"
    and seven: "?r ! 7 = ucast timestamp" and body: "drop 8 ?r = drop 8 camera_record"
    using assms by (simp_all add: restamped_def has_header_prefix_def)
  let ?d = "take 768 ?r"
  have chunk: "packet_chunks 768 ?r = ?d # packet_chunks 768 (drop 768 ?r)"
    using len by (subst packet_chunks.simps) auto
  have join: "drop 8 ?d @ concat (packet_chunks 768 (drop 768 ?r)) = drop 8 camera_record"
    using append_take_drop_id [of 760 "drop 8 ?r"]
    by (simp add: packet_chunks_concat drop_take del: append_take_drop_id) (simp add: body)
  have "header_timestamp ?d = timestamp"
    using assms(2) six seven by (auto simp: header_timestamp_def)
  moreover have "header_flags ?d = 0"
    using assms(2) six by (auto simp: header_flags_def)
  moreover have "has_header_prefix ?d" using len pre by (simp add: has_header_prefix_def)
  ultimately show ?thesis using chunk join by blast
qed

lemma curated_records:
  assumes "has_header_prefix camera_record"
  shows "camera_records (curated_packets camera_record)
    = map (\<lambda>timestamp. (timestamp, 0, drop 8 camera_record)) [100, 140, 180]"
proof -
  have start: "framing b (test_boundary # ps) = framing True ps" for b ps
    by (simp add: test_boundary_def is_boundary_mark_def)
  have block: "framing True (map test_video (packet_chunks 768 (restamped timestamp camera_record)) @ test_boundary # ps)
      = ([], (timestamp, 0, drop 8 camera_record @ fst (framing True ps)) # snd (framing True ps))"
    if "timestamp \<in> {100, 140, 180}" for timestamp ps
    using restamped_record [OF assms that] by (auto simp: framing_record [OF _ framing_video_run(1)] simp del: framing.simps)
  have final: "framing True (map test_video (packet_chunks 768 (restamped timestamp camera_record)))
      = ([], [(timestamp, 0, drop 8 camera_record)])" if "timestamp \<in> {100, 140, 180}" for timestamp
    using restamped_record [OF assms that] by (auto simp: framing_record [OF _ framing_video_run(2)] simp del: framing.simps)
  show ?thesis
    by (simp add: camera_records_def curated_packets_def start block final del: framing.simps)
qed

lemma curated_test:
  assumes "has_header_prefix camera_record" and "length camera_record \<le> DEFAULT_MAX_RECORD_SIZE"
    and "reconstruct_jpeg (drop 8 camera_record) = Inr jpeg"
  shows "curated_camera_record_passes_through_framing_state_machine sha256_hex expected_digest camera_record
    \<longleftrightarrow> sha256_hex jpeg = expected_digest"
proof -
  have fits: "fits DEFAULT_MAX_RECORD_SIZE (camera_records (curated_packets camera_record))"
    using assms(2) by (auto simp: curated_records [OF assms(1)])
  have new: "decoder_new = with_max_record_size DEFAULT_MAX_RECORD_SIZE"
    by (simp add: with_max_record_size_def decoder_new_def)
  have delta: "timestamp_delta 180 140 = 40" by (simp add: timestamp_delta_def)
  have "fst (push_packets decoder_new (curated_packets camera_record))
      = outcomes_of 0 0 (tl (camera_records (curated_packets camera_record)))"
    using push_packets_resync [of decoder_new "curated_packets camera_record"] fits
    by (simp add: decoder_new_def)
  moreover have "take 6 (hd (packet_chunks 768 camera_record)) = replicate 6 0xff"
    using assms(1) by (subst packet_chunks.simps) (auto simp: has_header_prefix_def)
  ultimately show ?thesis
    by (simp add: curated_camera_record_passes_through_framing_state_machine_def curated_records [OF assms(1)]
        assms(3) delta Let_def)
qed

subsection \<open>\<open>init.rs\<close>\<close>

definition embedded_plan_matches_recorded_statistics :: "(string \<Rightarrow> string + bytes) \<Rightarrow> bool" where
  "embedded_plan_matches_recorded_statistics hex_decode =
     unwraps (record_mode_init_plan hex_decode RECORD_MODE_PLAN) (\<lambda>operations.
       length operations = 223
       \<and> sum_list (map op_delay_us operations) = 2563101
       \<and> (length (plan_writes operations), length (plan_reads operations)) = (140, 80)
       \<and> map snd (plan_alternates operations) = [0, 7, 5])"

definition quality_override_preserves_reset_and_changes_configured_write :: "(string \<Rightarrow> string + bytes) \<Rightarrow> bool" where
  "quality_override_preserves_reset_and_changes_configured_write hex_decode =
     unwraps (record_mode_init_plan hex_decode RECORD_MODE_PLAN) (\<lambda>operations.
     unwraps (scale_factor_new 80) (\<lambda>factor.
       case override_record_mode_scale_factor operations factor of (overridden, operations) \<Rightarrow>
         overridden \<and> scale_values operations = [0x10, 0x50]))"

lemma init_tests:
  assumes "hex_codec hex_text hex_decode"
  shows "embedded_plan_matches_recorded_statistics hex_decode"
    and "quality_override_preserves_reset_and_changes_configured_write hex_decode"
proof -
  note parsed = record_mode_plan_parses [OF assms, folded record_mode_init_plan_def]
  show "embedded_plan_matches_recorded_statistics hex_decode"
    by (simp add: embedded_plan_matches_recorded_statistics_def parsed plan_statistics)
  obtain found plan where over: "override_record_mode_scale_factor record_mode_ops (ScaleFactor 80) = (found, plan)"
    by fastforce
  show "quality_override_preserves_reset_and_changes_configured_write hex_decode"
    using override_effect(1,4) [OF over] over
    by (simp add: quality_override_preserves_reset_and_changes_configured_write_def parsed scale_factor_new_def
        scale_MIN_def scale_MAX_def record_mode_scale_values)
qed

end
