(* ===== verification/Driver_Tests.thy ===== *)
theory Driver_Tests
  imports Core_Tests Matroska Linux_Audio Sink Driver_Common "HOL-Library.Sublist"
begin

section \<open>The unit tests of the drivers and of the command line\<close>

text \<open>
  The unit tests of the other crates as predicates on the model, each with the proof that it
  holds (\<open>Core_Tests\<close> has those of the core). Left out: the call of \<open>ffprobe\<close> at the end of the
  Matroska test, which the test itself skips where the program is missing.
\<close>

subsection \<open>\<open>handycam-libusb\<close>: \<open>transport.rs\<close>\<close>

definition parses_physical_port_path :: bool where
  "parses_physical_port_path =
     unwraps (selector_from_str ''001-2.3'') (\<lambda>selector.
       sel_bus selector = Some 1 \<and> sel_ports selector = [2, 3] \<and> selector_display selector = ''001-2.3'')"

definition rejects_address_instead_of_port_path :: bool where
  "rejects_address_instead_of_port_path \<longleftrightarrow> isl (selector_from_str ''001:004'')"

definition scan_groups :: "init_op list \<Rightarrow> (u8 \<times> nat) list" where
  "scan_groups plan =
     List.map_filter (\<lambda>(pos, operation).
       map_option (\<lambda>token. (token, end_of_status_poll_run plan (pos + 1) - pos - 1)) (startup_scan_token operation))
       (enumerate 0 plan)"

definition identifies_only_the_four_startup_scan_groups :: "(string \<Rightarrow> string + bytes) \<Rightarrow> bool" where
  "identifies_only_the_four_startup_scan_groups hex_decode =
     unwraps (record_mode_init_plan hex_decode RECORD_MODE_PLAN) (\<lambda>plan.
       scan_groups plan = [(0x71, 16), (0x81, 14), (0x91, 16), (0xa1, 11)])"

definition initialization_strategies_select_mode_specific_acknowledgements :: bool where
  "initialization_strategies_select_mode_specific_acknowledgements \<longleftrightarrow>
     acknowledgement_token LiteralReplay 0x71 = None
     \<and> acknowledgement_token ConditionPolling 0x71 = Some 0x71
     \<and> acknowledgement_token PlaybackConditionPolling 0x71 = Some 0x79"

lemma selector_tests:
  parses_physical_port_path
  rejects_address_instead_of_port_path
  initialization_strategies_select_mode_specific_acknowledgements
  by code_simp+

text \<open>The groups by recursion over the plan: the run of polls after a scan command is a \<open>takeWhile\<close>.\<close>

fun poll_groups :: "init_op list \<Rightarrow> (u8 \<times> nat) list" where
  "poll_groups [] = []"
| "poll_groups (operation # plan) =
     (case startup_scan_token operation of
        None \<Rightarrow> poll_groups plan
      | Some token \<Rightarrow> (token, length (takeWhile is_status_poll plan)) # poll_groups plan)"

lemma end_of_run_length:
  "end_of_status_poll_run plan pos = pos + length (takeWhile is_status_poll (drop pos plan))"
proof (induction plan pos rule: end_of_status_poll_run.induct)
  case (1 plan pos)
  then show ?case
    by (subst end_of_status_poll_run.simps, cases "pos < length plan")
      (auto simp: Cons_nth_drop_Suc [symmetric])
qed

lemma scan_groups_suffix:
  "List.map_filter (\<lambda>(pos, operation).
       map_option (\<lambda>token. (token, end_of_status_poll_run (xs @ plan) (pos + 1) - pos - 1)) (startup_scan_token operation))
     (enumerate (length xs) plan) = poll_groups plan"
proof (induction plan arbitrary: xs)
  case (Cons operation plan)
  from Cons [of "xs @ [operation]"] show ?case
    by (simp add: end_of_run_length map_filter_simps split: option.split)
qed (simp add: map_filter_simps)

lemma scan_groups_eq: "scan_groups plan = poll_groups plan"
  using scan_groups_suffix [of "[]" plan] by (simp add: scan_groups_def)

lemma poll_groups_other: "startup_scan_token operation = None \<Longrightarrow> poll_groups (operation # plan) = poll_groups plan"
  "startup_scan_token operation = Some token \<Longrightarrow>
     poll_groups (operation # plan) = (token, length (takeWhile is_status_poll plan)) # poll_groups plan"
  by simp_all

lemma record_mode_groups: "poll_groups record_mode_ops = [(0x71, 16), (0x81, 14), (0x91, 16), (0xa1, 11)]"
  by (simp add: poll_groups_other record_mode_ops_eval startup_token_block COMMAND_BLOCK_INDEX_def STATUS_INDEX_def
      del: poll_groups.simps(2))

lemma plan_group_test:
  assumes "hex_codec hex_text hex_decode"
  shows "identifies_only_the_four_startup_scan_groups hex_decode"
  using record_mode_groups
  by (simp add: identifies_only_the_four_startup_scan_groups_def record_mode_init_plan_def record_mode_plan_parses [OF assms]
      scan_groups_eq)

subsection \<open>\<open>handycam-linux-audio\<close>\<close>

text \<open>
  The test's reader is a byte slice; \<open>now\<close> is the instant at which it starts, one second after
  the session's origin.
\<close>

definition reader_emits_complete_timestamped_periods :: "nat \<Rightarrow> bool" where
  "reader_emits_complete_timestamped_periods now =
     (let input = replicate (PERIOD_BYTES * 2) 0
      in case arecord_run_capture slice_ops (now - 1000000000) 3
           \<lparr>sl_stream = input, sl_now = now, sl_times = [], sl_sent = []\<rparr> of
           (ended, reader) \<Rightarrow>
             ended = Returned
             \<and> (case sl_sent reader of
                  [Chunk first, Chunk second, last_event] \<Rightarrow>
                    start_sample_frame (ta_chunk first) = 0 \<and> start_sample_frame (ta_chunk second) = 640
                    \<and> ta_accuracy first = Estimated \<and> last_event = Closed
                | _ \<Rightarrow> False))"

definition derives_period_start_from_status_time_and_unread_frames :: bool where
  "derives_period_start_from_status_time_and_unread_frames \<longleftrightarrow>
     first_sample_timestamp_ns 2000000000 160 640 16000 = 1950000000"

lemma reader_test: "reader_emits_complete_timestamped_periods now"
proof -
  let ?w = "\<lparr>sl_stream = replicate 5120 0, sl_now = now, sl_times = [], sl_sent = []\<rparr>"
  obtain w' ts where run: "capture_loop slice_ops camera_format (now - 1000000000) 3 audio_clock_new ?w = (Returned, w')"
    "length ts = 2"
    "sl_sent w' = map Chunk (arecord_chunks camera_format (now - 1000000000) 0 ts (periods 2 (replicate 5120 0))) @ [Closed]"
    using slice.capture_loop_reads [of ?w 3 camera_format "now - 1000000000" audio_clock_new] by (auto simp: audio_clock_new_def)
  from run(2) obtain a b where "ts = [a, b]" by (auto simp: length_Suc_conv numeral_2_eq_2)
  moreover have "periods 2 (replicate 5120 (0 :: u8)) = [replicate 2560 0, replicate 2560 0]"
    by (simp add: numeral_2_eq_2)
  ultimately show ?thesis
    using run(1,3)
    by (simp add: reader_emits_complete_timestamped_periods_def arecord_run_capture_def arecord_chunk_def)
qed

lemma period_start_test: derives_period_start_from_status_time_and_unread_frames
  by (simp add: derives_period_start_from_status_time_and_unread_frames_def first_sample_timestamp_ns_def
      sat_add_def sat_mul_def sat_sub_def)

subsection \<open>\<open>sink.rs\<close> and \<open>main.rs\<close>\<close>

definition mjpeg_stdout_data_has_no_extra_framing :: "jpeg_decoder \<Rightarrow> bool" where
  "mjpeg_stdout_data_has_no_extra_framing decoder =
     (let frame = \<lparr>fr_sequence = 0, timestamp_11bit_ms = 0, timestamp_unwrapped_ms = 0, timestamp_delta_to_next_ms = 40,
            fr_flags = 0, fr_jpeg = [0xff, 0xd8, 1, 2, 0xff, 0xd9]\<rparr>
      in unwraps (frame_data decoder frame Mjpeg) (\<lambda>data. data = fr_jpeg frame))"

definition recognizes_only_complete_jpeg_images :: bool where
  "recognizes_only_complete_jpeg_images \<longleftrightarrow>
     is_complete_jpeg [0xff, 0xd8, 1, 2, 0xff, 0xd9] \<and> \<not> is_complete_jpeg [0xff, 0xd8, 1, 2]
     \<and> \<not> is_complete_jpeg [1, 2, 0xff, 0xd9] \<and> \<not> is_complete_jpeg []"

definition accepts_record_and_playback_timestamp_rounding :: bool where
  "accepts_record_and_playback_timestamp_rounding \<longleftrightarrow>
     \<not> is_nominal_camera_delta 38 \<and> is_nominal_camera_delta 39 \<and> is_nominal_camera_delta 40
     \<and> is_nominal_camera_delta 41 \<and> \<not> is_nominal_camera_delta 42"

definition applies_signed_audio_delay_only_to_presentation_time :: bool where
  "applies_signed_audio_delay_only_to_presentation_time =
     (let timing = \<lparr>pts_us = 100000, duration_us = 40000, observed_drift_us = -12, discontinuity = True\<rparr>;
          shifted = apply_audio_delay timing 60
      in pts_us (apply_audio_delay timing 60) = 160000
         \<and> pts_us (apply_audio_delay timing (-30)) = 70000
         \<and> duration_us shifted = duration_us timing
         \<and> observed_drift_us shifted = observed_drift_us timing
         \<and> discontinuity shifted = discontinuity timing)"

lemma command_tests:
  "mjpeg_stdout_data_has_no_extra_framing decoder"
  recognizes_only_complete_jpeg_images
  accepts_record_and_playback_timestamp_rounding
  applies_signed_audio_delay_only_to_presentation_time
  by (simp_all add: mjpeg_stdout_data_has_no_extra_framing_def frame_data_def recognizes_only_complete_jpeg_images_def
      is_complete_jpeg_def starts_with_def ends_with_def accepts_record_and_playback_timestamp_rounding_def
      is_nominal_camera_delta_def applies_signed_audio_delay_only_to_presentation_time_def apply_audio_delay_def
      unsigned_abs_def sat_mul_def sat_add_def sat_sub_def Let_def)

subsection \<open>\<open>handycam-matroska\<close>\<close>

definition test_writer_calls :: "audio_format \<Rightarrow> writer_call list" where
  "test_writer_calls format =
     (let timing = \<lparr>pts_us = 0, duration_us = 40000, observed_drift_us = 0, discontinuity = False\<rparr>
      in [PutVideo
            \<lparr>observed_at = timestamp_ZERO,
             tv_frame = \<lparr>fr_sequence = 0, timestamp_11bit_ms = 0, timestamp_unwrapped_ms = 0,
               timestamp_delta_to_next_ms = 40, fr_flags = 0, fr_jpeg = [0xff, 0xd8, 0xff, 0xd9]\<rparr>,
             tv_discontinuity = False\<rparr> timing,
          PutAudio
            \<lparr>observed_start = timestamp_ZERO, ta_accuracy = Hardware, ta_format = format,
             ta_chunk = \<lparr>pcm = replicate 2560 0, start_sample_frame = 0, sample_frames = 640\<rparr>,
             ta_discontinuity = False\<rparr> timing])"

definition writes_streaming_matroska_with_both_tracks :: bool where
  "writes_streaming_matroska_with_both_tracks =
     unwraps (pcm_s16le 16000 2) (\<lambda>format.
     unwraps (matroska_new cursor_ops empty_cursor format) (\<lambda>writer.
       case run_steps (writer_call cursor_ops) writer (test_writer_calls format) of (results, writer) \<Rightarrow>
         list_all (\<lambda>r. r = Inr ()) results
         \<and> unwraps (into_inner cursor_ops writer) (\<lambda>out.
             let written = cur_content out
             in starts_with [0x1a, 0x45, 0xdf, 0xa3] written
                \<and> sublist (ascii ''V_MJPEG'') written
                \<and> sublist (ascii ''A_PCM/INT/LIT'') written
                \<and> sublist [0xff, 0xd8, 0xff, 0xd9] written)))"

lemma test_writer_values:
  "calls_room (test_writer_calls format) < 2 ^ 55"
  "calls_clusters camera_format (test_writer_calls camera_format)
     = [(0, VIDEO_TRACK, [0xff, 0xd8, 0xff, 0xd9]), (0, AUDIO_TRACK, replicate 2560 0)]"
  by (simp_all add: test_writer_calls_def calls_room_def call_room_def call_size_def Let_def calls_clusters_def
      call_clusters_def accepts_audio_def expected_pcm_length_def camera_format_def usize_MAX_def)

lemma sublist_within:
  "sublist xs ys \<Longrightarrow> sublist xs (ys @ zs)" "sublist xs zs \<Longrightarrow> sublist xs (ys @ zs)"
  using sublist_append_rightI sublist_append_leftI sublist_order.order.trans by blast+

lemma sublist_element: "sublist xs payload \<Longrightarrow> fits_element payload \<Longrightarrow> sublist xs (element_bytes i payload)"
  by (auto simp: element_bytes_def fits_element_def sublist_within split: sum.splits)

lemma codec_names:
  "sublist (ascii ''V_MJPEG'') video_entry" "sublist (ascii ''A_PCM/INT/LIT'') (audio_entry fmt)"
  unfolding video_entry_def audio_entry_def
  by (rule sublist_within(2), rule sublist_within(2), rule sublist_within(2), rule sublist_within(1),
      rule sublist_element [OF sublist_order.order.refl], simp)+

lemma sublist_tracks:
  assumes "sublist xs (tracks_bytes fmt)"
  shows "sublist xs (file_bytes fmt duration cs)"
proof -
  have "sublist xs (header_suffix fmt)"
    unfolding header_suffix_def using sublist_element [OF assms] by (simp add: sublist_within)
  then show ?thesis by (simp add: file_bytes_parts sublist_within)
qed

lemma sublist_clusters:
  assumes "(pts_ms, track, data) \<in> set cs" and "length data < 2 ^ 55"
  shows "sublist data (file_bytes fmt duration cs)"
proof -
  have "sublist data (block_bytes track data)"
    unfolding block_bytes_def by (intro sublist_within(2) sublist_order.order.refl)
  then have "sublist data (cluster_payload pts_ms track data)"
    using assms(2) unfolding cluster_payload_def by (intro sublist_within(2) sublist_element) simp_all
  then have "sublist data (element_bytes 0x1f43b675 (cluster_payload pts_ms track data))"
    using assms(2) by (intro sublist_element) simp_all
  then have "sublist data (elements_bytes (map cluster_element cs))"
    using assms(1) by (induction cs) (auto simp: cluster_element_def sublist_within)
  then show ?thesis by (simp add: file_bytes_def sublist_within)
qed

lemma file_start: "starts_with [0x1a, 0x45, 0xdf, 0xa3] (file_bytes fmt duration cs)"
proof -
  have "take 4 header_prefix = [0x1a, 0x45, 0xdf, 0xa3]" by code_simp
  then have "take 4 (file_bytes fmt duration cs) = [0x1a, 0x45, 0xdf, 0xa3]"
    using length_header_prefix by (simp add: file_bytes_parts)
  then show ?thesis by (simp add: starts_with_def numeral_eq_Suc)
qed

lemma put_video:
  assumes "cursor_out.writes mw fmt d cs end_us" and "length (fr_jpeg (tv_frame event)) < 2 ^ 55"
  shows "\<exists>mw' cs' end'. writer_call cursor_ops mw (PutVideo event timing) = (Inr (), mw') \<and> cursor_out.writes mw' fmt d cs' end'"
  using cursor_out.write_media_writes [OF assms, of "pts_us timing div 1000" VIDEO_TRACK timing thesis for thesis]
  by (fastforce simp: writer_call_def write_video_def)

lemma put_audio:
  assumes "cursor_out.writes mw fmt d cs end_us" and "length (pcm (ta_chunk event)) < 2 ^ 55" and "accepts_audio fmt event"
  shows "\<exists>mw'. writer_call cursor_ops mw (PutAudio event timing) = (Inr (), mw')"
proof -
  have "mw_audio_format mw = fmt" using assms(1) by (simp add: cursor_out.writes_def)
  moreover obtain mw' where "io_step (write_cluster (out_write_all cursor_ops) (pts_us timing div 1000) AUDIO_TRACK
      (pcm (ta_chunk event)) (mw_output mw)) mw (\<lambda>_ mw. (Inr (), note_end timing mw)) = (Inr (), mw')"
    by (rule cursor_out.write_media_writes [OF assms(1,2)])
  ultimately show ?thesis
    using assms(3) by (simp add: writer_call_def write_audio_def accepts_audio_def Let_def)
qed

lemma put_both:
  assumes "cursor_out.writes mw fmt d cs end_us" and "length (fr_jpeg (tv_frame frame)) < 2 ^ 55"
    and "length (pcm (ta_chunk chunk)) < 2 ^ 55" and "accepts_audio fmt chunk"
  shows "list_all (\<lambda>r. r = Inr ())
    (fst (run_steps (writer_call cursor_ops) mw [PutVideo frame video_time, PutAudio chunk audio_time]))"
proof -
  obtain mw1 cs1 end1 where v: "writer_call cursor_ops mw (PutVideo frame video_time) = (Inr (), mw1)"
    and mw1: "cursor_out.writes mw1 fmt d cs1 end1"
    using put_video [OF assms(1,2)] by blast
  obtain mw2 where "writer_call cursor_ops mw1 (PutAudio chunk audio_time) = (Inr (), mw2)"
    using put_audio [OF mw1 assms(3,4)] by blast
  with v show ?thesis by simp
qed

lemma test_writer_results:
  assumes "cursor_out.writes mw camera_format d cs end_us"
  shows "list_all (\<lambda>r. r = Inr ()) (fst (run_steps (writer_call cursor_ops) mw (test_writer_calls camera_format)))"
  unfolding test_writer_calls_def Let_def
  by (rule put_both [OF assms]) (simp_all add: accepts_audio_def expected_pcm_length_def camera_format_def usize_MAX_def)

lemma matroska_test: writes_streaming_matroska_with_both_tracks
proof -
  let ?calls = "test_writer_calls camera_format"
  let ?cs = "calls_clusters camera_format ?calls"
  have format: "pcm_s16le 16000 2 = Inr camera_format"
    by (simp add: pcm_s16le_def nonzero_new_def camera_format_def)
  obtain mw where mw: "matroska_new cursor_ops empty_cursor camera_format = Inr mw" "cursor_out.writes mw camera_format 0 [] 0"
    by (rule cursor_out.matroska_new_writes [of empty_cursor]) (simp_all add: empty_cursor_def)
  obtain out where out: "into_inner cursor_ops (snd (run_steps (writer_call cursor_ops) mw ?calls)) = Inr out"
    and written: "cur_content out = file_bytes camera_format (duration_bits (calls_end camera_format ?calls)) ?cs"
    using cursor_out.write_file_bytes [of empty_cursor ?calls camera_format, OF _ _ test_writer_values(1)] mw(1)
    by (auto simp: write_file_def empty_cursor_def)
  have "sublist [0xff, 0xd8, 0xff, 0xd9] (cur_content out)"
    unfolding written by (rule sublist_clusters [of 0 VIDEO_TRACK]) (simp_all add: test_writer_values)
  moreover have "sublist (ascii ''V_MJPEG'') (tracks_bytes camera_format)"
    "sublist (ascii ''A_PCM/INT/LIT'') (tracks_bytes camera_format)"
    unfolding tracks_bytes_def
    by (rule sublist_within(1) sublist_within(2), rule sublist_element [OF codec_names(1)] sublist_element [OF codec_names(2)], simp)+
  ultimately show ?thesis
    using test_writer_results [OF mw(2)] mw(1)
    by (simp add: writes_streaming_matroska_with_both_tracks_def format out written case_prod_unfold Let_def file_start sublist_tracks)
qed

end
