(* ===== verification/Spec2Isabelle.thy ===== *)
theory Spec2Isabelle
  imports Capture_Audio Replay_Output Capture_Lifecycle Error_Texts Findings Core_Tests Driver_Tests
begin

text \<open>
  This library models \<open>handycam\<close>, a userspace driver in Rust for the USB video and audio of
  Sony DCR-HC24 cameras (\<open>crates/\<close>), and proves what makes its parts correct.

  The program. The camera sends frames over two isochronous endpoints: boundary packets mark
  where a record starts, video packets carry the records' data. After an initialization that
  replays recorded control transfers, the driver joins the packets into records, turns every
  record into a JPEG image, and hands the images on: to standard output or a V4L2 node
  (\<open>handycam stream\<close>), or together with the camera's PCM audio into a Matroska file
  (\<open>handycam capture\<close>). Two commands replay recorded images and extracted captures through
  the same output worker, one inspects the camera and sends tape-transport commands.

  The theories, in the order of their dependency, and what they model:

  \<^item> \<open>Prelude\<close>: results as sums with the early return \<open>rbind\<close>, machine integers with
    saturation, byte arrays, runs of a state machine over a list (\<open>run_steps\<close>).
  \<^item> \<open>Control\<close> (\<open>handycam-core/src/control.rs\<close>): register tables, the command mailbox, the
    transport command encoder, the scale factor.
  \<^item> \<open>Jpeg\<close> (\<open>jpeg.rs\<close>): reconstruction of a JPEG image from entropy-coded data, and the
    conversion of decoded images to YUYV.
  \<^item> \<open>Stream_Decoder\<close> (\<open>stream.rs\<close>): the state machine that assembles frames from packets of
    both endpoints, against the reference \<open>camera_records\<close> that frames a whole packet list.
  \<^item> \<open>Audio_Clock\<close>, \<open>Media\<close>, \<open>Av_Sync\<close> (\<open>audio.rs\<close>, \<open>media.rs\<close>, \<open>sync.rs\<close>): sample
    positions, timed events, and the synchronizer that gives both media one timeline.
  \<^item> \<open>Text_Format\<close>, \<open>Init_Plan\<close> (\<open>init.rs\<close>): the text functions of the standard library that
    the program uses, and the parser of initialization plans.
  \<^item> \<open>Usb_Transport\<close>, \<open>Usb_Control\<close>, \<open>Usb_Session\<close>, \<open>Usb_Lifecycle\<close>
    (\<open>handycam-libusb/src/transport.rs\<close>): camera selection and descriptor check; the replay of a
    plan with acknowledgement polling, status and transport commands, opening the device with its
    cleanup; the isochronous session with its transfers, completion callbacks, polling and
    stopping, alone and in a world with libusb's set of transfers in flight, where \<open>stop\<close> is
    begun (\<open>stop_begin\<close>) and finished (\<open>stop_finish\<close>: its loop and the freeing) by the definitions it is
    composed of, with any callbacks in between; and the life of a whole session, with the device handle and the transfers together.
  \<^item> \<open>Record_Mode_Plan\<close>, \<open>Record_Mode_Init\<close>, \<open>Plan_Session\<close>
    (\<open>handycam-core/assets/record-mode-init.tsv\<close>): the plan that the crate embeds, field by field,
    and the operations it parses to; the register sequences it contains and what the polling
    strategies replace; what a session opened with it sends to the camera.
  \<^item> \<open>Linux_Audio\<close> (\<open>handycam-linux-audio/src/lib.rs\<close>): both capture loops, the configuration
    of the device, the handles.
  \<^item> \<open>Matroska\<close> (\<open>handycam-matroska/src/lib.rs\<close>): the writer, down to the bytes of its
    elements, and a reader for what it writes.
  \<^item> \<open>Sink\<close> (\<open>handycam-cli/src/sink.rs\<close>): the output worker.
  \<^item> \<open>Driver_Common\<close>, \<open>Session_Frames\<close>, \<open>Driver_Log\<close>: what the commands of
    \<open>handycam-cli/src/main.rs\<close> share: errors, plan loading, statuses, waiting; the frames a list
    of camera events decodes to; the log and the clock contract that the properties use.
  \<^item> \<open>Frame_Channel\<close>: the bounded channel between a command and its output worker, as a
    state machine over the interleaved steps of both threads.
  \<^item> \<open>Capture\<close>, \<open>Capture_File\<close>, \<open>Capture_Audio\<close> and \<open>Capture_Lifecycle\<close> (\<open>run_capture\<close>,
    \<open>run_capture_session\<close>; \<open>Capture_Audio\<close> together with the \<open>arecord\<close> worker, from the PCM stream to
    the file, the last one with the USB session and the audio capture that the command owns),
    \<open>Stream_Session\<close>, \<open>Stream_Log\<close> and \<open>Stream_Output\<close> (\<open>run_stream\<close>, \<open>run_session\<close>; the last one
    together with the output worker),
    \<open>Replay\<close>, \<open>Replay_Log\<close> and \<open>Replay_Output\<close> (\<open>run_replay\<close>, \<open>run_replay_capture\<close>; the last one together
    with the output worker),
    \<open>Transport\<close> (\<open>run_transport\<close>): the commands, each model followed by its properties.
  \<^item> \<open>Cli\<close> (\<open>main\<close>, \<open>initialize_logging\<close>): the program from the parsed command line to the exit
    code, and the texts of timestamps and operations.
  \<^item> \<open>Error_Texts\<close>: what every error type says, and the message of a failed run.
  \<^item> \<open>Core_Tests\<close>, \<open>Driver_Tests\<close> (the \<open>tests\<close> modules): the unit tests of the crates as predicates
    that are proved to hold on the model.
  \<^item> \<open>Findings\<close>: behaviour that differs from what the code is meant to do, each on a
    concrete run of the model.

  How the code is modelled. A struct is a record, an enum a datatype, \<open>Result\<close> a sum with the
  error on the left; \<open>&mut self\<close> is a returned state. \<open>u8\<close> to \<open>u64\<close> and \<open>i64\<close> are words of
  their width, so that arithmetic wraps as in a release build and \<open>saturating_*\<close> is written
  out; \<open>usize\<close> is \<open>nat\<close>. An \<open>Instant\<close> is a number of nanoseconds since the earliest instant.
  Everything outside the repository (\<open>rusb\<close> and libusb, \<open>alsa\<close>, \<open>v4l\<close>, the JPEG and
  hexadecimal decoders, \<open>serde_json\<close>, files, clocks, channels, signals) is a parameter: a record of
  operations on a world \<open>'w\<close> that the definitions thread through their calls in the order of
  the code. What is assumed of such a parameter is a hypothesis of the theorem or the
  assumption of a locale (\<open>byte_sink\<close>, \<open>reliable_sink\<close>, \<open>seekable_output\<close>, \<open>pcm_reader\<close>,
  \<open>sleeping_clock\<close>), and every locale is interpreted on a model of the standard library's
  behaviour (\<open>Vec\<close>, \<open>Cursor\<close>, a byte slice, a sleeping clock).
  Many theorems instead run the model on a logging world and speak about every answer the
  surroundings can give.

  Loops. A loop over data is structural recursion. A loop that depends on the surroundings
  takes the number of its iterations as an argument and says when they are used up
  (\<open>None\<close>, \<open>Running\<close>, \<open>StillRunning\<close>), so that safety holds for any number of iterations; that enough
  iterations exist is proved where the code guarantees an end: acknowledgement polling ends
  within 50 reads (\<open>poll_acknowledgement_ends\<close>), stopping a session returns once libusb
  has delivered its completions (\<open>session_stop_completes\<close>), the waits end on a sleeping clock
  (\<open>sleeping_clock.wait_ends\<close>), the \<open>arecord\<close> loop ends with its stream, and a capture session
  ends at the stop flag (\<open>capture_session_succeeds\<close>).

  What the groups of lemmas show, from the inside out: the decoder refines the framing of the
  packet stream, keeps its memory bound and its timeline; reconstructed images read back; the
  synchronizer gives timelines without gaps, but for the rounding of audio blocks that do not
  last a whole number of microseconds, which it reports as discontinuities; the plan parser round-trips and its replay sends
  exactly the plan's writes; USB transfers are never freed while in flight, because stopping reaps them first, nor
  used after their end, and the statistics are exact; a session acquires and releases its interface and transfers exactly once; a session
  opened with the embedded plan has sent its writes exactly, among them the documented register sequences and
  the quantization tables of the reconstructed images; the written file reads back as
  the packets it was given. On top of them, the commands: a successful capture leaves a file that
  reads back as exactly the frames and chunks of the session with their times, its audio track is the
  received beginning of the PCM stream of the sound card, and on every way out the command leaves no handle open; a stream keeps its camera in order, its retries in pace and its
  statistics exact, and for every interleaving with its worker it writes, in order, exactly the
  decoded frames that the channel accepted, or a beginning of them; a replayed capture writes
  exactly the frames its packets decode to; and a stream or a replay
  that ends has a reason to, and reports the cause of an error: the start, the worker's status, the camera, or
  a panic that joining the worker showed.

  Not modelled: argument parsing and writing log lines (\<open>clap\<close>, \<open>tracing\<close>), the texts of other
  crates' errors (parameters of \<open>Error_Texts\<close>), the derived \<open>Debug\<close> texts that no message contains, accessors that only
  return a field, and the pointers behind a transfer (a transfer is the index of its slot). Of the
  tests, the digests of recorded images, the decoding of such images and the replay of a capture outside
  the repository are left out: they evaluate other crates on recorded data.
  Concurrency is modelled where threads share data in flight: the frame channel has every
  interleaving of command and worker, and completion callbacks run at any point where
  libusb handles events; other workers are seen through the events they send. The trait
  \<open>TimedMediaSink\<close> has no implementation outside tests. The Python tools and documents of the
  repository are not part of the driver.
\<close>

end
